(* ===== verification/Prelude.thy ===== *)
theory Prelude
  imports Main "HOL-Library.Word"
begin

text \<open>
  Shared vocabulary of the development: the machine integers of the Rust sources, results and
  panics as values, the iterator adaptors over \<open>Result\<close> that the code uses
  (\<open>try_for_each\<close>, \<open>collect\<close>), saturating and checked arithmetic, decimal and hexadecimal
  formatting, and the generic lemmas on them. Every other theory imports this one.
\<close>

unbundle bit_operations_syntax

named_theorems rust_arith "definitions of the checked and saturating operations"
named_theorems step_simps "unfolding rules of the step functions of state machines"

section \<open>Machine integers\<close>

type_synonym u8 = "8 word"
type_synonym u16 = "16 word"
type_synonym u32 = "32 word"
type_synonym u64 = "64 word"

text \<open>
  Counters and times of the benchmark driver (\<open>usize\<close>, \<open>u64\<close> on a 64-bit host) are natural
  numbers with the width written out: \<open>u64_max\<close> is the largest value, the saturating
  operations stop there.
\<close>

definition u64_max :: nat where
  "u64_max = 2 ^ 64 - 1"

definition saturating_add :: "nat \<Rightarrow> nat \<Rightarrow> nat" where
  [rust_arith]: "saturating_add a b = min (a + b) u64_max"

definition saturating_mul :: "nat \<Rightarrow> nat \<Rightarrow> nat" where
  [rust_arith]: "saturating_mul a b = min (a * b) u64_max"

definition saturating_sub :: "nat \<Rightarrow> nat \<Rightarrow> nat" where
  [rust_arith]: "saturating_sub a b = a - b"

text \<open>The cast \<open>x as u64\<close> of a wider or of a signed integer keeps the low 64 bits.\<close>

definition as_u64 :: "int \<Rightarrow> nat" where
  "as_u64 i = nat (i mod 2 ^ 64)"

lemma as_u64_le [simp]: "as_u64 i \<le> u64_max"
proof -
  have "i mod 2 ^ 64 < (2 ^ 64 :: int)" by simp
  then have "nat (i mod 2 ^ 64) < 2 ^ 64" by (simp add: nat_less_iff)
  then show ?thesis by (simp add: as_u64_def u64_max_def)
qed

lemma as_u64_small: "n \<le> u64_max \<Longrightarrow> as_u64 (int n) = n"
  by (simp add: as_u64_def u64_max_def nat_mod_as_int [symmetric] flip: zmod_int)

lemma saturating_le [simp]:
  "saturating_add a b \<le> u64_max" "saturating_mul a b \<le> u64_max"
  by (simp_all add: rust_arith)

lemma saturating_add_exact: "a + b \<le> u64_max \<Longrightarrow> saturating_add a b = a + b"
  by (simp add: rust_arith)

lemma saturating_mul_exact: "a * b \<le> u64_max \<Longrightarrow> saturating_mul a b = a * b"
  by (simp add: rust_arith)

text \<open>\<open>checked_add\<close> on a machine word: \<open>None\<close> when the sum does not fit.\<close>

definition checked_add :: "'a::len word \<Rightarrow> 'a word \<Rightarrow> 'a word option" where
  "checked_add a b = (if unat a + unat b < 2 ^ LENGTH('a) then Some (a + b) else None)"

lemma checked_add_Some_iff:
  "checked_add a b = Some c \<longleftrightarrow> unat (a :: 'a::len word) + unat b < 2 ^ LENGTH('a) \<and> c = a + b"
  by (auto simp: checked_add_def)

lemma unat_add_no_overflow:
  "unat (a :: 'a::len word) + unat b < 2 ^ LENGTH('a) \<Longrightarrow> unat (a + b) = unat a + unat b"
  by (simp add: unat_word_ariths)

lemma checked_add_unat: "checked_add a b = Some c \<Longrightarrow> unat c = unat a + unat b"
  by (auto simp: checked_add_Some_iff unat_add_no_overflow)

section \<open>Results and panics\<close>

text \<open>
  \<open>Result<T, E>\<close> is \<open>'e + 'a\<close> with \<open>Inl\<close> for \<open>Err\<close>; \<open>Result<T, String>\<close>, used all over
  the benchmark driver, is \<open>'a res\<close>. The operator \<open>?\<close> is \<open>rbind\<close>.
\<close>

type_synonym 'a res = "string + 'a"

abbreviation Ok :: "'a \<Rightarrow> 'e + 'a" where "Ok \<equiv> Inr"
abbreviation Err :: "'e \<Rightarrow> 'e + 'a" where "Err \<equiv> Inl"

fun rbind :: "'e + 'a \<Rightarrow> ('a \<Rightarrow> 'e + 'b) \<Rightarrow> 'e + 'b" where
  "rbind (Inl e) f = Inl e"
| "rbind (Inr a) f = f a"

fun map_err :: "('e \<Rightarrow> 'f) \<Rightarrow> 'e + 'a \<Rightarrow> 'f + 'a" where
  "map_err f (Inl e) = Inl (f e)"
| "map_err f (Inr a) = Inr a"

fun ok_or :: "'e \<Rightarrow> 'a option \<Rightarrow> 'e + 'a" where
  "ok_or e None = Inl e"
| "ok_or e (Some a) = Inr a"

fun is_ok :: "'e + 'a \<Rightarrow> bool" where
  "is_ok (Inl e) = False"
| "is_ok (Inr a) = True"

lemma rbind_Inr_iff: "rbind x f = Inr b \<longleftrightarrow> (\<exists>a. x = Inr a \<and> f a = Inr b)"
  by (cases x) auto

lemma rbind_Inl_iff: "rbind x f = Inl e \<longleftrightarrow> x = Inl e \<or> (\<exists>a. x = Inr a \<and> f a = Inl e)"
  by (cases x) auto

lemma map_err_Inr_iff [simp]: "map_err f x = Inr a \<longleftrightarrow> x = Inr a"
  by (cases x) auto

lemma map_err_Inl_iff: "map_err f x = Inl e \<longleftrightarrow> (\<exists>e'. x = Inl e' \<and> e = f e')"
  by (cases x) auto

lemma ok_or_Inr_iff [simp]: "ok_or e x = Inr a \<longleftrightarrow> x = Some a"
  by (cases x) auto

lemma ok_or_Inl_iff [simp]: "ok_or e x = Inl e' \<longleftrightarrow> x = None \<and> e' = e"
  by (cases x) auto

lemma is_ok_iff: "is_ok x \<longleftrightarrow> (\<exists>a. x = Inr a)"
  by (cases x) auto

lemmas res_iffs = rbind_Inr_iff rbind_Inl_iff map_err_Inl_iff is_ok_iff

text \<open>\<open>iter().collect::<Result<Vec<_>, _>>()\<close>: all the values, or the first error.\<close>

fun collect_results :: "('e + 'a) list \<Rightarrow> 'e + 'a list" where
  "collect_results [] = Inr []"
| "collect_results (x # xs) =
     rbind x (\<lambda>a. rbind (collect_results xs) (\<lambda>as. Inr (a # as)))"

lemma collect_results_Inr_iff: "collect_results xs = Inr as \<longleftrightarrow> xs = map Inr as"
proof (induction xs arbitrary: as)
  case Nil
  then show ?case by auto
next
  case (Cons x xs)
  then show ?case by (cases as) (auto simp: res_iffs)
qed

lemma collect_results_Inl_mem: "collect_results xs = Inl e \<Longrightarrow> Inl e \<in> set xs"
  by (induction xs) (auto simp: res_iffs)

lemma collect_results_map_Inr [simp]: "collect_results (map Inr as) = Inr as"
  by (simp add: collect_results_Inr_iff)

text \<open>
  Two results of two clean-up phases joined the way the driver joins them: the first error
  wins, two errors are concatenated with \<open>; additionally \<close>.
\<close>

fun merge_results :: "unit res \<Rightarrow> unit res \<Rightarrow> unit res" where
  "merge_results (Inr _) (Inr _) = Inr ()"
| "merge_results (Inl err) (Inr _) = Inl err"
| "merge_results (Inr _) (Inl err) = Inl err"
| "merge_results (Inl err) (Inl err') = Inl (err @ ''; additionally '' @ err')"

lemma merge_results_ok_iff [simp]:
  "merge_results a b = Inr u \<longleftrightarrow> a = Inr () \<and> b = Inr ()"
  by (cases a; cases b) auto

text \<open>
  Fallible code with effects on a world \<open>'w\<close> that is not part of the sources (the host, the
  kernel, a socket): \<open>('w, 'a) io\<close> takes the world and returns the result and the next world.
  An error stops the sequence, the effects made before it stay.
\<close>

type_synonym ('w, 'a) io = "'w \<Rightarrow> 'a res \<times> 'w"

definition io_bind :: "('w, 'a) io \<Rightarrow> ('a \<Rightarrow> ('w, 'b) io) \<Rightarrow> ('w, 'b) io" where
  "io_bind m f w = (case m w of (Inl e, w') \<Rightarrow> (Inl e, w') | (Inr a, w') \<Rightarrow> f a w')"

definition io_return :: "'a \<Rightarrow> ('w, 'a) io" where
  "io_return a w = (Inr a, w)"

definition io_lift :: "'a res \<Rightarrow> ('w, 'a) io" where
  "io_lift r w = (r, w)"

definition io_map_err :: "(string \<Rightarrow> string) \<Rightarrow> ('w, 'a) io \<Rightarrow> ('w, 'a) io" where
  "io_map_err f m w = (case m w of (r, w') \<Rightarrow> (map_err f r, w'))"

text \<open>\<open>let _ = m\<close>: the result is dropped, the effect stays.\<close>

definition io_ignore :: "('w, 'a) io \<Rightarrow> ('w, unit) io" where
  "io_ignore m w = (Inr (), snd (m w))"

text \<open>The result as a value: both branches are inspected by the code that follows.\<close>

definition io_try :: "('w, 'a) io \<Rightarrow> ('a res \<Rightarrow> ('w, 'b) io) \<Rightarrow> ('w, 'b) io" where
  "io_try m f w = (case m w of (r, w') \<Rightarrow> f r w')"

lemma io_bind_simps [simp]:
  "m w = (Inl e, w') \<Longrightarrow> io_bind m f w = (Inl e, w')"
  "m w = (Inr a, w') \<Longrightarrow> io_bind m f w = f a w'"
  by (simp_all add: io_bind_def)

lemma io_basic_simps [simp]:
  "io_return a w = (Inr a, w)" "io_lift r w = (r, w)"
  "io_bind (io_return a) f w = f a w"
  "io_bind (io_lift (Inr a)) f w = f a w" "io_bind (io_lift (Inl e)) f w = (Inl e, w)"
  "io_bind (io_ignore m) g w = g () (snd (m w))"
  by (simp_all add: io_return_def io_lift_def io_bind_def io_ignore_def)

lemma io_bind_Inr_iff:
  "io_bind m f w = (Inr b, w2) \<longleftrightarrow> (\<exists>a w1. m w = (Inr a, w1) \<and> f a w1 = (Inr b, w2))"
  by (auto simp: io_bind_def split: prod.splits sum.splits)

lemma io_bind_Inl_iff:
  "io_bind m f w = (Inl e, w2) \<longleftrightarrow>
     m w = (Inl e, w2) \<or> (\<exists>a w1. m w = (Inr a, w1) \<and> f a w1 = (Inl e, w2))"
  by (auto simp: io_bind_def split: prod.splits sum.splits)

lemma io_map_err_Inr_iff [simp]: "io_map_err f m w = (Inr a, w') \<longleftrightarrow> m w = (Inr a, w')"
  by (auto simp: io_map_err_def split: prod.splits)

lemma io_map_err_Inl_iff:
  "io_map_err f m w = (Inl e, w') \<longleftrightarrow> (\<exists>e'. m w = (Inl e', w') \<and> e = f e')"
  by (auto simp: io_map_err_def map_err_Inl_iff split: prod.splits)

lemma io_map_err_snd [simp]: "snd (io_map_err f m w) = snd (m w)"
  by (simp add: io_map_err_def split: prod.split)

lemmas io_iffs = io_bind_Inr_iff io_bind_Inl_iff io_map_err_Inl_iff

section \<open>Formatting of numbers\<close>

definition digit_char :: "nat \<Rightarrow> char" where
  "digit_char d = char_of (if d < 10 then 48 + d else 87 + d)"

fun show_base :: "nat \<Rightarrow> nat \<Rightarrow> string" where
  "show_base b n =
     (if b < 2 \<or> n < b then [digit_char n]
      else show_base b (n div b) @ [digit_char (n mod b)])"

declare show_base.simps [simp del]

text \<open>\<open>format!("{}", n)\<close> and \<open>format!("{:x}", n)\<close>.\<close>

definition show_nat :: "nat \<Rightarrow> string" where
  "show_nat n = show_base 10 n"

definition show_hex :: "nat \<Rightarrow> string" where
  "show_hex n = show_base 16 n"

lemma digit_char_inj: "a < 16 \<Longrightarrow> b < 16 \<Longrightarrow> digit_char a = digit_char b \<Longrightarrow> a = b"
proof -
  assume ab: "a < 16" "b < 16" and eq: "digit_char a = digit_char b"
  let ?f = "\<lambda>d::nat. if d < 10 then 48 + d else 87 + d"
  have "of_char (digit_char a) = (of_char (digit_char b) :: nat)" using eq by simp
  then have "?f a mod 256 = ?f b mod 256"
    by (simp add: digit_char_def split: if_splits)
  with ab show ?thesis by (auto split: if_splits)
qed

lemma show_base_nonempty [simp]: "show_base b n \<noteq> []"
  by (subst show_base.simps) simp

lemma show_base_small: "n < b \<Longrightarrow> show_base b n = [digit_char n]"
  by (subst show_base.simps) simp

lemma show_base_big:
  "2 \<le> b \<Longrightarrow> b \<le> n \<Longrightarrow> show_base b n = show_base b (n div b) @ [digit_char (n mod b)]"
  by (subst show_base.simps) simp

lemma show_base_inj:
  assumes "2 \<le> b" "b \<le> 16" "show_base b m = show_base b n"
  shows "m = n"
  using assms(3)
proof (induction m arbitrary: n rule: less_induct)
  case (less m)
  show ?case
  proof (cases "m < b")
    case True
    with less.prems have eq: "[digit_char m] = show_base b n" by (simp add: show_base_small)
    show ?thesis
    proof (cases "n < b")
      case True
      with eq \<open>m < b\<close> assms show ?thesis
        by (auto simp: show_base_small intro: digit_char_inj)
    next
      case False
      with assms(1) have "show_base b n = show_base b (n div b) @ [digit_char (n mod b)]"
        by (simp add: show_base_big)
      with eq show ?thesis by (cases "show_base b (n div b)") auto
    qed
  next
    case False
    with assms(1) less.prems
    have eq: "show_base b (m div b) @ [digit_char (m mod b)] = show_base b n"
      by (simp add: show_base_big)
    show ?thesis
    proof (cases "n < b")
      case True
      with eq have "show_base b (m div b) @ [digit_char (m mod b)] = [digit_char n]"
        by (simp add: show_base_small)
      then show ?thesis by (cases "show_base b (m div b)") auto
    next
      case nb: False
      with eq assms(1) have e1: "show_base b (m div b) = show_base b (n div b)"
        and e2: "digit_char (m mod b) = digit_char (n mod b)"
        by (simp_all add: show_base_big)
      have "m div b < m" using False assms(1) by simp
      then have "m div b = n div b" using e1 by (rule less.IH)
      moreover have "m mod b = n mod b"
        using e2 assms(1,2) by (intro digit_char_inj) (auto intro: less_le_trans [OF mod_less_divisor])
      ultimately show ?thesis by (metis div_mult_mod_eq)
    qed
  qed
qed

lemma show_base_length: "2 \<le> b \<Longrightarrow> n < b ^ k \<Longrightarrow> 0 < k \<Longrightarrow> length (show_base b n) \<le> k"
proof (induction k arbitrary: n)
  case 0
  then show ?case by simp
next
  case (Suc k)
  show ?case
  proof (cases "n < b")
    case True
    then show ?thesis by (simp add: show_base_small)
  next
    case False
    have "n div b < b ^ k" using Suc.prems by (simp add: div_less_iff_less_mult mult.commute)
    moreover have "0 < k" using False Suc.prems by (cases k) auto
    ultimately have "length (show_base b (n div b)) \<le> k" using Suc by simp
    with False Suc.prems show ?thesis by (simp add: show_base_big)
  qed
qed

lemma show_nat_inj: "show_nat m = show_nat n \<Longrightarrow> m = n"
  by (auto simp: show_nat_def intro: show_base_inj [of 10])

lemma show_hex_inj: "show_hex m = show_hex n \<Longrightarrow> m = n"
  by (auto simp: show_hex_def intro: show_base_inj [of 16])

text \<open>A decimal number has no other characters than digits.\<close>

lemma show_nat_range: "c \<in> set (show_nat n) \<Longrightarrow> (48 :: nat) \<le> of_char c \<and> of_char c \<le> (57 :: nat)"
proof (induction n rule: less_induct)
  case (less n)
  show ?case
  proof (cases "n < 10")
    case True
    with less.prems show ?thesis by (auto simp: show_nat_def show_base_small digit_char_def)
  next
    case False
    then have "c \<in> set (show_nat (n div 10)) \<or> c = digit_char (n mod 10)"
      using less.prems by (simp add: show_nat_def show_base_big) blast
    moreover have "(48 :: nat) \<le> of_char c \<and> of_char c \<le> (57 :: nat)" if "c \<in> set (show_nat (n div 10))"
      using less.IH [of "n div 10"] False that by simp
    moreover have "n mod 10 < 10" by simp
    then have "(48 :: nat) \<le> of_char (digit_char (n mod 10)) \<and> of_char (digit_char (n mod 10)) \<le> (57 :: nat)"
      by (auto simp: digit_char_def)
    ultimately show ?thesis by blast
  qed
qed

lemma show_nat_no_char: "\<not> ((48 :: nat) \<le> of_char c \<and> of_char c \<le> (57 :: nat)) \<Longrightarrow> c \<notin> set (show_nat n)"
  using show_nat_range by blast

section \<open>Parsing of numbers\<close>

text \<open>
  \<open>str::parse\<close> for an unsigned type with the given maximum: an optional plus sign, at least one
  digit, no overflow.
\<close>

definition digit_value :: "char \<Rightarrow> nat option" where
  "digit_value c = (let v = of_char c in if 48 \<le> v \<and> v \<le> 57 then Some (v - 48) else None)"

fun parse_digits :: "nat \<Rightarrow> nat \<Rightarrow> string \<Rightarrow> nat option" where
  "parse_digits bound acc [] = Some acc"
| "parse_digits bound acc (c # cs) =
     (case digit_value c of
        None \<Rightarrow> None
      | Some d \<Rightarrow> (if acc * 10 + d \<le> bound then parse_digits bound (acc * 10 + d) cs else None))"

definition parse_uint :: "nat \<Rightarrow> string \<Rightarrow> nat option" where
  "parse_uint bound s =
     (let digits = (if s \<noteq> [] \<and> hd s = CHR ''+'' then tl s else s)
      in if digits = [] then None else parse_digits bound 0 digits)"

lemma digit_value_digit: "d < 10 \<Longrightarrow> digit_value (digit_char d) = Some d"
  by (simp add: digit_value_def digit_char_def Let_def)

lemma parse_digits_append:
  "parse_digits bound acc (xs @ ys) =
     (case parse_digits bound acc xs of None \<Rightarrow> None | Some a \<Rightarrow> parse_digits bound a ys)"
  by (induction xs arbitrary: acc) (auto split: option.split)

lemma parse_digits_show: "n \<le> bound \<Longrightarrow> parse_digits bound 0 (show_nat n) = Some n"
proof (induction n rule: less_induct)
  case (less n)
  show ?case
  proof (cases "n < 10")
    case True
    with less.prems show ?thesis by (simp add: show_nat_def show_base_small digit_value_digit)
  next
    case False
    then have "parse_digits bound 0 (show_nat (n div 10)) = Some (n div 10)"
      using less.prems by (intro less.IH) auto
    with False less.prems show ?thesis
      by (simp add: show_nat_def show_base_big parse_digits_append digit_value_digit)
  qed
qed

lemma parse_uint_show_nat: "parse_uint bound (show_nat n) = parse_digits bound 0 (show_nat n)"
proof -
  have "CHR ''+'' \<notin> set (show_nat n)"
    by (rule show_nat_no_char) simp
  moreover have "show_nat n \<noteq> []" by (simp add: show_nat_def)
  ultimately show ?thesis
    by (cases "show_nat n") (auto simp: parse_uint_def Let_def)
qed

lemma parse_uint_show: "n \<le> bound \<Longrightarrow> parse_uint bound (show_nat n) = Some n"
  by (simp add: parse_uint_show_nat parse_digits_show)

lemma parse_digits_show_big: "bound < n \<Longrightarrow> parse_digits bound 0 (show_nat n) = None"
proof (induction n rule: less_induct)
  case (less n)
  show ?case
  proof (cases "n < 10")
    case True
    with less.prems show ?thesis by (simp add: show_nat_def show_base_small digit_value_digit)
  next
    case False
    then have n: "show_nat n = show_nat (n div 10) @ [digit_char (n mod 10)]"
      by (simp add: show_nat_def show_base_big)
    have split: "n div 10 * 10 + n mod 10 = n" by simp
    show ?thesis
    proof (cases "n div 10 \<le> bound")
      case True
      then show ?thesis using less.prems split unfolding n parse_digits_append
        by (simp add: parse_digits_show digit_value_digit)
    next
      case big: False
      have "n div 10 < n" using False by simp
      with less.IH [of "n div 10"] big show ?thesis unfolding n parse_digits_append by simp
    qed
  qed
qed

lemma parse_digits_bound: "parse_digits bound acc s = Some n \<Longrightarrow> acc \<le> bound \<Longrightarrow> n \<le> bound"
  by (induction bound acc s rule: parse_digits.induct) (auto split: option.splits if_splits)

lemma parse_uint_show_big: "bound < n \<Longrightarrow> parse_uint bound (show_nat n) = None"
  by (simp add: parse_uint_show_nat parse_digits_show_big)

lemma parse_uint_bound: "parse_uint bound s = Some n \<Longrightarrow> n \<le> bound"
  by (auto simp: parse_uint_def Let_def split: if_splits dest: parse_digits_bound)

section \<open>Lists\<close>

text \<open>A delimiter that does not occur in the first parts determines them.\<close>

lemma append_delim_inject:
  assumes "d \<notin> set xs" "d \<notin> set ys" "xs @ d # us = ys @ d # vs"
  shows "xs = ys \<and> us = vs"
  using assms
proof (induction xs arbitrary: ys)
  case Nil
  then show ?case by (cases ys) auto
next
  case (Cons x xs)
  then show ?case by (cases ys) auto
qed

lemma map_plus_upt: "map (\<lambda>i. n + i) [0..<m] = [n ..< n + (m :: nat)]"
  by (induction m) auto

lemma concat_upt_segments:
  assumes "\<And>i. i < n \<Longrightarrow> off (Suc i) = off i + (cnt i :: nat)" "off 0 = 0"
  shows "concat (map (\<lambda>i. [off i ..< off i + cnt i]) [0..<n]) = [0 ..< off n]"
  using assms
proof (induction n)
  case 0
  then show ?case by simp
next
  case (Suc n)
  then have "concat (map (\<lambda>i. [off i ..< off i + cnt i]) [0..<n]) = [0 ..< off n]" by simp
  moreover have "off (Suc n) = off n + cnt n" using Suc.prems by simp
  ultimately show ?case by (simp add: upt_add_eq_append [of 0])
qed

section \<open>State machines\<close>

text \<open>
  A machine is a partial step function over actions; \<open>reaches\<close> is its reflexive-transitive
  closure, \<open>exec_all\<close> runs a list of actions (which is how a concrete run is exhibited).
\<close>

inductive reaches :: "('a \<Rightarrow> 's \<Rightarrow> 's option) \<Rightarrow> 's \<Rightarrow> 's \<Rightarrow> bool" for step where
  reaches_refl: "reaches step s s"
| reaches_step: "reaches step s t \<Longrightarrow> step a t = Some u \<Longrightarrow> reaches step s u"

fun exec_all :: "('a \<Rightarrow> 's \<Rightarrow> 's option) \<Rightarrow> 'a list \<Rightarrow> 's \<Rightarrow> 's option" where
  "exec_all step [] s = Some s"
| "exec_all step (a # as) s = (case step a s of None \<Rightarrow> None | Some s' \<Rightarrow> exec_all step as s')"

lemma reaches_trans: "reaches step t u \<Longrightarrow> reaches step s t \<Longrightarrow> reaches step s u"
  by (induction rule: reaches.induct) (auto intro: reaches_step)

lemma exec_all_append:
  "exec_all step (as @ bs) s = (case exec_all step as s of None \<Rightarrow> None | Some t \<Rightarrow> exec_all step bs t)"
  by (induction as arbitrary: s) (auto split: option.split)

lemma exec_all_reaches: "exec_all step as s = Some s' \<Longrightarrow> reaches step s s'"
proof (induction as arbitrary: s)
  case Nil
  then show ?case by (simp add: reaches_refl)
next
  case (Cons a as)
  then obtain t where t: "step a s = Some t" "exec_all step as t = Some s'"
    by (auto split: option.splits)
  have "reaches step s t" by (rule reaches_step [OF reaches_refl]) (rule t(1))
  with Cons.IH [OF t(2)] show ?case by (rule reaches_trans)
qed

text \<open>
  The interface between a machine and the clients of its invariant: the provider shows that
  the invariant holds at the start and that every step keeps it, the clients use it in every
  reachable state.
\<close>

locale machine_invariant =
  fixes step :: "'a \<Rightarrow> 's \<Rightarrow> 's option"
    and init :: 's
    and invar :: "'s \<Rightarrow> bool"
  assumes invar_init: "invar init"
    and invar_step: "invar s \<Longrightarrow> step a s = Some s' \<Longrightarrow> invar s'"
begin

lemma invar_reaches: "reaches step s s' \<Longrightarrow> invar s \<Longrightarrow> invar s'"
  by (induction rule: reaches.induct) (auto intro: invar_step)

lemma invar_reachable: "reaches step init s \<Longrightarrow> invar s"
  using invar_reaches invar_init by blast

lemma invar_exec_all: "exec_all step as init = Some s \<Longrightarrow> invar s"
  by (rule invar_reachable) (rule exec_all_reaches)

end

text \<open>
  A machine whose steps that are not spurious decrease a measure: no run makes more such steps
  than the measure of its first state.
\<close>

locale ranked_machine = machine_invariant +
  fixes rank :: "'s \<Rightarrow> nat"
    and counted :: "'a \<Rightarrow> bool"
  assumes rank_step: "invar s \<Longrightarrow> counted a \<Longrightarrow> step a s = Some s' \<Longrightarrow> rank s' < rank s"
begin

lemma exec_all_rank:
  "invar s \<Longrightarrow> exec_all step as s = Some s' \<Longrightarrow> list_all counted as \<Longrightarrow> length as + rank s' \<le> rank s"
proof (induction as arbitrary: s)
  case Nil
  then show ?case by simp
next
  case (Cons a as)
  then obtain t where t: "step a s = Some t" "exec_all step as t = Some s'" "counted a"
    by (auto split: option.splits)
  with Cons have "length as + rank s' \<le> rank t" by (auto intro: invar_step)
  moreover have "rank t < rank s" using Cons.prems(1) t by (intro rank_step)
  ultimately show ?case by simp
qed

end

text \<open>
  A machine whose steps are steps of another one on a part of its state, or leave that part as it is:
  whatever holds in every reachable state of the smaller machine holds of the part.
\<close>

locale machine_projection =
  fixes step :: "'a \<Rightarrow> 's \<Rightarrow> 's option"
    and init :: 's
    and part_step :: "'b \<Rightarrow> 't \<Rightarrow> 't option"
    and part_init :: 't
    and part :: "'s \<Rightarrow> 't"
  assumes part_init: "part init = part_init"
    and part_step: "step a s = Some s' \<Longrightarrow> part s' = part s \<or> (\<exists>b. part_step b (part s) = Some (part s'))"
begin

lemma part_reaches: "reaches step s s' \<Longrightarrow> reaches part_step (part s) (part s')"
proof (induction rule: reaches.induct)
  case reaches_refl
  show ?case by (rule reaches.reaches_refl)
next
  case (reaches_step s t a u)
  with part_step [OF reaches_step.hyps(2)] show ?case by (auto intro: reaches.reaches_step)
qed

lemma part_reachable: "reaches step init s \<Longrightarrow> reaches part_step part_init (part s)"
  using part_reaches [of init s] by (simp add: part_init)

end

text \<open>
  A machine that can do whatever a simpler one does: related states stay related, and a run of the
  simpler machine is a run of the other.
\<close>

locale machine_simulation =
  fixes step :: "'a \<Rightarrow> 's \<Rightarrow> 's option"
    and spec_step :: "'a \<Rightarrow> 't \<Rightarrow> 't option"
    and related :: "'s \<Rightarrow> 't \<Rightarrow> bool"
  assumes simulates: "related s x \<Longrightarrow> spec_step a x = Some y \<Longrightarrow> \<exists>s'. step a s = Some s' \<and> related s' y"
begin

lemma simulates_run:
  "related s x \<Longrightarrow> exec_all spec_step as x = Some y \<Longrightarrow> \<exists>s'. exec_all step as s = Some s' \<and> related s' y"
proof (induction as arbitrary: s x)
  case (Cons a as)
  from Cons.prems(2) obtain z where z: "spec_step a x = Some z" "exec_all spec_step as z = Some y"
    by (auto split: option.splits)
  from simulates [OF Cons.prems(1) z(1)] obtain t where t: "step a s = Some t" "related t z" by blast
  from Cons.IH [OF t(2) z(2)] t(1) show ?case by simp
qed simp

end

section \<open>Counting over an update\<close>

definition count_below :: "nat \<Rightarrow> ('b \<Rightarrow> bool) \<Rightarrow> (nat \<Rightarrow> 'b) \<Rightarrow> nat" where
  "count_below n P f = card {i. i < n \<and> P (f i)}"

lemma count_below_le: "count_below n P f \<le> n"
proof -
  have "card {i. i < n \<and> P (f i)} \<le> card {..<n}" by (rule card_mono) auto
  then show ?thesis by (simp add: count_below_def)
qed

lemma count_below_upd_same:
  "P x = P (f t) \<Longrightarrow> count_below n P (f(t := x)) = count_below n P f"
  unfolding count_below_def by (rule arg_cong [where f = card]) auto

lemma count_below_upd_new:
  assumes "t < n" "\<not> P (f t)" "P x"
  shows "count_below n P (f(t := x)) = Suc (count_below n P f)"
proof -
  have "{i. i < n \<and> P ((f(t := x)) i)} = insert t {i. i < n \<and> P (f i)}"
    using assms by auto
  then show ?thesis using assms(2) by (simp add: count_below_def)
qed

lemma count_below_all: "count_below n P f = n \<longleftrightarrow> (\<forall>i<n. P (f i))"
proof
  assume "count_below n P f = n"
  then have "{i. i < n \<and> P (f i)} = {..<n}"
    by (intro card_subset_eq) (auto simp: count_below_def)
  then show "\<forall>i<n. P (f i)" by auto
next
  assume "\<forall>i<n. P (f i)"
  then have "{i. i < n \<and> P (f i)} = {..<n}" by auto
  then show "count_below n P f = n" by (simp add: count_below_def)
qed

lemma count_below_0 [simp]: "\<not> P x \<Longrightarrow> count_below n P (\<lambda>_. x) = 0"
  by (simp add: count_below_def)

lemma count_below_cong: "(\<And>i. i < n \<Longrightarrow> P (f i) = Q (g i)) \<Longrightarrow> count_below n P f = count_below n Q g"
  unfolding count_below_def by (rule arg_cong [where f = card]) auto

lemma sum_upd:
  assumes "t < (n::nat)"
  shows "(\<Sum>u<n. f u ((g(t := x)) u)) + f t (g t) = (\<Sum>u<n. f u (g u)) + (f t x :: nat)"
proof -
  let ?R = "\<lambda>h. \<Sum>u\<in>{..<n} - {t}. f u (h u)"
  have rem: "(\<Sum>u<n. f u (h u)) = f t (h t) + ?R h" for h
    using assms by (intro sum.remove) auto
  have same: "?R (g(t := x)) = ?R g" by (rule sum.cong) auto
  show ?thesis unfolding rem [of g] rem [of "g(t := x)"] same by simp
qed

lemma sum_le_plus:
  assumes "\<And>u. u < n \<Longrightarrow> f u \<le> g u + 1"
  shows "(\<Sum>u<n. f u) \<le> (\<Sum>u<n. g u) + (n::nat)"
  using assms
proof (induction n)
  case 0
  then show ?case by simp
next
  case (Suc n)
  then have "(\<Sum>u<n. f u) \<le> (\<Sum>u<n. g u) + n" "f n \<le> g n + 1" by auto
  then show ?case by simp
qed

end
