(* ===== verification/Bench_Ops.thy ===== *)
theory Bench_Ops
  imports Prelude
begin

text \<open>
  The measuring layer of the snapshot-restore benchmark, src/restore-motivation/src/ops/mod.rs:
  resource usage snapshots and their differences, the measured execution of one operation, the
  registry of operations, and the arithmetic that distributes the operations over the workers.
  The clock and \<open>getrusage\<close> belong to the host: they are fields of an environment record that
  the definitions take as an argument. Times are nanoseconds of the monotonic clock.
\<close>

section \<open>Data\<close>

record measurement =
  thread_id :: nat
  iteration :: nat
  instance_id :: nat
  stage :: string
  start_us :: nat
  end_us :: nat
  elapsed_us :: nat
  user_cpu_us :: nat
  sys_cpu_us :: nat
  blocked_us :: nat
  minflt :: nat
  majflt :: nat
  nvcsw :: nat
  nivcsw :: nat

record run_config =
  total :: nat
  concurrency :: nat
  measure_per_op_usage :: bool

record worker_run_config =
  wrc_thread_id :: nat
  wrc_iterations :: nat

record usage_snapshot =
  s_user_cpu_us :: nat
  s_sys_cpu_us :: nat
  s_minflt :: nat
  s_majflt :: nat
  s_nvcsw :: nat
  s_nivcsw :: nat

record usage_delta =
  d_user_cpu_us :: nat
  d_sys_cpu_us :: nat
  d_blocked_us :: nat
  d_minflt :: nat
  d_majflt :: nat
  d_nvcsw :: nat
  d_nivcsw :: nat

record run_output =
  measurements :: "measurement list"
  wall_us :: nat
  total_usage :: usage_delta

section \<open>Resource usage\<close>

text \<open>The parts of libc's \<open>timeval\<close> and \<open>rusage\<close> that the code reads, signed 64-bit values.\<close>

record timeval =
  tv_sec :: int
  tv_usec :: int

record rusage =
  ru_utime :: timeval
  ru_stime :: timeval
  ru_minflt :: int
  ru_majflt :: int
  ru_nvcsw :: int
  ru_nivcsw :: int

record 'w bench_env =
  env_now :: "'w \<Rightarrow> nat \<times> 'w"
  env_getrusage :: "'w \<Rightarrow> nat \<Rightarrow> (string + rusage) \<times> 'w"

definition RUSAGE_SELF :: nat where "RUSAGE_SELF = 0"
definition RUSAGE_THREAD :: nat where "RUSAGE_THREAD = 1"

definition timeval_to_micros :: "timeval \<Rightarrow> nat" where
  "timeval_to_micros tv =
     saturating_add (saturating_mul (as_u64 (tv_sec tv)) 1000000) (as_u64 (tv_usec tv))"

definition snapshot_of_rusage :: "rusage \<Rightarrow> usage_snapshot" where
  "snapshot_of_rusage u =
     \<lparr> s_user_cpu_us = timeval_to_micros (ru_utime u),
       s_sys_cpu_us = timeval_to_micros (ru_stime u),
       s_minflt = as_u64 (ru_minflt u), s_majflt = as_u64 (ru_majflt u),
       s_nvcsw = as_u64 (ru_nvcsw u), s_nivcsw = as_u64 (ru_nivcsw u) \<rparr>"

text \<open>\<open>UsageSnapshot::capture\<close>: a non-zero return of \<open>getrusage\<close> is the \<open>Inl\<close> branch.\<close>

definition capture :: "'w bench_env \<Rightarrow> nat \<Rightarrow> ('w, usage_snapshot) io" where
  "capture E who w =
     (case env_getrusage E w who of
        (Inl os_error, w') \<Rightarrow>
          (Err (''getrusage('' @ show_nat who @ '') failed: '' @ os_error), w')
      | (Inr u, w') \<Rightarrow> (Ok (snapshot_of_rusage u), w'))"

definition delta_since :: "usage_snapshot \<Rightarrow> usage_snapshot \<Rightarrow> nat \<Rightarrow> usage_delta" where
  "delta_since self before elapsed =
     (let user = saturating_sub (s_user_cpu_us self) (s_user_cpu_us before);
          sys = saturating_sub (s_sys_cpu_us self) (s_sys_cpu_us before);
          cpu = saturating_add user sys
      in \<lparr> d_user_cpu_us = user, d_sys_cpu_us = sys,
           d_blocked_us = saturating_sub elapsed cpu,
           d_minflt = saturating_sub (s_minflt self) (s_minflt before),
           d_majflt = saturating_sub (s_majflt self) (s_majflt before),
           d_nvcsw = saturating_sub (s_nvcsw self) (s_nvcsw before),
           d_nivcsw = saturating_sub (s_nivcsw self) (s_nivcsw before) \<rparr>)"

definition usage_zero :: usage_delta where
  "usage_zero =
     \<lparr> d_user_cpu_us = 0, d_sys_cpu_us = 0, d_blocked_us = 0, d_minflt = 0, d_majflt = 0,
       d_nvcsw = 0, d_nivcsw = 0 \<rparr>"

definition into_measurement ::
  "usage_delta \<Rightarrow> nat \<Rightarrow> nat \<Rightarrow> nat \<Rightarrow> string \<Rightarrow> nat \<Rightarrow> nat \<Rightarrow> measurement" where
  "into_measurement d tid iter inst stg start_u end_u =
     \<lparr> thread_id = tid, iteration = iter, instance_id = inst, stage = stg,
       start_us = start_u, end_us = end_u, elapsed_us = saturating_sub end_u start_u,
       user_cpu_us = d_user_cpu_us d, sys_cpu_us = d_sys_cpu_us d,
       blocked_us = d_blocked_us d, minflt = d_minflt d, majflt = d_majflt d,
       nvcsw = d_nvcsw d, nivcsw = d_nivcsw d \<rparr>"

section \<open>Measured execution\<close>

text \<open>
  \<open>duration_since\<close> and \<open>elapsed\<close> of \<open>Instant\<close> saturate at zero; \<open>as_micros() as u64\<close>
  keeps the low 64 bits of the microseconds.
\<close>

definition micros_between :: "nat \<Rightarrow> nat \<Rightarrow> nat" where
  "micros_between earlier later = as_u64 (int ((later - earlier) div 1000))"

definition read_clock :: "'w bench_env \<Rightarrow> ('w, nat) io" where
  "read_clock E w = (case env_now E w of (t, w') \<Rightarrow> (Ok t, w'))"

definition measure_current_thread ::
  "'w bench_env \<Rightarrow> nat \<Rightarrow> ('w, unit) io \<Rightarrow> ('w, nat \<times> nat \<times> usage_delta) io" where
  "measure_current_thread E run_origin f =
     io_bind (capture E RUSAGE_THREAD) (\<lambda>before.
     io_bind (read_clock E) (\<lambda>start.
     let start_u = micros_between run_origin start in
     io_bind f (\<lambda>_.
     io_bind (read_clock E) (\<lambda>stop.
     let elapsed = micros_between start stop;
         end_u = saturating_add start_u elapsed in
     io_bind (capture E RUSAGE_THREAD) (\<lambda>after.
     io_return (start_u, end_u, delta_since after before elapsed))))))"

definition measure_operation ::
  "'w bench_env \<Rightarrow> nat \<Rightarrow> bool \<Rightarrow> ('w, unit) io \<Rightarrow> ('w, nat \<times> nat \<times> usage_delta) io" where
  "measure_operation E run_origin per_op f =
     (if per_op then measure_current_thread E run_origin f
      else
        io_bind (read_clock E) (\<lambda>start.
        let start_u = micros_between run_origin start in
        io_bind f (\<lambda>_.
        io_bind (read_clock E) (\<lambda>stop.
        io_return (start_u, saturating_add start_u (micros_between start stop), usage_zero)))))"

definition capture_current_process_usage :: "'w bench_env \<Rightarrow> ('w, usage_snapshot) io" where
  "capture_current_process_usage E = capture E RUSAGE_SELF"

definition capture_run_total_before :: "'w bench_env \<Rightarrow> ('w, usage_snapshot) io" where
  "capture_run_total_before E = capture_current_process_usage E"

definition build_run_total_usage ::
  "'w bench_env \<Rightarrow> usage_snapshot \<Rightarrow> nat \<Rightarrow> ('w, usage_delta) io" where
  "build_run_total_usage E before wall =
     io_bind (capture_current_process_usage E) (\<lambda>after.
     io_return (delta_since after before wall))"

section \<open>The registry of operations\<close>

text \<open>Function pointers of the registry, by the name of the function they point to.\<close>

datatype external_fn = Noop_run | Hash_cpu_run | Snapshot_load_run | Netns_run_full_shell

datatype prepare_fn =
    Create_firecracker_prepare
  | Create_firecracker_prepare_full_netns
  | Guest_memory_prepare
  | Prepare_kvm
  | Prepare_vm_new
  | Prepare_create_vcpus
  | Prepare_restore_memory_regions
  | Prepare_restore_vcpu_states
  | Prepare_restore_state
  | Prepare_device_restore
  | Prepare_device_restore_full_netns
  | Prepare_device_restore_balloon
  | Prepare_device_restore_block
  | Prepare_device_restore_net
  | Prepare_device_restore_net_full_netns
  | Prepare_device_restore_vsock
  | Prepare_device_restore_entropy
  | Prepare_device_restore_pmem
  | Prepare_device_restore_virtio_mem
  | Prepare_kick_virtio
  | Prepare_kick_virtio_full_netns
  | Prepare_resume_vcpus
  | Prepare_resume_vcpus_full_netns
  | Prepare_resume_vm
  | Prepare_resume_vm_full_netns

datatype internal_fn = Netns_run_step_shell

datatype op =
    External external_fn
  | ExternalWithPrepare prepare_fn
  | Internal internal_fn

text \<open>The arms of the \<open>match\<close>, in its order; the default arm is \<open>None\<close>.\<close>

definition op_arms :: "(string \<times> op) list" where
  "op_arms =
    [(''noop'', External Noop_run),
     (''hash_cpu'', External Hash_cpu_run),
     (''snapshot_load'', External Snapshot_load_run),
     (''create_firecracker'', ExternalWithPrepare Create_firecracker_prepare),
     (''create_firecracker_full_netns'',
        ExternalWithPrepare Create_firecracker_prepare_full_netns),
     (''guest_memory'', ExternalWithPrepare Guest_memory_prepare),
     (''kvm_create_vm'', ExternalWithPrepare Prepare_kvm),
     (''vm_new'', ExternalWithPrepare Prepare_vm_new),
     (''create_vcpus'', ExternalWithPrepare Prepare_create_vcpus),
     (''restore_memory_regions'', ExternalWithPrepare Prepare_restore_memory_regions),
     (''restore_vcpu_states'', ExternalWithPrepare Prepare_restore_vcpu_states),
     (''restore_state'', ExternalWithPrepare Prepare_restore_state),
     (''device_restore'', ExternalWithPrepare Prepare_device_restore),
     (''device_restore_full_netns'', ExternalWithPrepare Prepare_device_restore_full_netns),
     (''device_restore_balloon'', ExternalWithPrepare Prepare_device_restore_balloon),
     (''device_restore_block'', ExternalWithPrepare Prepare_device_restore_block),
     (''device_restore_net'', ExternalWithPrepare Prepare_device_restore_net),
     (''device_restore_net_full_netns'',
        ExternalWithPrepare Prepare_device_restore_net_full_netns),
     (''device_restore_vsock'', ExternalWithPrepare Prepare_device_restore_vsock),
     (''device_restore_entropy'', ExternalWithPrepare Prepare_device_restore_entropy),
     (''device_restore_pmem'', ExternalWithPrepare Prepare_device_restore_pmem),
     (''device_restore_virtio_mem'', ExternalWithPrepare Prepare_device_restore_virtio_mem),
     (''kick_virtio'', ExternalWithPrepare Prepare_kick_virtio),
     (''kick_virtio_full_netns'', ExternalWithPrepare Prepare_kick_virtio_full_netns),
     (''resume_vcpus'', ExternalWithPrepare Prepare_resume_vcpus),
     (''resume_vcpus_full_netns'', ExternalWithPrepare Prepare_resume_vcpus_full_netns),
     (''resume_vm'', ExternalWithPrepare Prepare_resume_vm),
     (''resume_vm_full_netns'', ExternalWithPrepare Prepare_resume_vm_full_netns),
     (''netns_full_shell'', External Netns_run_full_shell),
     (''netns_step_shell'', Internal Netns_run_step_shell)]"

definition get_op :: "string \<Rightarrow> op option" where
  "get_op name = map_of op_arms name"

definition list_ops :: "string list" where
  "list_ops =
    [''noop'', ''hash_cpu'', ''snapshot_load'', ''create_firecracker'',
     ''create_firecracker_full_netns'', ''guest_memory'', ''kvm_create_vm'', ''vm_new'',
     ''create_vcpus'', ''restore_memory_regions'', ''restore_vcpu_states'', ''restore_state'',
     ''device_restore'', ''device_restore_full_netns'', ''device_restore_balloon'',
     ''device_restore_block'', ''device_restore_net'', ''device_restore_net_full_netns'',
     ''device_restore_vsock'', ''device_restore_entropy'', ''device_restore_pmem'',
     ''device_restore_virtio_mem'', ''kick_virtio'', ''kick_virtio_full_netns'',
     ''resume_vcpus'', ''resume_vcpus_full_netns'', ''resume_vm'', ''resume_vm_full_netns'',
     ''netns_full_shell'', ''netns_step_shell'']"

section \<open>Distribution of the operations over the workers\<close>

definition worker_count :: "run_config \<Rightarrow> nat" where
  "worker_count config = min (concurrency config) (total config)"

text \<open>Division by \<open>workers\<close> panics at zero in Rust; \<open>None\<close> is that panic.\<close>

definition iteration_count :: "nat \<Rightarrow> nat \<Rightarrow> nat \<Rightarrow> nat option" where
  "iteration_count ttl workers tid =
     (if workers = 0 then None
      else let base = ttl div workers; remainder = ttl mod workers
           in Some (base + (if tid < remainder then 1 else 0)))"

definition iteration_offset :: "nat \<Rightarrow> nat \<Rightarrow> nat \<Rightarrow> nat option" where
  "iteration_offset ttl workers tid =
     (if workers = 0 then None
      else let base = ttl div workers; remainder = ttl mod workers
           in Some (saturating_add (saturating_mul tid base) (min tid remainder)))"

section \<open>Lemmas\<close>

lemma iteration_count_Some:
  "0 < workers \<Longrightarrow> iteration_count ttl workers tid =
     Some (ttl div workers + (if tid < ttl mod workers then 1 else 0))"
  by (simp add: iteration_count_def Let_def)

lemma offset_le_total:
  fixes tid workers ttl :: nat
  assumes "tid \<le> workers"
  shows "tid * (ttl div workers) + min tid (ttl mod workers) \<le> ttl"
proof -
  have "tid * (ttl div workers) + min tid (ttl mod workers)
        \<le> workers * (ttl div workers) + ttl mod workers"
    using assms by (intro add_mono mult_right_mono) auto
  then show ?thesis by simp
qed

lemma iteration_offset_exact:
  assumes "0 < workers" "tid \<le> workers" "ttl \<le> u64_max"
  shows "iteration_offset ttl workers tid =
           Some (tid * (ttl div workers) + min tid (ttl mod workers))"
proof -
  have le: "tid * (ttl div workers) + min tid (ttl mod workers) \<le> u64_max"
    using offset_le_total [OF assms(2), of ttl] assms(3) by linarith
  then have "saturating_mul tid (ttl div workers) = tid * (ttl div workers)"
    by (intro saturating_mul_exact) linarith
  with le assms(1) show ?thesis
    by (simp add: iteration_offset_def Let_def saturating_add_exact)
qed

text \<open>
  the workers' index ranges tile the run. For a positive number of workers and a total
  that fits a \<open>usize\<close>, listing for each worker in order the instance ids
  \<open>offset + iter\<close> for \<open>iter < count\<close> gives exactly \<open>0, 1, ..., total - 1\<close>: no instance is
  skipped and none is measured twice.
\<close>

theorem instance_ids_tile:
  assumes "0 < workers" "ttl \<le> u64_max"
  shows "concat (map (\<lambda>tid. map (\<lambda>iter. the (iteration_offset ttl workers tid) + iter)
             [0 ..< the (iteration_count ttl workers tid)]) [0..<workers]) = [0..<ttl]"
proof -
  let ?off = "\<lambda>tid. the (iteration_offset ttl workers tid)"
  let ?cnt = "\<lambda>tid. the (iteration_count ttl workers tid)"
  have "concat (map (\<lambda>tid. [?off tid ..< ?off tid + ?cnt tid]) [0..<workers]) = [0 ..< ?off workers]"
    using assms
    by (intro concat_upt_segments)
       (auto simp: iteration_offset_exact iteration_count_Some min_def)
  moreover have "?off workers = ttl"
    using assms by (simp add: iteration_offset_exact min_absorb2 less_imp_le)
  ultimately show ?thesis by (simp add: map_plus_upt)
qed

theorem instance_ids_tile_witness:
  "concat (map (\<lambda>tid. map (\<lambda>iter. the (iteration_offset 10 4 tid) + iter)
             [0 ..< the (iteration_count 10 4 tid)]) [0..<4]) = [0..<10]"
  by (rule instance_ids_tile) (simp_all add: u64_max_def)

lemma iteration_count_balanced_sum:
  assumes w: "0 < workers"
  shows "(\<Sum>tid<workers. the (iteration_count ttl workers tid)) = ttl"
proof -
  have "{..<workers} \<inter> {tid. tid < ttl mod workers} = {..<ttl mod workers}"
    using w by (auto intro: less_trans [OF _ mod_less_divisor])
  then have "(\<Sum>tid<workers. (if tid < ttl mod workers then 1 else (0::nat))) = ttl mod workers"
    by (simp add: sum.If_cases)
  then show ?thesis by (simp add: iteration_count_Some [OF w] sum.distrib)
qed

text \<open>
  the load is balanced and the per-worker counts add up: two workers' shares differ by at
  most one, and the shares of all workers sum to the total.
\<close>

theorem iteration_count_balanced:
  assumes "iteration_count ttl workers i = Some a" "iteration_count ttl workers j = Some b"
  shows "a \<le> b + 1 \<and> (\<Sum>tid<workers. the (iteration_count ttl workers tid)) = ttl"
proof -
  from assms have w: "0 < workers" by (auto simp: iteration_count_def split: if_splits)
  have "a \<le> b + 1" using assms by (auto simp: iteration_count_Some [OF w] split: if_splits)
  then show ?thesis by (simp add: iteration_count_balanced_sum [OF w])
qed

theorem iteration_count_balanced_witness:
  "(3::nat) \<le> 2 + 1 \<and> (\<Sum>tid<4. the (iteration_count 10 4 tid)) = 10"
  by (rule iteration_count_balanced [of 10 4 0 3 3 2]) (simp_all add: iteration_count_def)

text \<open>
  the registry and the list shown by \<open>usage()\<close> agree: a name is accepted by \<open>get_op\<close>
  exactly when \<open>list_ops\<close> prints it, in the same order and without repetition.
\<close>

theorem list_ops_complete:
  "distinct list_ops \<and> list_ops = map fst op_arms \<and>
   (get_op name \<noteq> None \<longleftrightarrow> name \<in> set list_ops)"
proof -
  have eq: "list_ops = map fst op_arms" by (simp add: list_ops_def op_arms_def)
  moreover have "distinct list_ops" by code_simp
  moreover have "get_op name \<noteq> None \<longleftrightarrow> name \<in> set (map fst op_arms)"
    by (simp add: get_op_def map_of_eq_None_iff)
  ultimately show ?thesis by simp
qed

lemma delta_since_blocked: "d_blocked_us (delta_since a b e) \<le> e"
  by (simp add: delta_since_def Let_def rust_arith)

text \<open>
  accounting of one measured interval. The blocked time never exceeds the elapsed time;
  and when the CPU counters did not run backwards and the CPU time fits into the interval,
  user, system and blocked time add up to the elapsed time exactly.
\<close>

theorem delta_since_accounts:
  assumes "s_user_cpu_us before \<le> s_user_cpu_us after" "s_sys_cpu_us before \<le> s_sys_cpu_us after"
    and "s_user_cpu_us after - s_user_cpu_us before + (s_sys_cpu_us after - s_sys_cpu_us before)
           \<le> elapsed"
    and "elapsed \<le> u64_max"
  shows "d_user_cpu_us (delta_since after before elapsed) + d_sys_cpu_us (delta_since after before elapsed)
           + d_blocked_us (delta_since after before elapsed) = elapsed"
  using assms by (simp add: delta_since_def Let_def rust_arith)

definition snap_example :: "nat \<Rightarrow> nat \<Rightarrow> usage_snapshot" where
  "snap_example u s =
     \<lparr>s_user_cpu_us = u, s_sys_cpu_us = s, s_minflt = 0, s_majflt = 0, s_nvcsw = 0, s_nivcsw = 0\<rparr>"

theorem delta_since_accounts_witness:
  "d_user_cpu_us (delta_since (snap_example 7 5) (snap_example 4 3) 9)
   + d_sys_cpu_us (delta_since (snap_example 7 5) (snap_example 4 3) 9)
   + d_blocked_us (delta_since (snap_example 7 5) (snap_example 4 3) 9) = 9"
  by (rule delta_since_accounts) (simp_all add: snap_example_def u64_max_def)

lemma measure_operation_ok_iff:
  "measure_operation E origin per_op f w = (Ok (s, e, d), w') \<Longrightarrow>
     \<exists>w1 w2. f w1 = (Ok (), w2) \<and> s \<le> u64_max \<and> s \<le> e \<and> e \<le> u64_max"
proof -
  have mono: "micros_between a b \<le> saturating_add (micros_between a b) k" for a b k
    by (simp add: micros_between_def rust_arith)
  have bound: "micros_between a b \<le> u64_max" for a b
    by (simp add: micros_between_def)
  assume "measure_operation E origin per_op f w = (Ok (s, e, d), w')"
  then show ?thesis
    by (auto simp: measure_operation_def measure_current_thread_def Let_def io_bind_Inr_iff
        mono bound split: if_splits)
qed

text \<open>
  a measurement reported for an operation is one of an operation that ran and succeeded,
  and its interval is well formed: the recorded end is not before the start, and the recorded
  \<open>elapsed_us\<close> is their exact difference. A failing operation is never reported.
\<close>

theorem measure_operation_sound:
  assumes "measure_operation E origin per_op f w = (Ok (s, e, d), w')"
  shows "(\<exists>w1 w2. f w1 = (Ok (), w2)) \<and>
         start_us (into_measurement d tid iter inst stg s e)
           + elapsed_us (into_measurement d tid iter inst stg s e)
         = end_us (into_measurement d tid iter inst stg s e)"
  using measure_operation_ok_iff [OF assms]
  by (auto simp: into_measurement_def rust_arith)

definition clock_env :: "nat bench_env" where
  "clock_env = \<lparr>env_now = (\<lambda>w. (w, w + 5000)),
     env_getrusage = (\<lambda>w who. (Err ''EINVAL'', w))\<rparr>"

theorem measure_operation_sound_witness:
  "(\<exists>w1 w2. io_return () (w1::nat) = (Ok (), w2)) \<and>
     start_us (into_measurement usage_zero 0 0 0 ''run'' 2 7)
       + elapsed_us (into_measurement usage_zero 0 0 0 ''run'' 2 7)
     = end_us (into_measurement usage_zero 0 0 0 ''run'' 2 7)"
  by (rule measure_operation_sound [of clock_env 1000 False "io_return ()" 3000 2 7 usage_zero 13000])
     (simp add: measure_operation_def clock_env_def read_clock_def io_bind_def Let_def
        micros_between_def as_u64_def rust_arith u64_max_def)

end
