(* ===== verification/Bench_Runner.thy ===== *)
theory Bench_Runner
  imports Bench_Ops
begin

text \<open>
  The concurrent driver \<open>run_external_with_prepare\<close> of src/restore-motivation/src/ops/mod.rs
  as a state machine. The workers and the main thread share two gates, each a mutex with a
  condition variable: \<open>StartState\<close> and \<open>FinishState\<close>. One step of the machine is one critical
  section (from taking the lock to dropping it or blocking in \<open>Condvar::wait\<close>) together with
  the thread-local code before it. A thread blocked in \<open>wait\<close> is asleep; \<open>notify_all\<close> wakes
  the sleepers of its condition variable, and a sleeper may also wake spuriously, as the
  documentation of \<open>Condvar\<close> allows. A woken thread takes the lock and checks its condition
  again. What the host decides (the outcome of \<open>prepare_fn\<close> and of a measured operation, the
  clock, \<open>getrusage\<close>, a panic of the closure) is an argument of the step.
\<close>

section \<open>State\<close>

text \<open>
  Program counters of a worker. \<open>GateWait\<close> and \<open>FinishWait\<close> are the two wait loops, the flag
  says whether the thread sleeps. \<open>PrepFailed\<close>, \<open>Aborted\<close> and \<open>RunFailed\<close> have returned an
  error (the first from \<open>prepare_fn\<close>, the second because another worker's preparation failed,
  the third from a measured operation), \<open>Completed\<close> has returned its results, \<open>PrepPanicked\<close>
  and \<open>RunPanicked\<close> have unwound.
\<close>

datatype wpc =
    Preparing
  | PrepFailed string
  | PrepPanicked
  | GateWait bool
  | Aborted string
  | RunIter nat "measurement list"
  | RunFailed string
  | RunPanicked
  | FinishWait bool "measurement list"
  | Completed "measurement list"

text \<open>
  Program counters of the main thread: waiting for the workers to be ready, waiting for them
  to finish (with \<open>run_start\<close> and \<open>total_before\<close>), joining the handles in order (with the
  results so far, and \<open>wall_us\<close> and the usage when the run was started), returned.
\<close>

datatype mpc =
    MReady bool
  | MFinish bool nat usage_snapshot
  | MJoin nat "measurement list" "(nat \<times> usage_delta) option"
  | MReturned "run_output res"

record rstate =
  ready_workers :: nat
  start :: bool
  failure :: "string option"
  run_origin :: "nat option"
  finished_workers :: nat
  release_workers :: bool
  wpcs :: "nat \<Rightarrow> wpc"
  main_pc :: mpc

definition init_state :: rstate where
  "init_state =
     \<lparr> ready_workers = 0, start = False, failure = None, run_origin = None,
       finished_workers = 0, release_workers = False,
       wpcs = (\<lambda>_. Preparing), main_pc = MReady False \<rparr>"

section \<open>Condition variables\<close>

fun wake_gate :: "wpc \<Rightarrow> wpc" where
  "wake_gate (GateWait _) = GateWait False"
| "wake_gate pc = pc"

fun wake_gate_main :: "mpc \<Rightarrow> mpc" where
  "wake_gate_main (MReady _) = MReady False"
| "wake_gate_main pc = pc"

fun wake_finish :: "wpc \<Rightarrow> wpc" where
  "wake_finish (FinishWait _ rs) = FinishWait False rs"
| "wake_finish pc = pc"

fun wake_finish_main :: "mpc \<Rightarrow> mpc" where
  "wake_finish_main (MFinish _ t u) = MFinish False t u"
| "wake_finish_main pc = pc"

definition notify_gate :: "rstate \<Rightarrow> rstate" where
  "notify_gate s = s\<lparr>wpcs := wake_gate \<circ> wpcs s, main_pc := wake_gate_main (main_pc s)\<rparr>"

definition notify_finish :: "rstate \<Rightarrow> rstate" where
  "notify_finish s = s\<lparr>wpcs := wake_finish \<circ> wpcs s, main_pc := wake_finish_main (main_pc s)\<rparr>"

section \<open>Steps of a worker\<close>

definition set_wpc :: "nat \<Rightarrow> wpc \<Rightarrow> rstate \<Rightarrow> rstate" where
  "set_wpc t pc s = s\<lparr>wpcs := (wpcs s)(t := pc)\<rparr>"

text \<open>The code after the wait loop: the failure check and the read of \<open>run_origin\<close>.\<close>

definition leave_gate :: "rstate \<Rightarrow> wpc" where
  "leave_gate s =
     (case failure s of
        Some err \<Rightarrow> Aborted err
      | None \<Rightarrow>
          (case run_origin s of
             None \<Rightarrow> RunFailed ''run origin missing''
           | Some _ \<Rightarrow> RunIter 0 []))"

definition gate_check :: "rstate \<Rightarrow> wpc" where
  "gate_check s =
     (if \<not> start s \<and> failure s = None then GateWait True else leave_gate s)"

definition prepare_done :: "nat \<Rightarrow> unit res \<Rightarrow> rstate \<Rightarrow> rstate option" where
  "prepare_done t r s =
     (if wpcs s t \<noteq> Preparing then None
      else case r of
        Inl err \<Rightarrow>
          Some (set_wpc t (PrepFailed err)
            (notify_gate (s\<lparr>failure := (case failure s of None \<Rightarrow> Some err | Some e \<Rightarrow> Some e)\<rparr>)))
      | Inr _ \<Rightarrow>
          (let s1 = notify_gate (s\<lparr>ready_workers := Suc (ready_workers s)\<rparr>)
           in Some (set_wpc t (gate_check s1) s1)))"

definition gate_recheck :: "nat \<Rightarrow> rstate \<Rightarrow> rstate option" where
  "gate_recheck t s =
     (if wpcs s t = GateWait False then Some (set_wpc t (gate_check s) s) else None)"

definition worker_count_of :: "run_config \<Rightarrow> nat \<Rightarrow> nat" where
  "worker_count_of cfg t = the (iteration_count (total cfg) (worker_count cfg) t)"

definition worker_offset_of :: "run_config \<Rightarrow> nat \<Rightarrow> nat" where
  "worker_offset_of cfg t = the (iteration_offset (total cfg) (worker_count cfg) t)"

text \<open>One iteration of the measuring loop; an error leaves the closure at once.\<close>

definition measure_step ::
  "run_config \<Rightarrow> nat \<Rightarrow> (nat \<times> nat \<times> usage_delta) res \<Rightarrow> rstate \<Rightarrow> rstate option" where
  "measure_step cfg t r s =
     (case wpcs s t of
        RunIter iter rs \<Rightarrow>
          (if iter < worker_count_of cfg t then
             (case r of
                Inl err \<Rightarrow> Some (set_wpc t (RunFailed err) s)
              | Inr (start_u, end_u, usage) \<Rightarrow>
                  Some (set_wpc t
                    (RunIter (Suc iter)
                      (rs @ [into_measurement usage t iter (worker_offset_of cfg t + iter)
                               ''run'' start_u end_u])) s))
           else None)
      | _ \<Rightarrow> None)"

definition finish_check :: "rstate \<Rightarrow> measurement list \<Rightarrow> wpc" where
  "finish_check s rs = (if \<not> release_workers s then FinishWait True rs else Completed rs)"

definition finish_arrive :: "run_config \<Rightarrow> nat \<Rightarrow> rstate \<Rightarrow> rstate option" where
  "finish_arrive cfg t s =
     (case wpcs s t of
        RunIter iter rs \<Rightarrow>
          (if iter < worker_count_of cfg t then None
           else let s1 = notify_finish (s\<lparr>finished_workers := Suc (finished_workers s)\<rparr>)
                in Some (set_wpc t (finish_check s1 rs) s1))
      | _ \<Rightarrow> None)"

definition finish_recheck :: "nat \<Rightarrow> rstate \<Rightarrow> rstate option" where
  "finish_recheck t s =
     (case wpcs s t of
        FinishWait False rs \<Rightarrow> Some (set_wpc t (finish_check s rs) s)
      | _ \<Rightarrow> None)"

text \<open>A panic of \<open>prepare_fn\<close> or of the runner unwinds the thread without touching a gate.\<close>

definition worker_panic :: "nat \<Rightarrow> rstate \<Rightarrow> rstate option" where
  "worker_panic t s =
     (case wpcs s t of
        Preparing \<Rightarrow> Some (set_wpc t PrepPanicked s)
      | RunIter iter rs \<Rightarrow> Some (set_wpc t RunPanicked s)
      | _ \<Rightarrow> None)"

section \<open>Steps of the main thread\<close>

text \<open>
  The block that waits for the workers and starts them: \<open>before\<close> is the outcome of
  \<open>capture_current_process_usage\<close>, \<open>now\<close> the value of \<open>Instant::now\<close>.
\<close>

definition main_gate :: "run_config \<Rightarrow> usage_snapshot res \<Rightarrow> nat \<Rightarrow> rstate \<Rightarrow> rstate option" where
  "main_gate cfg before now s =
     (case main_pc s of
        MReady False \<Rightarrow>
          (if ready_workers s < worker_count cfg \<and> failure s = None then
             Some (s\<lparr>main_pc := MReady True\<rparr>)
           else
             (case before of
                Inl err \<Rightarrow> Some (s\<lparr>main_pc := MReturned (Err err)\<rparr>)
              | Inr total_before \<Rightarrow>
                  (if failure s = None then
                     (if run_origin s \<noteq> None then
                        Some (s\<lparr>main_pc := MReturned (Err ''run origin already initialized'')\<rparr>)
                      else
                        Some (notify_gate
                          (s\<lparr>run_origin := Some now, start := True,
                             main_pc := MFinish False now total_before\<rparr>)))
                   else Some (notify_gate (s\<lparr>main_pc := MJoin 0 [] None\<rparr>)))))
      | _ \<Rightarrow> None)"

definition main_finish :: "run_config \<Rightarrow> nat \<Rightarrow> usage_snapshot res \<Rightarrow> rstate \<Rightarrow> rstate option" where
  "main_finish cfg now after s =
     (case main_pc s of
        MFinish False run_start total_before \<Rightarrow>
          (if finished_workers s < worker_count cfg then
             Some (s\<lparr>main_pc := MFinish True run_start total_before\<rparr>)
           else
             let wall = micros_between run_start now;
                 s1 = notify_finish (s\<lparr>release_workers := True\<rparr>)
             in (case after of
                   Inl err \<Rightarrow> Some (s1\<lparr>main_pc := MReturned (Err err)\<rparr>)
                 | Inr total_after \<Rightarrow>
                     Some (s1\<lparr>main_pc :=
                       MJoin 0 [] (Some (wall, delta_since total_after total_before wall))\<rparr>)))
      | _ \<Rightarrow> None)"

text \<open>What \<open>handle.join()\<close> gives: nothing while the thread runs.\<close>

fun thread_result :: "wpc \<Rightarrow> (measurement list res) option" where
  "thread_result (PrepFailed e) = Some (Err e)"
| "thread_result (Aborted e) = Some (Err e)"
| "thread_result (RunFailed e) = Some (Err e)"
| "thread_result (Completed rs) = Some (Ok rs)"
| "thread_result PrepPanicked = Some (Err ''worker thread panicked'')"
| "thread_result RunPanicked = Some (Err ''worker thread panicked'')"
| "thread_result _ = None"

definition main_join :: "run_config \<Rightarrow> rstate \<Rightarrow> rstate option" where
  "main_join cfg s =
     (case main_pc s of
        MJoin i acc started \<Rightarrow>
          (if i < worker_count cfg then
             (case thread_result (wpcs s i) of
                None \<Rightarrow> None
              | Some (Inl err) \<Rightarrow> Some (s\<lparr>main_pc := MReturned (Err err)\<rparr>)
              | Some (Inr rs) \<Rightarrow> Some (s\<lparr>main_pc := MJoin (Suc i) (acc @ rs) started\<rparr>))
           else
             (case started of
                Some (wall, usage) \<Rightarrow>
                  Some (s\<lparr>main_pc := MReturned
                    (Ok \<lparr>measurements = acc, wall_us = wall, total_usage = usage\<rparr>)\<rparr>)
              | None \<Rightarrow>
                  Some (s\<lparr>main_pc := MReturned
                    (Err ''benchmark preparation failed before start'')\<rparr>)))
      | _ \<Rightarrow> None)"

section \<open>The machine\<close>

datatype action =
    Prepare nat "unit res"
  | GateRecheck nat
  | Measure nat "(nat \<times> nat \<times> usage_delta) res"
  | FinishArrive nat
  | FinishRecheck nat
  | Panic nat
  | MainGate "usage_snapshot res" nat
  | MainFinish nat "usage_snapshot res"
  | MainJoin
  | SpuriousGate nat
  | SpuriousFinish nat
  | SpuriousMain

definition spurious_gate :: "nat \<Rightarrow> rstate \<Rightarrow> rstate option" where
  "spurious_gate t s =
     (if wpcs s t = GateWait True then Some (set_wpc t (GateWait False) s) else None)"

definition spurious_finish :: "nat \<Rightarrow> rstate \<Rightarrow> rstate option" where
  "spurious_finish t s =
     (case wpcs s t of
        FinishWait True rs \<Rightarrow> Some (set_wpc t (FinishWait False rs) s)
      | _ \<Rightarrow> None)"

definition spurious_main :: "rstate \<Rightarrow> rstate option" where
  "spurious_main s =
     (case main_pc s of
        MReady True \<Rightarrow> Some (s\<lparr>main_pc := MReady False\<rparr>)
      | MFinish True n u \<Rightarrow> Some (s\<lparr>main_pc := MFinish False n u\<rparr>)
      | _ \<Rightarrow> None)"

fun is_spurious :: "action \<Rightarrow> bool" where
  "is_spurious (SpuriousGate _) = True"
| "is_spurious (SpuriousFinish _) = True"
| "is_spurious SpuriousMain = True"
| "is_spurious _ = False"

fun exec_step :: "run_config \<Rightarrow> action \<Rightarrow> rstate \<Rightarrow> rstate option" where
  "exec_step cfg (Prepare t r) s = (if t < worker_count cfg then prepare_done t r s else None)"
| "exec_step cfg (GateRecheck t) s = (if t < worker_count cfg then gate_recheck t s else None)"
| "exec_step cfg (Measure t r) s = (if t < worker_count cfg then measure_step cfg t r s else None)"
| "exec_step cfg (FinishArrive t) s = (if t < worker_count cfg then finish_arrive cfg t s else None)"
| "exec_step cfg (FinishRecheck t) s = (if t < worker_count cfg then finish_recheck t s else None)"
| "exec_step cfg (Panic t) s = (if t < worker_count cfg then worker_panic t s else None)"
| "exec_step cfg (MainGate before now) s = main_gate cfg before now s"
| "exec_step cfg (MainFinish now after) s = main_finish cfg now after s"
| "exec_step cfg MainJoin s = main_join cfg s"
| "exec_step cfg (SpuriousGate t) s = (if t < worker_count cfg then spurious_gate t s else None)"
| "exec_step cfg (SpuriousFinish t) s = (if t < worker_count cfg then spurious_finish t s else None)"
| "exec_step cfg SpuriousMain s = spurious_main s"

definition reachable :: "run_config \<Rightarrow> rstate \<Rightarrow> bool" where
  "reachable cfg s = reaches (exec_step cfg) init_state s"

end
