(* ===== verification/Bench_Runner_Props.thy ===== *)
theory Bench_Runner_Props
  imports Bench_Runner
begin

text \<open>
  The invariant of the concurrent driver and its consequences: the start and finish barriers,
  no lost wake-up, the results it reports, freedom from deadlock while no measured operation
  fails, and the hang when one does.
\<close>

section \<open>The invariant\<close>

fun passed_gate :: "wpc \<Rightarrow> bool" where
  "passed_gate Preparing = False"
| "passed_gate (PrepFailed _) = False"
| "passed_gate PrepPanicked = False"
| "passed_gate _ = True"

fun is_finished :: "wpc \<Rightarrow> bool" where
  "is_finished (FinishWait _ _) = True"
| "is_finished (Completed _) = True"
| "is_finished _ = False"

text \<open>What a worker's program counter implies about the shared state.\<close>

fun wpc_inv :: "run_config \<Rightarrow> nat \<Rightarrow> rstate \<Rightarrow> wpc \<Rightarrow> bool" where
  "wpc_inv cfg t s Preparing = True"
| "wpc_inv cfg t s (PrepFailed e) = (failure s \<noteq> None)"
| "wpc_inv cfg t s PrepPanicked = True"
| "wpc_inv cfg t s (GateWait asleep) = (asleep \<longrightarrow> \<not> start s \<and> failure s = None)"
| "wpc_inv cfg t s (Aborted e) = (failure s = Some e)"
| "wpc_inv cfg t s (RunIter i rs) =
     (start s \<and> i \<le> worker_count_of cfg t \<and>
      map instance_id rs = [worker_offset_of cfg t ..< worker_offset_of cfg t + i])"
| "wpc_inv cfg t s (RunFailed e) = start s"
| "wpc_inv cfg t s RunPanicked = start s"
| "wpc_inv cfg t s (FinishWait asleep rs) =
     (start s \<and> (asleep \<longrightarrow> \<not> release_workers s) \<and>
      map instance_id rs =
        [worker_offset_of cfg t ..< worker_offset_of cfg t + worker_count_of cfg t])"
| "wpc_inv cfg t s (Completed rs) =
     (start s \<and> release_workers s \<and>
      map instance_id rs =
        [worker_offset_of cfg t ..< worker_offset_of cfg t + worker_count_of cfg t])"

definition joined_ids :: "run_config \<Rightarrow> nat \<Rightarrow> nat list" where
  "joined_ids cfg i =
     concat (map (\<lambda>t. [worker_offset_of cfg t ..< worker_offset_of cfg t + worker_count_of cfg t])
       [0..<i])"

fun mpc_inv :: "run_config \<Rightarrow> rstate \<Rightarrow> mpc \<Rightarrow> bool" where
  "mpc_inv cfg s (MReady asleep) =
     (\<not> start s \<and> run_origin s = None \<and>
      (asleep \<longrightarrow> ready_workers s < worker_count cfg \<and> failure s = None))"
| "mpc_inv cfg s (MFinish asleep n u) =
     (start s \<and> \<not> release_workers s \<and> (asleep \<longrightarrow> finished_workers s < worker_count cfg))"
| "mpc_inv cfg s (MJoin i acc started) =
     (i \<le> worker_count cfg \<and>
      (started \<noteq> None \<longrightarrow> start s \<and> release_workers s \<and> map instance_id acc = joined_ids cfg i) \<and>
      (started = None \<longrightarrow> \<not> start s \<and> failure s \<noteq> None \<and> i = 0))"
| "mpc_inv cfg s (MReturned r) =
     ((start s \<longrightarrow> release_workers s) \<and>
      (\<forall>out. r = Ok out \<longrightarrow>
         start s \<and> map instance_id (measurements out) = joined_ids cfg (worker_count cfg)))"

text \<open>The whole invariant: the counters count, the flags agree with the threads.\<close>

definition run_inv :: "run_config \<Rightarrow> rstate \<Rightarrow> bool" where
  "run_inv cfg s \<longleftrightarrow>
     ready_workers s = count_below (worker_count cfg) passed_gate (wpcs s) \<and>
     finished_workers s = count_below (worker_count cfg) is_finished (wpcs s) \<and>
     (start s \<longrightarrow> run_origin s \<noteq> None \<and> failure s = None \<and> ready_workers s = worker_count cfg) \<and>
     (release_workers s \<longrightarrow> start s \<and> finished_workers s = worker_count cfg) \<and>
     (\<forall>e. failure s = Some e \<longrightarrow> (\<exists>t < worker_count cfg. wpcs s t = PrepFailed e)) \<and>
     (\<forall>t < worker_count cfg. wpc_inv cfg t s (wpcs s t)) \<and>
     mpc_inv cfg s (main_pc s)"

section \<open>Preservation\<close>

lemma notify_simps [simp]:
  "ready_workers (notify_gate s) = ready_workers s" "start (notify_gate s) = start s"
  "failure (notify_gate s) = failure s" "run_origin (notify_gate s) = run_origin s"
  "finished_workers (notify_gate s) = finished_workers s"
  "release_workers (notify_gate s) = release_workers s"
  "wpcs (notify_gate s) t = wake_gate (wpcs s t)"
  "main_pc (notify_gate s) = wake_gate_main (main_pc s)"
  "ready_workers (notify_finish s) = ready_workers s" "start (notify_finish s) = start s"
  "failure (notify_finish s) = failure s" "run_origin (notify_finish s) = run_origin s"
  "finished_workers (notify_finish s) = finished_workers s"
  "release_workers (notify_finish s) = release_workers s"
  "wpcs (notify_finish s) t = wake_finish (wpcs s t)"
  "main_pc (notify_finish s) = wake_finish_main (main_pc s)"
  by (simp_all add: notify_gate_def notify_finish_def)

lemma set_wpc_simps [simp]:
  "ready_workers (set_wpc t pc s) = ready_workers s" "start (set_wpc t pc s) = start s"
  "failure (set_wpc t pc s) = failure s" "run_origin (set_wpc t pc s) = run_origin s"
  "finished_workers (set_wpc t pc s) = finished_workers s"
  "release_workers (set_wpc t pc s) = release_workers s"
  "wpcs (set_wpc t pc s) = (wpcs s)(t := pc)"
  "main_pc (set_wpc t pc s) = main_pc s"
  by (simp_all add: set_wpc_def)

lemma wake_preds [simp]:
  "passed_gate (wake_gate pc) = passed_gate pc" "passed_gate (wake_finish pc) = passed_gate pc"
  "is_finished (wake_gate pc) = is_finished pc" "is_finished (wake_finish pc) = is_finished pc"
  "wake_gate pc = PrepFailed e \<longleftrightarrow> pc = PrepFailed e"
  "wake_finish pc = PrepFailed e \<longleftrightarrow> pc = PrepFailed e"
  by (cases pc; simp)+

lemma count_notify [simp]:
  "count_below n passed_gate (wpcs (notify_gate s)) = count_below n passed_gate (wpcs s)"
  "count_below n is_finished (wpcs (notify_gate s)) = count_below n is_finished (wpcs s)"
  "count_below n passed_gate (wpcs (notify_finish s)) = count_below n passed_gate (wpcs s)"
  "count_below n is_finished (wpcs (notify_finish s)) = count_below n is_finished (wpcs s)"
  by (auto intro!: count_below_cong)

lemma count_notify_upd [simp]:
  "count_below n P ((wpcs (notify_gate s))(t := pc)) = count_below n P ((wake_gate \<circ> wpcs s)(t := pc))"
  by (simp add: notify_gate_def)

text \<open>A program counter's invariant reads three flags of the shared state only.\<close>

lemma wpc_inv_cong:
  "start s = start s' \<Longrightarrow> failure s = failure s' \<Longrightarrow> release_workers s = release_workers s' \<Longrightarrow>
     wpc_inv cfg t s pc = wpc_inv cfg t s' pc"
  by (cases pc) auto

lemma wpc_inv_wake_gate:
  assumes "wpc_inv cfg t s pc" "start s \<longrightarrow> start s'" "release_workers s' = release_workers s"
    "\<And>e. failure s = Some e \<Longrightarrow> failure s' = Some e"
  shows "wpc_inv cfg t s' (wake_gate pc)"
  using assms by (cases pc) auto

lemma wpc_inv_wake_finish:
  assumes "wpc_inv cfg t s pc" "start s' = start s" "failure s' = failure s"
    "release_workers s \<longrightarrow> release_workers s'"
  shows "wpc_inv cfg t s' (wake_finish pc)"
  using assms by (cases pc) auto

lemmas run_inv_simps = run_inv_def gate_check_def leave_gate_def finish_check_def

lemma run_inv_prepare_err:
  assumes "run_inv cfg s" "t < worker_count cfg" "wpcs s t = Preparing"
  shows "run_inv cfg (set_wpc t (PrepFailed err)
            (notify_gate (s\<lparr>failure := (case failure s of None \<Rightarrow> Some err | Some e \<Rightarrow> Some e)\<rparr>)))"
  (is "run_inv cfg ?s'")
proof -
  let ?n = "worker_count cfg"
  note I = assms(1) [unfolded run_inv_def]
  have "ready_workers s = count_below ?n passed_gate (wpcs s)" using I by simp
  moreover have "count_below ?n passed_gate (wpcs s) \<noteq> ?n"
    using assms(2,3) count_below_all [of ?n passed_gate "wpcs s"] by force
  ultimately have ns: "\<not> start s" using I by auto
  have cnt: "count_below ?n P (wpcs ?s') = count_below ?n P (wpcs s)"
    if "P = passed_gate \<or> P = is_finished" for P
    using that assms(3)
    by (intro count_below_cong) auto
  have w: "\<forall>u < ?n. wpc_inv cfg u ?s' (wpcs ?s' u)"
  proof (intro allI impI)
    fix u assume u: "u < ?n"
    show "wpc_inv cfg u ?s' (wpcs ?s' u)"
    proof (cases "u = t")
      case True
      then show ?thesis by (simp split: option.splits)
    next
      case False
      have "wpc_inv cfg u ?s' (wake_gate (wpcs s u))"
        using I u by (intro wpc_inv_wake_gate [where s = s]) auto
      with False show ?thesis by simp
    qed
  qed
  have m: "mpc_inv cfg ?s' (main_pc ?s')"
    using I ns by (cases "main_pc s") (auto split: option.splits)
  have f: "\<forall>e. failure ?s' = Some e \<longrightarrow> (\<exists>u<?n. wpcs ?s' u = PrepFailed e)"
    using I assms(2,3) by (auto split: option.splits) (metis wpc.distinct(1))
  show ?thesis
    unfolding run_inv_def using I ns cnt w m f by (simp split: option.splits)
qed

text \<open>A step that only moves one worker, without a change of the shared state.\<close>

lemma run_inv_set_wpc:
  assumes "run_inv cfg s" "t < worker_count cfg"
    and "passed_gate pc = passed_gate (wpcs s t)" "is_finished pc = is_finished (wpcs s t)"
    and "wpc_inv cfg t s pc" "\<And>e. wpcs s t \<noteq> PrepFailed e"
  shows "run_inv cfg (set_wpc t pc s)"
proof -
  note I = assms(1) [unfolded run_inv_def]
  have w: "\<forall>u < worker_count cfg. wpc_inv cfg u (set_wpc t pc s) (((wpcs s)(t := pc)) u)"
    using I assms(5) by (auto simp: wpc_inv_cong [of "set_wpc t pc s" s])
  have m: "mpc_inv cfg (set_wpc t pc s) (main_pc s)"
    using I by (cases "main_pc s") auto
  show ?thesis
    unfolding run_inv_def
    using I w m assms(3,4,6) by (auto simp: count_below_upd_same) metis+
qed

lemma not_started_while_preparing:
  assumes "run_inv cfg s" "t < worker_count cfg" "wpcs s t = Preparing"
  shows "\<not> start s"
proof -
  have "count_below (worker_count cfg) passed_gate (wpcs s) \<noteq> worker_count cfg"
    using assms(2,3) count_below_all [of "worker_count cfg" passed_gate "wpcs s"] by force
  with assms(1) show ?thesis by (auto simp: run_inv_def)
qed

lemma not_released_while_running:
  assumes "run_inv cfg s" "t < worker_count cfg" "\<not> is_finished (wpcs s t)"
  shows "\<not> release_workers s"
proof -
  have "count_below (worker_count cfg) is_finished (wpcs s) \<noteq> worker_count cfg"
    using assms(2,3) count_below_all [of "worker_count cfg" is_finished "wpcs s"] by force
  with assms(1) show ?thesis by (auto simp: run_inv_def)
qed

lemma run_inv_ready:
  assumes "run_inv cfg s" "t < worker_count cfg" "wpcs s t = Preparing"
    and "passed_gate pc" "\<not> is_finished pc" "wpc_inv cfg t s pc"
  shows "run_inv cfg (set_wpc t pc (notify_gate (s\<lparr>ready_workers := Suc (ready_workers s)\<rparr>)))"
    (is "run_inv cfg ?s'")
proof -
  let ?n = "worker_count cfg"
  note I = assms(1) [unfolded run_inv_def]
  have ns: "\<not> start s" by (rule not_started_while_preparing) fact+
  have c1: "count_below ?n passed_gate (wpcs ?s') = Suc (ready_workers s)"
    using assms(2-4) I
    by (simp add: notify_gate_def, subst count_below_upd_new) (auto intro!: count_below_cong)
  have c2: "count_below ?n is_finished (wpcs ?s') = finished_workers s"
    using assms(3,5) I
    by (simp add: notify_gate_def, subst count_below_upd_same) (auto intro!: count_below_cong)
  have w: "wpc_inv cfg u ?s' (wpcs ?s' u)" if u: "u < ?n" for u
  proof (cases "u = t")
    case True
    then show ?thesis using assms(6) by (simp add: wpc_inv_cong [of ?s' s])
  next
    case False
    have "wpc_inv cfg u ?s' (wake_gate (wpcs s u))"
      using I u by (intro wpc_inv_wake_gate [where s = s]) auto
    with False show ?thesis by simp
  qed
  have m: "mpc_inv cfg ?s' (main_pc ?s')"
    using I ns by (cases "main_pc s") auto
  have f: "\<exists>u<?n. wpcs ?s' u = PrepFailed e" if "failure ?s' = Some e" for e
    using I assms(2,3) that by auto (metis wpc.distinct(1))
  show ?thesis
    unfolding run_inv_def c1 c2 using I ns w m f by simp
qed

lemma run_inv_finish_arrive:
  assumes "run_inv cfg s" "t < worker_count cfg" "wpcs s t = RunIter i rs"
    "\<not> i < worker_count_of cfg t"
  shows "run_inv cfg (set_wpc t (FinishWait True rs)
            (notify_finish (s\<lparr>finished_workers := Suc (finished_workers s)\<rparr>)))"
    (is "run_inv cfg ?s'")
proof -
  let ?n = "worker_count cfg"
  note I = assms(1) [unfolded run_inv_def]
  have nr: "\<not> release_workers s"
    using assms(1-3) not_released_while_running [of cfg s t] by auto
  have wi: "wpc_inv cfg t s (RunIter i rs)" using I assms(2,3) by metis
  have c1: "count_below ?n is_finished (wpcs ?s') = Suc (finished_workers s)"
    using assms(2,3) I
    by (simp add: notify_finish_def, subst count_below_upd_new) (auto intro!: count_below_cong)
  have c2: "count_below ?n passed_gate (wpcs ?s') = ready_workers s"
    using assms(3) I
    by (simp add: notify_finish_def, subst count_below_upd_same) (auto intro!: count_below_cong)
  have w: "wpc_inv cfg u ?s' (wpcs ?s' u)" if u: "u < ?n" for u
  proof (cases "u = t")
    case True
    then show ?thesis using nr wi assms(4) by simp
  next
    case False
    have "wpc_inv cfg u ?s' (wake_finish (wpcs s u))"
      using I u by (intro wpc_inv_wake_finish [where s = s]) auto
    with False show ?thesis by simp
  qed
  have m: "mpc_inv cfg ?s' (main_pc ?s')"
    using I nr wi by (cases "main_pc s") auto
  show ?thesis
    unfolding run_inv_def c1 c2 using I nr w m wi by simp
qed

lemma prepare_done_inv:
  assumes "run_inv cfg s" "t < worker_count cfg" "prepare_done t r s = Some s'"
  shows "run_inv cfg s'"
proof -
  from assms(3) have pc: "wpcs s t = Preparing" by (simp add: prepare_done_def split: if_splits)
  show ?thesis
  proof (cases r)
    case (Inl err)
    with assms pc show ?thesis by (auto simp: prepare_done_def intro: run_inv_prepare_err)
  next
    case (Inr u)
    have ns: "\<not> start s" by (rule not_started_while_preparing) fact+
    let ?s1 = "notify_gate (s\<lparr>ready_workers := Suc (ready_workers s)\<rparr>)"
    have "run_inv cfg (set_wpc t (gate_check ?s1) ?s1)"
      using assms(1,2) pc ns
      by (intro run_inv_ready) (auto simp: gate_check_def leave_gate_def split: option.splits)
    with Inr assms(3) pc show ?thesis by (simp add: prepare_done_def Let_def)
  qed
qed

lemma gate_recheck_inv:
  assumes "run_inv cfg s" "t < worker_count cfg" "gate_recheck t s = Some s'"
  shows "run_inv cfg s'"
proof -
  from assms(3) have pc: "wpcs s t = GateWait False" and s': "s' = set_wpc t (gate_check s) s"
    by (simp_all add: gate_recheck_def split: if_splits)
  have "start s \<longrightarrow> run_origin s \<noteq> None \<and> failure s = None"
    using assms(1) by (simp add: run_inv_def)
  then show ?thesis
    using assms(1,2) pc unfolding s'
    by (intro run_inv_set_wpc) (auto simp: gate_check_def leave_gate_def split: option.splits)
qed

lemma measure_step_inv:
  assumes "run_inv cfg s" "t < worker_count cfg" "measure_step cfg t r s = Some s'"
  shows "run_inv cfg s'"
proof -
  from assms(3) obtain i rs where pc: "wpcs s t = RunIter i rs" and i: "i < worker_count_of cfg t"
    by (auto simp: measure_step_def split: wpc.splits if_splits)
  have wi: "wpc_inv cfg t s (RunIter i rs)" using assms(1,2) pc by (metis run_inv_def)
  show ?thesis
    using assms pc i wi
    by (auto simp: measure_step_def into_measurement_def intro!: run_inv_set_wpc
        split: sum.splits)
qed

lemma finish_arrive_inv:
  assumes "run_inv cfg s" "t < worker_count cfg" "finish_arrive cfg t s = Some s'"
  shows "run_inv cfg s'"
proof -
  from assms(3) obtain i rs where pc: "wpcs s t = RunIter i rs" and i: "\<not> i < worker_count_of cfg t"
    by (auto simp: finish_arrive_def split: wpc.splits if_splits)
  have "\<not> release_workers s" using assms(1,2) pc not_released_while_running [of cfg s t] by auto
  with assms pc i run_inv_finish_arrive [OF assms(1,2) pc i] show ?thesis
    by (simp add: finish_arrive_def finish_check_def Let_def)
qed

lemma finish_recheck_inv:
  assumes "run_inv cfg s" "t < worker_count cfg" "finish_recheck t s = Some s'"
  shows "run_inv cfg s'"
proof -
  from assms(3) obtain rs where pc: "wpcs s t = FinishWait False rs"
    and s': "s' = set_wpc t (finish_check s rs) s"
    by (auto simp: finish_recheck_def split: wpc.splits bool.splits)
  have "wpc_inv cfg t s (FinishWait False rs)" using assms(1,2) pc by (metis run_inv_def)
  then show ?thesis
    using assms(1,2) pc unfolding s'
    by (intro run_inv_set_wpc) (auto simp: finish_check_def)
qed

lemma worker_panic_inv:
  assumes "run_inv cfg s" "t < worker_count cfg" "worker_panic t s = Some s'"
  shows "run_inv cfg s'"
proof -
  have "wpc_inv cfg t s (wpcs s t)" using assms(1,2) by (metis run_inv_def)
  then show ?thesis
    using assms by (auto simp: worker_panic_def intro!: run_inv_set_wpc split: wpc.splits)
qed

text \<open>The main thread: its own program counter, and the two releases.\<close>

lemma run_inv_main_pc:
  assumes "run_inv cfg s" "mpc_inv cfg s pc"
  shows "run_inv cfg (s\<lparr>main_pc := pc\<rparr>)"
proof -
  have "mpc_inv cfg (s\<lparr>main_pc := pc\<rparr>) pc" using assms(2) by (cases pc) auto
  with assms(1) show ?thesis
    by (auto simp: run_inv_def wpc_inv_cong [of "s\<lparr>main_pc := pc\<rparr>" s])
qed

lemma run_inv_start:
  assumes "run_inv cfg s" "main_pc s = MReady False" "failure s = None"
    "\<not> ready_workers s < worker_count cfg"
  shows "run_inv cfg (notify_gate
           (s\<lparr>run_origin := Some now, start := True, main_pc := MFinish False now before\<rparr>))"
    (is "run_inv cfg ?s'")
proof -
  note I = assms(1) [unfolded run_inv_def]
  have rw: "ready_workers s = worker_count cfg"
    using I assms(4) count_below_le [of "worker_count cfg" passed_gate "wpcs s"] by linarith
  have nr: "\<not> release_workers s" "\<not> start s" using I assms(2) by auto
  have w: "wpc_inv cfg u ?s' (wpcs ?s' u)" if "u < worker_count cfg" for u
    using I that assms(3)
    by (auto simp del: wpc_inv.simps intro!: wpc_inv_wake_gate [where s = s])
  show ?thesis
    unfolding run_inv_def using I rw nr w assms(3) by simp
qed

lemma run_inv_release:
  assumes "run_inv cfg s" "main_pc s = MFinish False n before"
    "\<not> finished_workers s < worker_count cfg"
    and pc: "pc = MJoin 0 [] (Some x) \<or> pc = MReturned (Err e)"
  shows "run_inv cfg ((notify_finish (s\<lparr>release_workers := True\<rparr>))\<lparr>main_pc := pc\<rparr>)"
    (is "run_inv cfg ?s'")
proof -
  note I = assms(1) [unfolded run_inv_def]
  have fw: "finished_workers s = worker_count cfg"
    using I assms(3) count_below_le [of "worker_count cfg" is_finished "wpcs s"] by linarith
  have st: "start s" using I assms(2) by auto
  have w: "wpc_inv cfg u ?s' (wpcs ?s' u)" if "u < worker_count cfg" for u
    using I that by (auto simp del: wpc_inv.simps intro!: wpc_inv_wake_finish [where s = s])
  have c: "count_below (worker_count cfg) P (wpcs ?s') = count_below (worker_count cfg) P (wpcs s)"
    if "P = passed_gate \<or> P = is_finished" for P
    using that by (intro count_below_cong) auto
  have m: "mpc_inv cfg ?s' (main_pc ?s')"
    using pc st by (auto simp: joined_ids_def)
  show ?thesis
    unfolding run_inv_def using I fw st w m c by simp
qed

lemma main_gate_inv:
  assumes "run_inv cfg s" "main_gate cfg before now s = Some s'"
  shows "run_inv cfg s'"
proof -
  from assms(2) have pc: "main_pc s = MReady False"
    by (auto simp: main_gate_def split: mpc.splits bool.splits)
  have m: "\<not> start s" "run_origin s = None" using assms(1) pc by (auto simp: run_inv_def)
  have notify: "run_inv cfg (notify_gate u)" if "run_inv cfg u" "main_pc u = MJoin 0 [] None" for u
    using that by (auto simp: run_inv_def simp del: wpc_inv.simps
        intro: wpc_inv_wake_gate [where s = u])
  consider (wait) "ready_workers s < worker_count cfg" "failure s = None"
      "s' = s\<lparr>main_pc := MReady True\<rparr>"
    | (err) e where "s' = s\<lparr>main_pc := MReturned (Err e)\<rparr>"
    | (go) tb where "failure s = None" "\<not> ready_workers s < worker_count cfg"
      "s' = notify_gate (s\<lparr>run_origin := Some now, start := True, main_pc := MFinish False now tb\<rparr>)"
    | (fail) "failure s \<noteq> None" "s' = notify_gate (s\<lparr>main_pc := MJoin 0 [] None\<rparr>)"
    using assms(2) pc m(2) by (auto simp: main_gate_def split: if_splits sum.splits)
  then show ?thesis
  proof cases
    case wait
    with assms(1) m show ?thesis by (auto intro: run_inv_main_pc)
  next
    case err
    with assms(1) m show ?thesis by (auto intro: run_inv_main_pc)
  next
    case go
    with assms(1) pc show ?thesis by (auto intro: run_inv_start)
  next
    case fail
    with assms(1) m have "run_inv cfg (s\<lparr>main_pc := MJoin 0 [] None\<rparr>)"
      by (intro run_inv_main_pc) auto
    with fail show ?thesis by (auto intro: notify)
  qed
qed

lemma main_finish_inv:
  assumes "run_inv cfg s" "main_finish cfg now after s = Some s'"
  shows "run_inv cfg s'"
proof -
  from assms(2) obtain n b where pc: "main_pc s = MFinish False n b"
    by (auto simp: main_finish_def split: mpc.splits bool.splits)
  show ?thesis
  proof (cases "finished_workers s < worker_count cfg")
    case True
    have "mpc_inv cfg s (MFinish True n b)" using assms(1) pc True by (auto simp: run_inv_def)
    with assms pc True show ?thesis by (auto simp: main_finish_def intro: run_inv_main_pc)
  next
    case False
    with assms pc show ?thesis
      by (auto simp: main_finish_def Let_def intro: run_inv_release split: sum.splits)
  qed
qed

lemma thread_result_Ok: "thread_result pc = Some (Ok rs) \<longleftrightarrow> pc = Completed rs"
  by (cases pc) auto

lemma main_join_inv:
  assumes "run_inv cfg s" "main_join cfg s = Some s'"
  shows "run_inv cfg s'"
proof -
  from assms(2) obtain i acc st where pc: "main_pc s = MJoin i acc st"
    by (auto simp: main_join_def split: mpc.splits)
  have m: "mpc_inv cfg s (MJoin i acc st)" using assms(1) pc by (auto simp: run_inv_def)
  have w: "wpc_inv cfg i s (wpcs s i)" if "i < worker_count cfg"
    using assms(1) that by (metis run_inv_def)
  have "mpc_inv cfg s (main_pc s')" and "s' = s\<lparr>main_pc := main_pc s'\<rparr>"
    using assms(2) pc m w
    by (auto simp: main_join_def thread_result_Ok joined_ids_def
        split: if_splits option.splits sum.splits)
  then show ?thesis using run_inv_main_pc [OF assms(1)] by metis
qed

lemma spurious_inv:
  assumes "run_inv cfg s"
  shows "t < worker_count cfg \<Longrightarrow> spurious_gate t s = Some s' \<Longrightarrow> run_inv cfg s'"
    and "t < worker_count cfg \<Longrightarrow> spurious_finish t s = Some s' \<Longrightarrow> run_inv cfg s'"
    and "spurious_main s = Some s' \<Longrightarrow> run_inv cfg s'"
proof -
  have w: "wpc_inv cfg t s (wpcs s t)" if "t < worker_count cfg"
    using assms that by (metis run_inv_def)
  show "t < worker_count cfg \<Longrightarrow> spurious_gate t s = Some s' \<Longrightarrow> run_inv cfg s'"
    using assms by (auto simp: spurious_gate_def intro: run_inv_set_wpc split: if_splits)
  show "t < worker_count cfg \<Longrightarrow> spurious_finish t s = Some s' \<Longrightarrow> run_inv cfg s'"
    using assms w
    by (auto simp: spurious_finish_def intro!: run_inv_set_wpc split: wpc.splits bool.splits)
  have "mpc_inv cfg s (main_pc s)" using assms by (simp add: run_inv_def)
  then show "spurious_main s = Some s' \<Longrightarrow> run_inv cfg s'"
    using assms
    by (auto simp: spurious_main_def intro!: run_inv_main_pc split: mpc.splits bool.splits)
qed

lemma run_inv_init: "run_inv cfg init_state"
  by (simp add: run_inv_def init_state_def)

lemma exec_step_inv: "run_inv cfg s \<Longrightarrow> exec_step cfg a s = Some s' \<Longrightarrow> run_inv cfg s'"
  by (cases a)
     (auto split: if_splits intro: prepare_done_inv gate_recheck_inv measure_step_inv
        finish_arrive_inv finish_recheck_inv worker_panic_inv main_gate_inv main_finish_inv
        main_join_inv spurious_inv)

interpretation runner: machine_invariant "exec_step cfg" init_state "run_inv cfg" for cfg
  by unfold_locales (auto intro: run_inv_init exec_step_inv)

lemma reachable_inv: "reachable cfg s \<Longrightarrow> run_inv cfg s"
  unfolding reachable_def by (rule runner.invar_reachable)

section \<open>Safety\<close>

text \<open>
  C18: the start barrier. When some worker is measuring (or has measured) an operation, every
  worker has finished its preparation successfully and no failure is recorded: preparation
  never overlaps with a measured operation.
\<close>

theorem start_barrier:
  assumes "reachable cfg s" "t < worker_count cfg"
    and "wpcs s t = RunIter i rs \<or> wpcs s t = FinishWait b rs \<or> wpcs s t = Completed rs"
    and "u < worker_count cfg"
  shows "wpcs s u \<noteq> Preparing \<and> (\<forall>e. wpcs s u \<noteq> PrepFailed e) \<and> wpcs s u \<noteq> PrepPanicked \<and>
         failure s = None \<and> ready_workers s = worker_count cfg"
proof -
  from assms(1) have I: "run_inv cfg s" by (rule reachable_inv)
  have "wpc_inv cfg t s (wpcs s t)" using I assms(2) by (metis run_inv_def)
  with assms(3) have "start s" by auto
  with I have "count_below (worker_count cfg) passed_gate (wpcs s) = worker_count cfg"
    "failure s = None" "ready_workers s = worker_count cfg"
    by (auto simp: run_inv_def)
  then show ?thesis using assms(4) by (auto simp: count_below_all)
qed

definition one_worker :: run_config where
  "one_worker = \<lparr>total = 1, concurrency = 1, measure_per_op_usage = True\<rparr>"

definition started_run :: "action list" where
  "started_run = [Prepare 0 (Ok ()), MainGate (Ok (snap_example 0 0)) 0, GateRecheck 0]"

lemmas run_eval = reachable_def one_worker_def started_run_def worker_count_def init_state_def
  prepare_done_def gate_recheck_def gate_check_def leave_gate_def notify_gate_def notify_finish_def
  set_wpc_def main_gate_def measure_step_def finish_arrive_def finish_check_def finish_recheck_def
  main_finish_def main_join_def worker_count_of_def worker_offset_of_def iteration_count_def
  iteration_offset_def saturating_add_def saturating_mul_def

lemma started_run_reaches:
  "\<exists>s. exec_all (exec_step one_worker) started_run init_state = Some s \<and>
       wpcs s 0 = RunIter 0 [] \<and> main_pc s = MFinish False 0 (snap_example 0 0)"
  by (simp add: run_eval Let_def)

theorem start_barrier_witness:
  "\<exists>s::rstate. wpcs s 0 = RunIter 0 [] \<and>
       (wpcs s 0 \<noteq> Preparing \<and> (\<forall>e. wpcs s 0 \<noteq> PrepFailed e) \<and> wpcs s 0 \<noteq> PrepPanicked \<and>
        failure s = None \<and> ready_workers s = worker_count one_worker)"
proof -
  obtain s where s: "exec_all (exec_step one_worker) started_run init_state = Some s"
    "wpcs s 0 = RunIter 0 []" using started_run_reaches by blast
  have r: "reachable one_worker s" unfolding reachable_def by (rule exec_all_reaches) (rule s(1))
  have w: "0 < worker_count one_worker" by (simp add: worker_count_def one_worker_def)
  show ?thesis by (rule exI, rule conjI [OF s(2) start_barrier [OF r w disjI1 [OF s(2)] w]])
qed

text \<open>
  C20: no lost wake-up. A thread that sleeps in \<open>Condvar::wait\<close> always sleeps for a reason: the
  condition of its loop still holds. So every change that makes a condition false has woken the
  threads that wait for it.
\<close>

theorem no_lost_wakeup:
  assumes "reachable cfg s"
  shows "(t < worker_count cfg \<and> wpcs s t = GateWait True \<longrightarrow> \<not> start s \<and> failure s = None) \<and>
         (t < worker_count cfg \<and> wpcs s t = FinishWait True rs \<longrightarrow> \<not> release_workers s) \<and>
         (main_pc s = MReady True \<longrightarrow> ready_workers s < worker_count cfg \<and> failure s = None) \<and>
         (main_pc s = MFinish True n b \<longrightarrow> finished_workers s < worker_count cfg)"
proof -
  from assms have I: "run_inv cfg s" by (rule reachable_inv)
  then have "t < worker_count cfg \<Longrightarrow> wpc_inv cfg t s (wpcs s t)" by (metis run_inv_def)
  moreover from I have "mpc_inv cfg s (main_pc s)" by (simp add: run_inv_def)
  ultimately show ?thesis by auto
qed

theorem no_lost_wakeup_witness:
  "\<exists>s::rstate. wpcs s 0 = GateWait True \<and>
       ((0 < worker_count one_worker \<and> wpcs s 0 = GateWait True \<longrightarrow> \<not> start s \<and> failure s = None) \<and>
        (0 < worker_count one_worker \<and> wpcs s 0 = FinishWait True [] \<longrightarrow> \<not> release_workers s) \<and>
        (main_pc s = MReady True \<longrightarrow> ready_workers s < worker_count one_worker \<and> failure s = None) \<and>
        (main_pc s = MFinish True 0 (snap_example 0 0) \<longrightarrow>
           finished_workers s < worker_count one_worker))"
proof -
  have "\<exists>s. exec_all (exec_step one_worker) [Prepare 0 (Ok ())] init_state = Some s \<and>
      wpcs s 0 = GateWait True"
    by (simp add: run_eval Let_def)
  then obtain s where s: "exec_all (exec_step one_worker) [Prepare 0 (Ok ())] init_state = Some s"
    "wpcs s 0 = GateWait True" by blast
  have r: "reachable one_worker s" unfolding reachable_def by (rule exec_all_reaches) (rule s(1))
  show ?thesis by (rule exI, rule conjI [OF s(2) no_lost_wakeup [OF r]])
qed

lemma joined_ids_all:
  assumes "0 < worker_count cfg" "total cfg \<le> u64_max"
  shows "joined_ids cfg (worker_count cfg) = [0..<total cfg]"
proof -
  let ?off = "worker_offset_of cfg" and ?cnt = "worker_count_of cfg" and ?n = "worker_count cfg"
  have step: "?off (Suc t) = ?off t + ?cnt t" if "t < ?n" for t
    using that assms
    by (simp add: worker_offset_of_def worker_count_of_def iteration_offset_exact
        iteration_count_Some min_def)
  have "joined_ids cfg ?n = [0 ..< ?off ?n]"
    unfolding joined_ids_def using step assms
    by (intro concat_upt_segments) (simp_all add: worker_offset_of_def iteration_offset_exact)
  also have "?off ?n = total cfg"
    using assms by (simp add: worker_offset_of_def iteration_offset_exact min_absorb2 less_imp_le)
  finally show ?thesis .
qed

text \<open>
  C3: what a successful run reports. The measurements returned are those of the instances
  \<open>0, ..., total - 1\<close>, each exactly once and in order.
\<close>

theorem run_reports_every_instance:
  assumes "reachable cfg s" "main_pc s = MReturned (Ok out)"
    and "0 < worker_count cfg" "total cfg \<le> u64_max"
  shows "map instance_id (measurements out) = [0..<total cfg]"
  using reachable_inv [OF assms(1)] assms(2) joined_ids_all [OF assms(3,4)] by (simp add: run_inv_def)

definition full_run :: "action list" where
  "full_run = started_run @
     [Measure 0 (Ok (1, 4, usage_zero)), FinishArrive 0, MainFinish 9000 (Ok (snap_example 0 0)),
      FinishRecheck 0, MainJoin, MainJoin]"

lemma full_run_reaches:
  "\<exists>s out. exec_all (exec_step one_worker) full_run init_state = Some s \<and>
       main_pc s = MReturned (Ok out) \<and> wall_us out = 9"
  by (simp add: run_eval full_run_def Let_def micros_between_def as_u64_def)

theorem run_reports_every_instance_witness:
  "\<exists>(s::rstate) out. main_pc s = MReturned (Ok out) \<and>
       map instance_id (measurements out) = [0..<total one_worker]"
proof -
  obtain s out where s: "exec_all (exec_step one_worker) full_run init_state = Some s"
    "main_pc s = MReturned (Ok out)" using full_run_reaches by blast
  have "reachable one_worker s" unfolding reachable_def by (rule exec_all_reaches) (rule s(1))
  then have "map instance_id (measurements out) = [0..<total one_worker]"
    using s(2)
    by (rule run_reports_every_instance) (simp_all add: worker_count_def one_worker_def u64_max_def)
  with s(2) show ?thesis by blast
qed


definition failed_prepare_run :: "action list" where
  "failed_prepare_run = [Prepare 0 (Err ''no kvm''), MainGate (Ok (snap_example 0 0)) 0]"

lemma failed_prepare_reaches:
  "\<exists>s s'. exec_all (exec_step one_worker) failed_prepare_run init_state = Some s \<and>
       main_pc s = MJoin 0 [] None \<and> main_join one_worker s = Some s'"
  by (simp add: run_eval failed_prepare_run_def)


section \<open>Progress, and the hang\<close>

lemma thread_stays_failed:
  assumes "exec_step cfg a s = Some s'" "wpcs s t = RunFailed e \<or> wpcs s t = RunPanicked"
  shows "wpcs s' t = wpcs s t"
  using assms
  by (cases a)
     (auto simp: prepare_done_def gate_recheck_def measure_step_def finish_arrive_def
        finish_recheck_def worker_panic_def main_gate_def main_finish_def main_join_def
        spurious_gate_def spurious_finish_def spurious_main_def Let_def
        split: if_splits sum.splits wpc.splits mpc.splits bool.splits option.splits prod.splits)

lemma reaches_stays_failed:
  "reaches (exec_step cfg) s s' \<Longrightarrow> wpcs s t = RunFailed e \<or> wpcs s t = RunPanicked \<Longrightarrow>
     wpcs s' t = wpcs s t"
  by (induction rule: reaches.induct) (auto dest: thread_stays_failed)

text \<open>
  C1: the driver hangs when a measured operation fails. A worker whose operation returns an
  error (or panics) leaves its closure without incrementing \<open>finished_workers\<close>, and the main
  thread waits for all workers: from such a state, whatever happens next, the main thread is
  still in its finish loop, so \<open>run_external_with_prepare\<close> never returns and the error is
  never reported.
\<close>

theorem failed_operation_hangs:
  assumes "reachable cfg s" "t < worker_count cfg"
    and "wpcs s t = RunFailed e \<or> wpcs s t = RunPanicked"
    and "reaches (exec_step cfg) s s'"
  shows "\<exists>asleep run_start before. main_pc s' = MFinish asleep run_start before"
proof -
  have "reachable cfg s'"
    using assms(1,4) unfolding reachable_def by (blast intro: reaches_trans)
  then have I: "run_inv cfg s'" by (rule reachable_inv)
  have pc: "wpcs s' t = RunFailed e \<or> wpcs s' t = RunPanicked"
    using reaches_stays_failed [OF assms(4,3)] assms(3) by auto
  have "wpc_inv cfg t s' (wpcs s' t)" using I assms(2) by (metis run_inv_def)
  with pc have "start s'" by auto
  moreover have "\<not> release_workers s'"
    using I assms(2) pc not_released_while_running [of cfg s' t] by auto
  moreover have "mpc_inv cfg s' (main_pc s')" using I by (simp add: run_inv_def)
  ultimately show ?thesis by (cases "main_pc s'") (auto split: option.splits)
qed

lemma failing_run_reaches:
  "\<exists>s. exec_all (exec_step one_worker) (started_run @ [Measure 0 (Err ''boom'')]) init_state = Some s
      \<and> wpcs s 0 = RunFailed ''boom''"
  by (simp add: run_eval Let_def)

theorem failed_operation_hangs_witness:
  "\<exists>s::rstate. wpcs s 0 = RunFailed ''boom'' \<and>
       (\<exists>asleep run_start before. main_pc s = MFinish asleep run_start before)"
proof -
  obtain s where s: "exec_all (exec_step one_worker) (started_run @ [Measure 0 (Err ''boom'')])
      init_state = Some s" "wpcs s 0 = RunFailed ''boom''" using failing_run_reaches by blast
  have r: "reachable one_worker s" unfolding reachable_def by (rule exec_all_reaches) (rule s(1))
  have w: "0 < worker_count one_worker" by (simp add: worker_count_def one_worker_def)
  show ?thesis
    by (rule exI, rule conjI [OF s(2) failed_operation_hangs [OF r w disjI1 [OF s(2)] reaches_refl]])
qed

fun healthy :: "wpc \<Rightarrow> bool" where
  "healthy (RunFailed _) = False"
| "healthy RunPanicked = False"
| "healthy PrepPanicked = False"
| "healthy _ = True"

text \<open>A worker that is awake and has not returned can take its next step.\<close>

fun can_move :: "wpc \<Rightarrow> bool" where
  "can_move Preparing = True"
| "can_move (GateWait asleep) = (\<not> asleep)"
| "can_move (RunIter _ _) = True"
| "can_move (FinishWait asleep _) = (\<not> asleep)"
| "can_move _ = False"

lemma can_move_step:
  assumes "t < worker_count cfg" "can_move (wpcs s t)"
  shows "\<exists>a s'. \<not> is_spurious a \<and> exec_step cfg a s = Some s'"
proof (cases "wpcs s t")
  case Preparing
  then show ?thesis using assms(1)
    by (intro exI [of _ "Prepare t (Ok ())"]) (simp add: prepare_done_def Let_def)
next
  case (GateWait b)
  with assms show ?thesis
    by (intro exI [of _ "GateRecheck t"]) (auto simp: gate_recheck_def)
next
  case (RunIter i rs)
  show ?thesis
  proof (cases "i < worker_count_of cfg t")
    case True
    with RunIter assms(1) show ?thesis
      by (intro exI [of _ "Measure t (Err [])"]) (simp add: measure_step_def)
  next
    case False
    with RunIter assms(1) show ?thesis
      by (intro exI [of _ "FinishArrive t"]) (simp add: finish_arrive_def Let_def)
  qed
next
  case (FinishWait b rs)
  with assms show ?thesis
    by (intro exI [of _ "FinishRecheck t"]) (auto simp: finish_recheck_def)
qed (use assms in auto)

text \<open>The main thread can step, or a worker that it waits for can.\<close>

lemma main_waits_for_mover:
  assumes I: "run_inv cfg s" and h: "\<And>t. t < worker_count cfg \<Longrightarrow> healthy (wpcs s t)"
    and main: "main_pc s = MReady True \<or> main_pc s = MFinish True n b \<or>
      (main_pc s = MJoin i acc st \<and> i < worker_count cfg \<and> thread_result (wpcs s i) = None)"
  shows "\<exists>t < worker_count cfg. can_move (wpcs s t)"
proof -
  have w: "wpc_inv cfg t s (wpcs s t)" if "t < worker_count cfg" for t
    using I that by (metis run_inv_def)
  have m: "mpc_inv cfg s (main_pc s)" using I by (simp add: run_inv_def)
  from main show ?thesis
  proof (elim disjE conjE)
    assume "main_pc s = MReady True"
    with m I have "count_below (worker_count cfg) passed_gate (wpcs s) \<noteq> worker_count cfg"
      and f: "failure s = None"
      by (auto simp: run_inv_def)
    then obtain t where t: "t < worker_count cfg" "\<not> passed_gate (wpcs s t)"
      by (auto simp: count_below_all)
    then have "can_move (wpcs s t)" using w [OF t(1)] h [OF t(1)] f by (cases "wpcs s t") auto
    with t show ?thesis by blast
  next
    assume "main_pc s = MFinish True n b"
    with m I have "count_below (worker_count cfg) is_finished (wpcs s) \<noteq> worker_count cfg"
      and st: "start s" "failure s = None"
        "count_below (worker_count cfg) passed_gate (wpcs s) = worker_count cfg"
      by (auto simp: run_inv_def)
    then obtain t where t: "t < worker_count cfg" "\<not> is_finished (wpcs s t)"
      by (auto simp: count_below_all)
    have "passed_gate (wpcs s t)" using st(3) t(1) by (simp add: count_below_all)
    then have "can_move (wpcs s t)"
      using w [OF t(1)] h [OF t(1)] st t(2) by (cases "wpcs s t") auto
    with t show ?thesis by blast
  next
    assume a: "main_pc s = MJoin i acc st" "i < worker_count cfg" "thread_result (wpcs s i) = None"
    then have "can_move (wpcs s i)"
      using w [OF a(2)] m by (cases "wpcs s i"; cases st) auto
    with a(2) show ?thesis by blast
  qed
qed

text \<open>
  C6: no deadlock while the operations succeed. In every reachable state in which the main
  thread has not returned and no worker has failed in a measured operation or panicked, some
  thread can take a step that is not a spurious wake-up.
\<close>

theorem runner_deadlock_free:
  assumes "reachable cfg s" "\<And>t. t < worker_count cfg \<Longrightarrow> healthy (wpcs s t)"
    and "\<And>r. main_pc s \<noteq> MReturned r"
  shows "\<exists>a s'. \<not> is_spurious a \<and> exec_step cfg a s = Some s'"
proof (cases "(\<exists>t < worker_count cfg. can_move (wpcs s t))")
  case True
  then show ?thesis by (blast intro: can_move_step)
next
  case False
  from assms(1) have I: "run_inv cfg s" by (rule reachable_inv)
  note stuck = main_waits_for_mover [OF I assms(2)]
  show ?thesis
  proof (cases "main_pc s")
    case (MReady b)
    with False stuck have "\<not> b" by (cases b) auto
    with MReady show ?thesis
      by (intro exI [of _ "MainGate (Err []) 0"]) (simp add: main_gate_def)
  next
    case (MFinish b n u)
    with False stuck have "\<not> b" by (cases b) auto
    with MFinish show ?thesis
      by (intro exI [of _ "MainFinish 0 (Err [])"]) (simp add: main_finish_def Let_def)
  next
    case (MJoin i acc st)
    with False stuck have "i < worker_count cfg \<Longrightarrow> thread_result (wpcs s i) \<noteq> None" by auto
    with MJoin show ?thesis
      by (intro exI [of _ MainJoin]) (auto simp: main_join_def split: option.splits sum.splits)
  next
    case (MReturned r)
    with assms(3) show ?thesis by blast
  qed
qed

theorem runner_deadlock_free_witness:
  "\<exists>a s'. \<not> is_spurious a \<and> exec_step one_worker a init_state = Some s'"
  by (rule runner_deadlock_free) (simp_all add: reachable_def reaches_refl init_state_def)

section \<open>Termination\<close>

text \<open>
  A weight for every program counter. A notification may wake every worker and the main thread,
  each of which costs one re-check, so a step that notifies is worth \<open>n + 2\<close>.
\<close>

fun wrank :: "run_config \<Rightarrow> nat \<Rightarrow> wpc \<Rightarrow> nat" where
  "wrank cfg t Preparing = 2 * (worker_count cfg + 2) + worker_count_of cfg t + 4"
| "wrank cfg t (GateWait asleep) =
     (worker_count cfg + 2) + worker_count_of cfg t + 3 + (if asleep then 0 else 1)"
| "wrank cfg t (RunIter i rs) = (worker_count cfg + 2) + (worker_count_of cfg t - i) + 2"
| "wrank cfg t (FinishWait asleep rs) = 1 + (if asleep then 0 else 1)"
| "wrank cfg t _ = 0"

fun mrank :: "run_config \<Rightarrow> mpc \<Rightarrow> nat" where
  "mrank cfg (MReady asleep) = 3 * (worker_count cfg + 2) + worker_count cfg + 4 + (if asleep then 0 else 1)"
| "mrank cfg (MFinish asleep n u) = (worker_count cfg + 2) + worker_count cfg + 3 + (if asleep then 0 else 1)"
| "mrank cfg (MJoin i acc st) = worker_count cfg - i + 1"
| "mrank cfg (MReturned r) = 0"

definition run_rank :: "run_config \<Rightarrow> rstate \<Rightarrow> nat" where
  "run_rank cfg s = (\<Sum>t<worker_count cfg. wrank cfg t (wpcs s t)) + mrank cfg (main_pc s)"

lemma wake_rank:
  "wrank cfg t (wake_gate pc) \<le> wrank cfg t pc + 1" "wrank cfg t (wake_finish pc) \<le> wrank cfg t pc + 1"
  by (cases pc; simp)+

lemma wake_rank_main:
  "mrank cfg (wake_gate_main mp) \<le> mrank cfg mp + 1" "mrank cfg (wake_finish_main mp) \<le> mrank cfg mp + 1"
  by (cases mp; simp)+

lemma run_rank_set_wpc:
  "t < worker_count cfg \<Longrightarrow>
     run_rank cfg (set_wpc t pc s) + wrank cfg t (wpcs s t) = run_rank cfg s + wrank cfg t pc"
  using sum_upd [of t "worker_count cfg" "wrank cfg" "wpcs s" pc] by (simp add: run_rank_def)

lemma run_rank_notify:
  "run_rank cfg (notify_gate s) \<le> run_rank cfg s + worker_count cfg + 1"
  "run_rank cfg (notify_finish s) \<le> run_rank cfg s + worker_count cfg + 1"
proof -
  let ?n = "worker_count cfg"
  have "(\<Sum>t<?n. wrank cfg t (wake_gate (wpcs s t))) \<le> (\<Sum>t<?n. wrank cfg t (wpcs s t)) + ?n"
    by (rule sum_le_plus) (rule wake_rank)
  moreover have "(\<Sum>t<?n. wrank cfg t (wake_finish (wpcs s t))) \<le> (\<Sum>t<?n. wrank cfg t (wpcs s t)) + ?n"
    by (rule sum_le_plus) (rule wake_rank)
  ultimately show "run_rank cfg (notify_gate s) \<le> run_rank cfg s + ?n + 1"
    "run_rank cfg (notify_finish s) \<le> run_rank cfg s + ?n + 1"
    using wake_rank_main [of cfg "main_pc s"] by (simp_all add: run_rank_def)
qed

lemma run_rank_shared [simp]:
  "run_rank cfg (s\<lparr>ready_workers := a\<rparr>) = run_rank cfg s"
  "run_rank cfg (s\<lparr>failure := f\<rparr>) = run_rank cfg s"
  "run_rank cfg (s\<lparr>finished_workers := a\<rparr>) = run_rank cfg s"
  "run_rank cfg (s\<lparr>release_workers := b\<rparr>) = run_rank cfg s"
  by (simp_all add: run_rank_def)

lemma run_rank_main:
  "run_rank cfg (s\<lparr>main_pc := pc\<rparr>) + mrank cfg (main_pc s) = run_rank cfg s + mrank cfg pc"
  "run_rank cfg (s\<lparr>run_origin := x, start := y, main_pc := pc\<rparr>) + mrank cfg (main_pc s)
     = run_rank cfg s + mrank cfg pc"
  by (simp_all add: run_rank_def)

text \<open>A worker's move, alone and together with a notification.\<close>

lemma rank_move:
  assumes "t < worker_count cfg" "wrank cfg t pc < wrank cfg t (wpcs s t)"
  shows "run_rank cfg (set_wpc t pc s) < run_rank cfg s"
  using run_rank_set_wpc [OF assms(1), of pc s] assms(2) by linarith

lemma rank_move_notify:
  assumes "t < worker_count cfg" "run_rank cfg s1 = run_rank cfg s" "wpcs s1 = wpcs s"
    and "wrank cfg t pc + worker_count cfg + 2 < wrank cfg t (wpcs s t)"
    and "wake_gate (wpcs s t) = wpcs s t" "wake_finish (wpcs s t) = wpcs s t"
  shows "run_rank cfg (set_wpc t pc (notify_gate s1)) < run_rank cfg s"
    and "run_rank cfg (set_wpc t pc (notify_finish s1)) < run_rank cfg s"
  using run_rank_set_wpc [OF assms(1), of pc "notify_gate s1"] run_rank_notify [of cfg s1]
    run_rank_set_wpc [OF assms(1), of pc "notify_finish s1"] assms(2-6) by simp_all

lemma rank_worker_steps:
  assumes "t < worker_count cfg" "run_inv cfg s"
  shows "prepare_done t r s = Some s' \<Longrightarrow> run_rank cfg s' < run_rank cfg s"
    and "gate_recheck t s = Some s' \<Longrightarrow> run_rank cfg s' < run_rank cfg s"
    and "measure_step cfg t m s = Some s' \<Longrightarrow> run_rank cfg s' < run_rank cfg s"
    and "finish_arrive cfg t s = Some s' \<Longrightarrow> run_rank cfg s' < run_rank cfg s"
    and "finish_recheck t s = Some s' \<Longrightarrow> run_rank cfg s' < run_rank cfg s"
    and "worker_panic t s = Some s' \<Longrightarrow> run_rank cfg s' < run_rank cfg s"
proof -
  have gc: "wrank cfg t (gate_check u) \<le> (worker_count cfg + 2) + worker_count_of cfg t + 3" for u
    by (simp add: gate_check_def leave_gate_def split: option.split)
  have fc: "wrank cfg t (finish_check u rs) < 2" for u rs
    by (simp add: finish_check_def)
  show "prepare_done t r s = Some s' \<Longrightarrow> run_rank cfg s' < run_rank cfg s"
    using assms(1) gc [of "notify_gate (s\<lparr>ready_workers := Suc (ready_workers s)\<rparr>)"]
    by (auto simp: prepare_done_def Let_def intro!: rank_move_notify split: if_splits sum.splits)
  show "gate_recheck t s = Some s' \<Longrightarrow> run_rank cfg s' < run_rank cfg s"
    using assms(1) gc [of s]
    by (auto simp: gate_recheck_def intro!: rank_move split: if_splits)
  show "measure_step cfg t m s = Some s' \<Longrightarrow> run_rank cfg s' < run_rank cfg s"
    using assms(1)
    by (auto simp: measure_step_def intro!: rank_move split: wpc.splits if_splits sum.splits)
  show "finish_arrive cfg t s = Some s' \<Longrightarrow> run_rank cfg s' < run_rank cfg s"
    using assms(1) fc
    by (auto simp: finish_arrive_def Let_def numeral_2_eq_2 intro!: rank_move_notify
        split: wpc.splits if_splits)
  show "finish_recheck t s = Some s' \<Longrightarrow> run_rank cfg s' < run_rank cfg s"
    using assms(1) fc
    by (auto simp: finish_recheck_def numeral_2_eq_2 intro!: rank_move
        split: wpc.splits bool.splits)
  show "worker_panic t s = Some s' \<Longrightarrow> run_rank cfg s' < run_rank cfg s"
    using assms(1) by (auto simp: worker_panic_def intro!: rank_move split: wpc.splits)
qed

lemma rank_main_steps:
  assumes "run_inv cfg s"
  shows "main_gate cfg before now s = Some s' \<Longrightarrow> run_rank cfg s' < run_rank cfg s"
    and "main_finish cfg now after s = Some s' \<Longrightarrow> run_rank cfg s' < run_rank cfg s"
    and "main_join cfg s = Some s' \<Longrightarrow> run_rank cfg s' < run_rank cfg s"
proof -
  have notify: "run_rank cfg (notify_gate u) < run_rank cfg s"
    if "run_rank cfg u + worker_count cfg + 2 \<le> run_rank cfg s" for u
    using run_rank_notify(1) [of cfg u] that by linarith
  have step: "run_rank cfg (s\<lparr>main_pc := pc\<rparr>) < run_rank cfg s"
    if "mrank cfg pc < mrank cfg (main_pc s)" for pc
    using run_rank_main(1) [where cfg = cfg and s = s and pc = pc] that by linarith
  have go: "run_rank cfg (s\<lparr>run_origin := x, start := y, main_pc := pc\<rparr>) + worker_count cfg + 2
      \<le> run_rank cfg s"
    if "mrank cfg pc + worker_count cfg + 2 \<le> mrank cfg (main_pc s)" for x y pc
    using run_rank_main(2) [where cfg = cfg and s = s and x = x and y = y and pc = pc] that by linarith
  have fail: "run_rank cfg (s\<lparr>main_pc := pc\<rparr>) + worker_count cfg + 2 \<le> run_rank cfg s"
    if "mrank cfg pc + worker_count cfg + 2 \<le> mrank cfg (main_pc s)" for pc
    using run_rank_main(1) [where cfg = cfg and s = s and pc = pc] that by linarith
  show "main_gate cfg before now s = Some s' \<Longrightarrow> run_rank cfg s' < run_rank cfg s"
    by (auto simp: main_gate_def intro!: step notify go fail
        split: mpc.splits bool.splits if_splits sum.splits)
  have rel: "run_rank cfg ((notify_finish (s\<lparr>release_workers := True\<rparr>))\<lparr>main_pc := pc\<rparr>) < run_rank cfg s"
    if "mrank cfg pc \<le> worker_count cfg + 1" "main_pc s = MFinish False n b" for pc n b
    using run_rank_main(1) [where cfg = cfg and s = "notify_finish (s\<lparr>release_workers := True\<rparr>)" and pc = pc]
      run_rank_notify(2) [of cfg "s\<lparr>release_workers := True\<rparr>"] that by simp
  show "main_finish cfg now after s = Some s' \<Longrightarrow> run_rank cfg s' < run_rank cfg s"
    by (auto simp: main_finish_def Let_def intro!: step rel
        split: mpc.splits bool.splits if_splits sum.splits)
  show "main_join cfg s = Some s' \<Longrightarrow> run_rank cfg s' < run_rank cfg s"
    by (auto simp: main_join_def intro!: step
        split: mpc.splits if_splits option.splits sum.splits)
qed

interpretation ranked_runner:
  ranked_machine "exec_step cfg" init_state "run_inv cfg" "run_rank cfg" "\<lambda>a. \<not> is_spurious a" for cfg
proof unfold_locales
  fix s a s'
  assume "run_inv cfg s" "\<not> is_spurious a" "exec_step cfg a s = Some s'"
  then show "run_rank cfg s' < run_rank cfg s"
    by (cases a) (auto split: if_splits intro: rank_worker_steps rank_main_steps)
qed

lemma run_rank_init:
  assumes "0 < worker_count cfg"
  shows "run_rank cfg init_state =
     worker_count cfg * (2 * (worker_count cfg + 2) + 4) + total cfg +
     (3 * (worker_count cfg + 2) + worker_count cfg + 5)"
proof -
  have "(\<Sum>t<worker_count cfg. worker_count_of cfg t) = total cfg"
    using assms iteration_count_balanced_sum [of "worker_count cfg" "total cfg"]
    by (simp add: worker_count_of_def)
  then show ?thesis
    by (simp add: run_rank_def init_state_def sum.distrib algebra_simps)
qed

text \<open>
  C7: the driver terminates. Apart from spurious wake-ups, a run has at most
  \<open>n (2 (n + 2) + 4) + total + 4 n + 11\<close> steps for \<open>n\<close> workers, whatever the operations
  return: together with the freedom from deadlock, a run in which no operation fails ends with
  the main thread returning.
\<close>

theorem runner_terminates:
  assumes "exec_all (exec_step cfg) as init_state = Some s" "list_all (\<lambda>a. \<not> is_spurious a) as"
    and "0 < worker_count cfg"
  shows "length as \<le> worker_count cfg * (2 * (worker_count cfg + 2) + 4) + total cfg
           + (3 * (worker_count cfg + 2) + worker_count cfg + 5)"
  using ranked_runner.exec_all_rank [OF run_inv_init assms(1,2)] run_rank_init [OF assms(3)]
  by simp

theorem runner_terminates_witness:
  "length full_run \<le> worker_count one_worker * (2 * (worker_count one_worker + 2) + 4)
     + total one_worker + (3 * (worker_count one_worker + 2) + worker_count one_worker + 5)"
proof -
  obtain s where "exec_all (exec_step one_worker) full_run init_state = Some s"
    using full_run_reaches by blast
  then show ?thesis
    by (rule runner_terminates) (simp_all add: full_run_def started_run_def worker_count_def one_worker_def)
qed

end
