(* ===== verification/Bench_External.thy ===== *)
theory Bench_External
  imports Bench_Runner_Props
begin

text \<open>
  The driver \<open>run_external\<close> of src/restore-motivation/src/ops/mod.rs, for operations without a
  preparation. It has the start gate of \<open>run_external_with_prepare\<close> but no finish gate: a worker
  returns as soon as its loop ends, and the main thread joins the workers in order. One step is a
  critical section with the code before it, as in theory \<open>Bench_Runner\<close>.
\<close>

section \<open>State\<close>

datatype epc =
    Starting
  | EWait bool
  | EAborted string
  | EIter nat "measurement list"
  | EFailed string
  | EPanicked
  | EDone "measurement list"

datatype empc =
    EMReady bool
  | EMJoin nat "measurement list" nat usage_snapshot
  | EMReturned "run_output res"

record estate =
  e_ready :: nat
  e_start :: bool
  e_failure :: "string option"
  e_origin :: "nat option"
  epcs :: "nat \<Rightarrow> epc"
  e_main :: empc

definition e_init :: estate where
  "e_init =
     \<lparr>e_ready = 0, e_start = False, e_failure = None, e_origin = None, epcs = (\<lambda>_. Starting),
      e_main = EMReady False\<rparr>"

section \<open>Steps\<close>

fun e_wake :: "epc \<Rightarrow> epc" where
  "e_wake (EWait _) = EWait False"
| "e_wake pc = pc"

fun e_wake_main :: "empc \<Rightarrow> empc" where
  "e_wake_main (EMReady _) = EMReady False"
| "e_wake_main pc = pc"

definition e_notify :: "estate \<Rightarrow> estate" where
  "e_notify s = s\<lparr>epcs := e_wake \<circ> epcs s, e_main := e_wake_main (e_main s)\<rparr>"

definition set_epc :: "nat \<Rightarrow> epc \<Rightarrow> estate \<Rightarrow> estate" where
  "set_epc t pc s = s\<lparr>epcs := (epcs s)(t := pc)\<rparr>"

definition e_gate_check :: "estate \<Rightarrow> epc" where
  "e_gate_check s =
     (if \<not> e_start s \<and> e_failure s = None then EWait True
      else
        (case e_failure s of
           Some err \<Rightarrow> EAborted err
         | None \<Rightarrow>
             (case e_origin s of
                None \<Rightarrow> EFailed ''run origin missing''
              | Some _ \<Rightarrow> EIter 0 [])))"

definition e_arrive :: "nat \<Rightarrow> estate \<Rightarrow> estate option" where
  "e_arrive t s =
     (if epcs s t \<noteq> Starting then None
      else let s1 = e_notify (s\<lparr>e_ready := Suc (e_ready s)\<rparr>) in Some (set_epc t (e_gate_check s1) s1))"

definition e_recheck :: "nat \<Rightarrow> estate \<Rightarrow> estate option" where
  "e_recheck t s = (if epcs s t = EWait False then Some (set_epc t (e_gate_check s) s) else None)"

text \<open>One iteration; an error returns from the closure, and after the last one it returns its results.\<close>

definition e_measure ::
  "run_config \<Rightarrow> nat \<Rightarrow> (nat \<times> nat \<times> usage_delta) res \<Rightarrow> estate \<Rightarrow> estate option" where
  "e_measure cfg t r s =
     (case epcs s t of
        EIter iter rs \<Rightarrow>
          (if iter < worker_count_of cfg t then
             (case r of
                Inl err \<Rightarrow> Some (set_epc t (EFailed err) s)
              | Inr (start_u, end_u, usage) \<Rightarrow>
                  Some (set_epc t
                    (EIter (Suc iter)
                      (rs @ [into_measurement usage t iter (worker_offset_of cfg t + iter)
                               ''run'' start_u end_u])) s))
           else Some (set_epc t (EDone rs) s))
      | _ \<Rightarrow> None)"

definition e_panic :: "run_config \<Rightarrow> nat \<Rightarrow> estate \<Rightarrow> estate option" where
  "e_panic cfg t s =
     (case epcs s t of
        EIter iter rs \<Rightarrow> (if iter < worker_count_of cfg t then Some (set_epc t EPanicked s) else None)
      | _ \<Rightarrow> None)"

definition e_main_gate :: "run_config \<Rightarrow> usage_snapshot res \<Rightarrow> nat \<Rightarrow> estate \<Rightarrow> estate option" where
  "e_main_gate cfg before now s =
     (case e_main s of
        EMReady False \<Rightarrow>
          (if e_ready s < worker_count cfg \<and> e_failure s = None then Some (s\<lparr>e_main := EMReady True\<rparr>)
           else
             (case before of
                Inl err \<Rightarrow> Some (s\<lparr>e_main := EMReturned (Err err)\<rparr>)
              | Inr total_before \<Rightarrow>
                  (if e_origin s \<noteq> None then
                     Some (s\<lparr>e_main := EMReturned (Err ''run origin already initialized'')\<rparr>)
                   else
                     Some (e_notify
                       (s\<lparr>e_origin := Some now, e_start := (e_start s \<or> e_failure s = None),
                          e_main := EMJoin 0 [] now total_before\<rparr>)))))
      | _ \<Rightarrow> None)"

fun e_result :: "epc \<Rightarrow> (measurement list res) option" where
  "e_result (EAborted e) = Some (Err e)"
| "e_result (EFailed e) = Some (Err e)"
| "e_result EPanicked = Some (Err ''worker thread panicked'')"
| "e_result (EDone rs) = Some (Ok rs)"
| "e_result _ = None"

definition e_main_join :: "run_config \<Rightarrow> nat \<Rightarrow> usage_snapshot res \<Rightarrow> estate \<Rightarrow> estate option" where
  "e_main_join cfg now after s =
     (case e_main s of
        EMJoin i acc run_start total_before \<Rightarrow>
          (if i < worker_count cfg then
             (case e_result (epcs s i) of
                None \<Rightarrow> None
              | Some (Inl err) \<Rightarrow> Some (s\<lparr>e_main := EMReturned (Err err)\<rparr>)
              | Some (Inr rs) \<Rightarrow> Some (s\<lparr>e_main := EMJoin (Suc i) (acc @ rs) run_start total_before\<rparr>))
           else
             (let wall = micros_between run_start now in
              (case after of
                 Inl err \<Rightarrow> Some (s\<lparr>e_main := EMReturned (Err err)\<rparr>)
               | Inr total_after \<Rightarrow>
                   Some (s\<lparr>e_main := EMReturned
                     (Ok \<lparr>measurements = acc, wall_us = wall,
                          total_usage = delta_since total_after total_before wall\<rparr>)\<rparr>))))
      | _ \<Rightarrow> None)"

datatype eaction =
    EArrive nat
  | ERecheck nat
  | EMeasure nat "(nat \<times> nat \<times> usage_delta) res"
  | EPanic nat
  | EMainGate "usage_snapshot res" nat
  | EMainJoin nat "usage_snapshot res"
  | ESpurious nat
  | ESpuriousMain

fun e_spurious :: "eaction \<Rightarrow> bool" where
  "e_spurious (ESpurious _) = True"
| "e_spurious ESpuriousMain = True"
| "e_spurious _ = False"

fun e_step :: "run_config \<Rightarrow> eaction \<Rightarrow> estate \<Rightarrow> estate option" where
  "e_step cfg (EArrive t) s = (if t < worker_count cfg then e_arrive t s else None)"
| "e_step cfg (ERecheck t) s = (if t < worker_count cfg then e_recheck t s else None)"
| "e_step cfg (EMeasure t r) s = (if t < worker_count cfg then e_measure cfg t r s else None)"
| "e_step cfg (EPanic t) s = (if t < worker_count cfg then e_panic cfg t s else None)"
| "e_step cfg (EMainGate before now) s = e_main_gate cfg before now s"
| "e_step cfg (EMainJoin now after) s = e_main_join cfg now after s"
| "e_step cfg (ESpurious t) s =
     (if t < worker_count cfg \<and> epcs s t = EWait True then Some (set_epc t (EWait False) s) else None)"
| "e_step cfg ESpuriousMain s =
     (if e_main s = EMReady True then Some (s\<lparr>e_main := EMReady False\<rparr>) else None)"

section \<open>The invariant\<close>

fun arrived :: "epc \<Rightarrow> bool" where
  "arrived Starting = False"
| "arrived _ = True"

fun epc_inv :: "run_config \<Rightarrow> nat \<Rightarrow> bool \<Rightarrow> epc \<Rightarrow> bool" where
  "epc_inv cfg t st Starting = True"
| "epc_inv cfg t st (EWait asleep) = (asleep \<longrightarrow> \<not> st)"
| "epc_inv cfg t st (EAborted e) = False"
| "epc_inv cfg t st (EIter i rs) =
     (st \<and> i \<le> worker_count_of cfg t \<and>
      map instance_id rs = [worker_offset_of cfg t ..< worker_offset_of cfg t + i])"
| "epc_inv cfg t st (EFailed e) = st"
| "epc_inv cfg t st EPanicked = st"
| "epc_inv cfg t st (EDone rs) =
     (st \<and> map instance_id rs =
        [worker_offset_of cfg t ..< worker_offset_of cfg t + worker_count_of cfg t])"

fun empc_inv :: "run_config \<Rightarrow> estate \<Rightarrow> empc \<Rightarrow> bool" where
  "empc_inv cfg s (EMReady asleep) = (\<not> e_start s \<and> (asleep \<longrightarrow> e_ready s < worker_count cfg))"
| "empc_inv cfg s (EMJoin i acc n u) =
     (e_start s \<and> i \<le> worker_count cfg \<and> map instance_id acc = joined_ids cfg i \<and>
      (\<forall>t<i. \<exists>rs. epcs s t = EDone rs))"
| "empc_inv cfg s (EMReturned r) =
     (\<forall>out. r = Ok out \<longrightarrow>
        map instance_id (measurements out) = joined_ids cfg (worker_count cfg) \<and>
        (\<forall>t<worker_count cfg. \<exists>rs. epcs s t = EDone rs))"

definition e_inv :: "run_config \<Rightarrow> estate \<Rightarrow> bool" where
  "e_inv cfg s \<longleftrightarrow>
     e_ready s = count_below (worker_count cfg) arrived (epcs s) \<and>
     e_failure s = None \<and> (e_origin s \<noteq> None) = e_start s \<and>
     (e_start s \<longrightarrow> e_ready s = worker_count cfg) \<and>
     (\<forall>t < worker_count cfg. epc_inv cfg t (e_start s) (epcs s t)) \<and>
     empc_inv cfg s (e_main s)"

section \<open>Preservation\<close>

lemma e_notify_simps [simp]:
  "e_ready (e_notify s) = e_ready s" "e_start (e_notify s) = e_start s"
  "e_failure (e_notify s) = e_failure s" "e_origin (e_notify s) = e_origin s"
  "epcs (e_notify s) t = e_wake (epcs s t)" "e_main (e_notify s) = e_wake_main (e_main s)"
  by (simp_all add: e_notify_def)

lemma set_epc_simps [simp]:
  "e_ready (set_epc t pc s) = e_ready s" "e_start (set_epc t pc s) = e_start s"
  "e_failure (set_epc t pc s) = e_failure s" "e_origin (set_epc t pc s) = e_origin s"
  "epcs (set_epc t pc s) = (epcs s)(t := pc)" "e_main (set_epc t pc s) = e_main s"
  by (simp_all add: set_epc_def)

lemma e_wake_preds [simp]:
  "arrived (e_wake pc) = arrived pc" "e_wake pc = EDone rs \<longleftrightarrow> pc = EDone rs"
  by (cases pc; simp)+

lemma epc_inv_wake: "epc_inv cfg t st pc \<Longrightarrow> st \<longrightarrow> st' \<Longrightarrow> epc_inv cfg t st' (e_wake pc)"
  by (cases pc) auto

lemma e_inv_facts:
  assumes "e_inv cfg s"
  shows "e_ready s = count_below (worker_count cfg) arrived (epcs s)" "e_failure s = None"
    and "e_origin s \<noteq> None \<longleftrightarrow> e_start s" "e_start s \<Longrightarrow> e_ready s = worker_count cfg"
    and "t < worker_count cfg \<Longrightarrow> epc_inv cfg t (e_start s) (epcs s t)"
    and "empc_inv cfg s (e_main s)"
  using assms unfolding e_inv_def by blast+

lemma e_not_started:
  assumes "e_inv cfg s" "t < worker_count cfg" "epcs s t = Starting"
  shows "\<not> e_start s"
proof -
  have "count_below (worker_count cfg) arrived (epcs s) \<noteq> worker_count cfg"
    using assms(2,3) count_below_all [of "worker_count cfg" arrived "epcs s"] by force
  with e_inv_facts(1,4) [OF assms(1)] show ?thesis by auto
qed

text \<open>A worker's move that leaves the shared state as it is.\<close>

lemma e_inv_set_epc:
  assumes "e_inv cfg s" "t < worker_count cfg" "arrived pc = arrived (epcs s t)"
    and "epc_inv cfg t (e_start s) pc" "\<And>rs. epcs s t \<noteq> EDone rs"
  shows "e_inv cfg (set_epc t pc s)"
proof -
  note I = e_inv_facts [OF assms(1)]
  have "empc_inv cfg (set_epc t pc s) (e_main s)"
    using I(6) assms(2,5) by (cases "e_main s") (auto, metis+)
  then show ?thesis
    unfolding e_inv_def using I(1-5) assms(3,4) by (simp add: count_below_upd_same)
qed

text \<open>The main thread's move that leaves the shared state as it is.\<close>

lemma e_inv_set_main:
  assumes "e_inv cfg s" "empc_inv cfg s pc"
  shows "e_inv cfg (s\<lparr>e_main := pc\<rparr>)"
proof -
  have "empc_inv cfg (s\<lparr>e_main := pc\<rparr>) pc" using assms(2) by (cases pc) auto
  with assms(1) show ?thesis by (auto simp: e_inv_def)
qed

lemma e_arrive_inv:
  assumes "e_inv cfg s" "t < worker_count cfg" "e_arrive t s = Some s'"
  shows "e_inv cfg s'"
proof -
  note I = e_inv_facts [OF assms(1)]
  from assms(3) have pc: "epcs s t = Starting" by (simp add: e_arrive_def split: if_splits)
  have ns: "\<not> e_start s" by (rule e_not_started) fact+
  have s': "s' = set_epc t (EWait True) (e_notify (s\<lparr>e_ready := Suc (e_ready s)\<rparr>))"
    using assms(3) pc ns I(2) by (simp add: e_arrive_def e_gate_check_def Let_def)
  have "count_below (worker_count cfg) arrived (epcs s') = Suc (e_ready s)"
    unfolding s' using assms(2) pc I(1)
    by (simp add: e_notify_def, subst count_below_upd_new) (auto intro!: count_below_cong)
  moreover have "epc_inv cfg u (e_start s') (epcs s' u)" if "u < worker_count cfg" for u
    using I(5) [OF that] ns by (auto simp: s' intro: epc_inv_wake)
  moreover have "empc_inv cfg s' (e_main s')"
    using I(6) ns pc assms(2) unfolding s' by (cases "e_main s") force+
  ultimately show ?thesis using I(2,3) ns by (simp add: e_inv_def s')
qed

lemma e_recheck_inv:
  assumes "e_inv cfg s" "t < worker_count cfg" "e_recheck t s = Some s'"
  shows "e_inv cfg s'"
proof -
  from assms(3) have pc: "epcs s t = EWait False" and s': "s' = set_epc t (e_gate_check s) s"
    by (simp_all add: e_recheck_def split: if_splits)
  show ?thesis
    unfolding s' using e_inv_facts(2,3) [OF assms(1)] assms(1,2) pc
    by (intro e_inv_set_epc) (auto simp: e_gate_check_def split: option.splits)
qed

lemma e_measure_inv:
  assumes "e_inv cfg s" "t < worker_count cfg" "e_measure cfg t r s = Some s'"
  shows "e_inv cfg s'"
proof -
  from assms(3) obtain i rs where pc: "epcs s t = EIter i rs"
    by (auto simp: e_measure_def split: epc.splits)
  have "epc_inv cfg t (e_start s) (EIter i rs)" using e_inv_facts(5) [OF assms(1,2)] pc by simp
  then show ?thesis
    using assms pc
    by (auto simp: e_measure_def into_measurement_def intro!: e_inv_set_epc
        split: sum.splits if_splits)
qed

lemma e_panic_inv:
  assumes "e_inv cfg s" "t < worker_count cfg" "e_panic cfg t s = Some s'"
  shows "e_inv cfg s'"
  using e_inv_facts(5) [OF assms(1,2)] assms
  by (auto simp: e_panic_def intro!: e_inv_set_epc split: epc.splits if_splits)

lemma e_main_gate_inv:
  assumes "e_inv cfg s" "e_main_gate cfg before now s = Some s'"
  shows "e_inv cfg s'"
proof -
  note I = e_inv_facts [OF assms(1)]
  from assms(2) have pc: "e_main s = EMReady False"
    by (auto simp: e_main_gate_def split: empc.splits bool.splits)
  with I(6) have ns: "\<not> e_start s" by simp
  have le: "e_ready s \<le> worker_count cfg" using I(1) count_below_le by simp
  let ?go = "\<lambda>tb. s\<lparr>e_origin := Some now, e_start := True, e_main := EMJoin 0 [] now tb\<rparr>"
  consider (wait) "e_ready s < worker_count cfg" "s' = s\<lparr>e_main := EMReady True\<rparr>"
    | (err) e where "s' = s\<lparr>e_main := EMReturned (Err e)\<rparr>"
    | (go) tb where "e_ready s = worker_count cfg" "s' = e_notify (?go tb)"
    using assms(2) pc I(2) le by (fastforce simp: e_main_gate_def split: if_splits sum.splits)
  then show ?thesis
  proof cases
    case wait
    with assms(1) ns show ?thesis by (auto intro: e_inv_set_main)
  next
    case err
    with assms(1) show ?thesis by (auto intro: e_inv_set_main)
  next
    case (go tb)
    have "count_below (worker_count cfg) arrived (epcs s') = e_ready s"
      using I(1) go(2) by (auto intro!: count_below_cong)
    then show ?thesis
      using I(2) ns go I(5) [THEN epc_inv_wake] by (simp add: e_inv_def joined_ids_def)
  qed
qed

lemma e_result_Ok: "e_result pc = Some (Ok rs) \<longleftrightarrow> pc = EDone rs"
  by (cases pc) auto

lemma e_main_join_inv:
  assumes "e_inv cfg s" "e_main_join cfg now after s = Some s'"
  shows "e_inv cfg s'"
proof -
  from assms(2) obtain i acc n u where pc: "e_main s = EMJoin i acc n u"
    by (auto simp: e_main_join_def split: empc.splits)
  have m: "empc_inv cfg s (EMJoin i acc n u)" using e_inv_facts(6) [OF assms(1)] pc by simp
  show ?thesis
  proof (cases "i < worker_count cfg")
    case True
    have w: "epc_inv cfg i (e_start s) (epcs s i)" by (rule e_inv_facts(5) [OF assms(1) True])
    show ?thesis
      using assms pc m w True
      by (auto simp: e_main_join_def e_result_Ok joined_ids_def less_Suc_eq intro!: e_inv_set_main
          split: option.splits sum.splits)
  next
    case False
    with assms pc m show ?thesis
      by (auto simp: e_main_join_def Let_def intro!: e_inv_set_main split: sum.splits)
  qed
qed

lemma e_inv_init: "e_inv cfg e_init"
  by (simp add: e_inv_def e_init_def)

lemma e_step_inv: "e_inv cfg s \<Longrightarrow> e_step cfg a s = Some s' \<Longrightarrow> e_inv cfg s'"
proof (cases a)
  case (ESpurious t)
  assume "e_inv cfg s" "e_step cfg a s = Some s'"
  with ESpurious show ?thesis by (auto intro!: e_inv_set_epc split: if_splits)
next
  case ESpuriousMain
  assume I: "e_inv cfg s" and "e_step cfg a s = Some s'"
  with ESpuriousMain e_inv_facts(6) [OF I] show ?thesis
    by (auto intro!: e_inv_set_main split: if_splits)
qed (auto split: if_splits
      intro: e_arrive_inv e_recheck_inv e_measure_inv e_panic_inv e_main_gate_inv e_main_join_inv)

interpretation external: machine_invariant "e_step cfg" e_init "e_inv cfg" for cfg
  by unfold_locales (rule e_inv_init, rule e_step_inv)

lemma e_reachable_inv: "reaches (e_step cfg) e_init s \<Longrightarrow> e_inv cfg s"
  by (rule external.invar_reachable)

section \<open>What a run reports\<close>

definition e_run :: "eaction list" where
  "e_run =
     [EArrive 0, EMainGate (Ok (snap_example 0 0)) 0, ERecheck 0, EMeasure 0 (Ok (1, 4, usage_zero)),
      EMeasure 0 (Err []), EMainJoin 0 (Err []), EMainJoin 9000 (Ok (snap_example 0 0))]"

lemmas e_eval = one_worker_def worker_count_def e_init_def e_arrive_def e_gate_check_def e_notify_def
  set_epc_def e_main_gate_def e_recheck_def e_measure_def e_main_join_def worker_count_of_def
  worker_offset_of_def iteration_count_def iteration_offset_def Let_def

lemma e_run_reaches:
  "\<exists>s out. exec_all (e_step one_worker) e_run e_init = Some s \<and> e_main s = EMReturned (Ok out)"
  by (simp add: e_run_def e_eval)

text \<open>
  C21: a successful run of the driver without preparation returns the measurements of the
  instances \<open>0, ..., total - 1\<close>, each exactly once and in order, and every worker has finished.
\<close>

theorem external_reports_every_instance:
  assumes "reaches (e_step cfg) e_init s" "e_main s = EMReturned (Ok out)"
    and "0 < worker_count cfg" "total cfg \<le> u64_max"
  shows "map instance_id (measurements out) = [0..<total cfg] \<and>
         (\<forall>t<worker_count cfg. \<exists>rs. epcs s t = EDone rs)"
  using e_inv_facts(6) [OF e_reachable_inv [OF assms(1)]] assms(2) joined_ids_all [OF assms(3,4)]
  by simp

theorem external_reports_every_instance_witness:
  "\<exists>(s::estate) out. e_main s = EMReturned (Ok out) \<and>
     (map instance_id (measurements out) = [0..<total one_worker] \<and>
      (\<forall>t<worker_count one_worker. \<exists>rs. epcs s t = EDone rs))"
proof -
  obtain s out where s: "exec_all (e_step one_worker) e_run e_init = Some s"
    "e_main s = EMReturned (Ok out)" using e_run_reaches by blast
  have "map instance_id (measurements out) = [0..<total one_worker] \<and>
      (\<forall>t<worker_count one_worker. \<exists>rs. epcs s t = EDone rs)"
    by (rule external_reports_every_instance [OF exec_all_reaches [OF s(1)] s(2)])
       (simp_all add: worker_count_def one_worker_def u64_max_def)
  with s(2) show ?thesis by blast
qed

section \<open>Failures are reported\<close>

lemma failed_worker_stays:
  assumes "e_step cfg a s = Some s'" "epcs s t = EFailed e \<or> epcs s t = EPanicked"
  shows "epcs s' t = epcs s t"
  using assms
  by (cases a)
     (auto simp: e_arrive_def e_recheck_def e_measure_def e_panic_def e_main_gate_def e_main_join_def
        Let_def split: if_splits sum.splits epc.splits empc.splits bool.splits option.splits prod.splits)

lemma failed_worker_reaches:
  "reaches (e_step cfg) s s' \<Longrightarrow> epcs s t = EFailed e \<or> epcs s t = EPanicked \<Longrightarrow>
     epcs s' t = epcs s t"
  by (induction rule: reaches.induct) (auto dest: failed_worker_stays)

text \<open>
  A worker that is awake and has not returned can take its next step.
\<close>

fun e_can_move :: "epc \<Rightarrow> bool" where
  "e_can_move Starting = True"
| "e_can_move (EWait asleep) = (\<not> asleep)"
| "e_can_move (EIter _ _) = True"
| "e_can_move _ = False"

lemma e_can_move_step:
  assumes "t < worker_count cfg" "e_can_move (epcs s t)"
  shows "\<exists>a s'. \<not> e_spurious a \<and> e_step cfg a s = Some s'"
proof (cases "epcs s t")
  case Starting
  with assms show ?thesis by (intro exI [of _ "EArrive t"]) (simp add: e_arrive_def Let_def)
next
  case (EWait b)
  with assms show ?thesis by (intro exI [of _ "ERecheck t"]) (simp add: e_recheck_def)
next
  case (EIter i rs)
  with assms show ?thesis by (intro exI [of _ "EMeasure t (Err [])"]) (simp add: e_measure_def)
qed (use assms in auto)

text \<open>Whatever the main thread waits for, a worker can still bring about.\<close>

lemma e_main_progress:
  assumes I: "e_inv cfg s" and stuck: "\<And>t. t < worker_count cfg \<Longrightarrow> \<not> e_can_move (epcs s t)"
    and main: "\<nexists>r. e_main s = EMReturned r"
  shows "\<exists>a s'. \<not> e_spurious a \<and> e_step cfg a s = Some s'"
proof (cases "e_main s")
  case (EMReady asleep)
  have "\<forall>t<worker_count cfg. arrived (epcs s t)"
    using stuck by (metis arrived.elims(3) e_can_move.simps(1))
  then have "e_ready s = worker_count cfg" using e_inv_facts(1) [OF I] by (simp add: count_below_all)
  with e_inv_facts(6) [OF I] EMReady have "e_main s = EMReady False" by simp
  then show ?thesis
    by (intro exI [of _ "EMainGate (Err []) 0"]) (simp add: e_main_gate_def)
next
  case (EMJoin i acc n u)
  with e_inv_facts(6) [OF I] have st: "e_start s" by simp
  have "e_result (epcs s i) \<noteq> None" if "i < worker_count cfg"
    using e_inv_facts(5) [OF I that] stuck [OF that] st by (cases "epcs s i") auto
  with EMJoin show ?thesis
    by (intro exI [of _ "EMainJoin 0 (Err [])"])
       (auto simp: e_main_join_def Let_def split: option.splits sum.splits)
qed (use main in auto)

section \<open>Termination\<close>

fun erank :: "run_config \<Rightarrow> nat \<Rightarrow> epc \<Rightarrow> nat" where
  "erank cfg t Starting = (worker_count cfg + 2) + worker_count_of cfg t + 3"
| "erank cfg t (EWait asleep) = worker_count_of cfg t + 2 + (if asleep then 0 else 1)"
| "erank cfg t (EIter i rs) = worker_count_of cfg t - i + 1"
| "erank cfg t _ = 0"

fun emrank :: "run_config \<Rightarrow> empc \<Rightarrow> nat" where
  "emrank cfg (EMReady asleep) = 2 * worker_count cfg + 4 + (if asleep then 0 else 1)"
| "emrank cfg (EMJoin i acc n u) = worker_count cfg - i + 1"
| "emrank cfg (EMReturned r) = 0"

definition e_rank :: "run_config \<Rightarrow> estate \<Rightarrow> nat" where
  "e_rank cfg s = (\<Sum>t<worker_count cfg. erank cfg t (epcs s t)) + emrank cfg (e_main s)"

lemma e_rank_set_epc:
  "t < worker_count cfg \<Longrightarrow>
     e_rank cfg (set_epc t pc s) + erank cfg t (epcs s t) = e_rank cfg s + erank cfg t pc"
  using sum_upd [of t "worker_count cfg" "erank cfg" "epcs s" pc] by (simp add: e_rank_def)

lemma e_rank_notify: "e_rank cfg (e_notify s) \<le> e_rank cfg s + worker_count cfg + 1"
proof -
  let ?n = "worker_count cfg"
  have "(\<Sum>t<?n. erank cfg t (e_wake (epcs s t))) \<le> (\<Sum>t<?n. erank cfg t (epcs s t)) + ?n"
    by (rule sum_le_plus) (rename_tac t, case_tac "epcs s t"; simp)
  moreover have "emrank cfg (e_wake_main (e_main s)) \<le> emrank cfg (e_main s) + 1"
    by (cases "e_main s") simp_all
  ultimately show ?thesis by (simp add: e_rank_def)
qed

lemma e_rank_main:
  "e_rank cfg (s\<lparr>e_main := pc\<rparr>) + emrank cfg (e_main s) = e_rank cfg s + emrank cfg pc"
  "e_rank cfg (s\<lparr>e_origin := x, e_start := y, e_main := pc\<rparr>) + emrank cfg (e_main s)
     = e_rank cfg s + emrank cfg pc"
  by (simp_all add: e_rank_def)

lemma e_rank_move:
  assumes "t < worker_count cfg" "erank cfg t pc < erank cfg t (epcs s t)"
  shows "e_rank cfg (set_epc t pc s) < e_rank cfg s"
  using e_rank_set_epc [OF assms(1), of pc s] assms(2) by linarith

lemma e_gate_check_rank: "erank cfg t (e_gate_check s) \<le> worker_count_of cfg t + 2"
  by (simp add: e_gate_check_def split: option.split)

lemma e_rank_arrive:
  assumes "t < worker_count cfg" "e_arrive t s = Some s'"
  shows "e_rank cfg s' < e_rank cfg s"
proof -
  let ?s1 = "e_notify (s\<lparr>e_ready := Suc (e_ready s)\<rparr>)"
  have pc: "epcs s t = Starting" and s': "s' = set_epc t (e_gate_check ?s1) ?s1"
    using assms(2) by (auto simp: e_arrive_def Let_def split: if_splits)
  have "e_rank cfg (s\<lparr>e_ready := Suc (e_ready s)\<rparr>) = e_rank cfg s" by (simp add: e_rank_def)
  with e_rank_notify [of cfg "s\<lparr>e_ready := Suc (e_ready s)\<rparr>"]
    e_rank_set_epc [OF assms(1), of "e_gate_check ?s1" ?s1] e_gate_check_rank [of cfg t ?s1]
  show ?thesis by (simp add: s' pc)
qed

lemma e_rank_main_gate:
  assumes "e_main_gate cfg before now s = Some s'"
  shows "e_rank cfg s' < e_rank cfg s"
proof -
  have notify: "e_rank cfg (e_notify (s\<lparr>e_origin := x, e_start := y, e_main := EMJoin 0 [] now tb\<rparr>))
      < e_rank cfg s" if "e_main s = EMReady False" for x y tb
    using e_rank_main(2) [where cfg = cfg and s = s and x = x and y = y and pc = "EMJoin 0 [] now tb"]
      e_rank_notify [of cfg "s\<lparr>e_origin := x, e_start := y, e_main := EMJoin 0 [] now tb\<rparr>"] that
    by simp
  have step: "e_rank cfg (s\<lparr>e_main := pc\<rparr>) < e_rank cfg s"
    if "emrank cfg pc < emrank cfg (e_main s)" for pc
    using e_rank_main(1) [where cfg = cfg and s = s and pc = pc] that by linarith
  show ?thesis
    using assms
    by (auto simp: e_main_gate_def intro!: step notify
        split: empc.splits bool.splits if_splits sum.splits)
qed

lemma e_rank_main_join:
  assumes "e_main_join cfg now after s = Some s'"
  shows "e_rank cfg s' < e_rank cfg s"
proof -
  have step: "e_rank cfg (s\<lparr>e_main := pc\<rparr>) < e_rank cfg s"
    if "emrank cfg pc < emrank cfg (e_main s)" for pc
    using e_rank_main(1) [where cfg = cfg and s = s and pc = pc] that by linarith
  show ?thesis
    using assms
    by (auto simp: e_main_join_def Let_def intro!: step
        split: empc.splits if_splits option.splits sum.splits)
qed

lemma e_rank_worker:
  assumes "t < worker_count cfg"
  shows "e_recheck t s = Some s' \<Longrightarrow> e_rank cfg s' < e_rank cfg s"
    and "e_measure cfg t r s = Some s' \<Longrightarrow> e_rank cfg s' < e_rank cfg s"
    and "e_panic cfg t s = Some s' \<Longrightarrow> e_rank cfg s' < e_rank cfg s"
  using assms e_gate_check_rank [of cfg t s]
  by (auto simp: e_recheck_def e_measure_def e_panic_def intro!: e_rank_move
      split: if_splits epc.splits sum.splits)

interpretation ranked_external:
  ranked_machine "e_step cfg" e_init "e_inv cfg" "e_rank cfg" "\<lambda>a. \<not> e_spurious a" for cfg
proof unfold_locales
  fix s a s'
  assume "e_inv cfg s" "\<not> e_spurious a" "e_step cfg a s = Some s'"
  then show "e_rank cfg s' < e_rank cfg s"
    by (cases a)
       (auto intro: e_rank_worker e_rank_arrive e_rank_main_gate e_rank_main_join split: if_splits)
qed

lemma e_rank_init:
  assumes "0 < worker_count cfg"
  shows "e_rank cfg e_init = worker_count cfg * (worker_count cfg + 7) + total cfg + 5"
proof -
  have "(\<Sum>t<worker_count cfg. worker_count_of cfg t) = total cfg"
    using assms iteration_count_balanced_sum [of "worker_count cfg" "total cfg"]
    by (simp add: worker_count_of_def)
  then show ?thesis by (simp add: e_rank_def e_init_def sum.distrib algebra_simps)
qed

text \<open>
  C22: the driver without preparation always returns. Apart from spurious wake-ups a run has at
  most \<open>n (n + 7) + total + 5\<close> steps for \<open>n\<close> workers, and as long as the main thread has not
  returned some thread can step, whatever the operations return and whichever of them panic.
\<close>

theorem external_always_returns:
  assumes "exec_all (e_step cfg) as e_init = Some s" "list_all (\<lambda>a. \<not> e_spurious a) as"
    and "0 < worker_count cfg"
  shows "length as \<le> worker_count cfg * (worker_count cfg + 7) + total cfg + 5 \<and>
         ((\<exists>r. e_main s = EMReturned r) \<or> (\<exists>a s'. \<not> e_spurious a \<and> e_step cfg a s = Some s'))"
proof
  show "length as \<le> worker_count cfg * (worker_count cfg + 7) + total cfg + 5"
    using ranked_external.exec_all_rank [OF e_inv_init assms(1,2)] e_rank_init [OF assms(3)] by simp
  have "e_inv cfg s" by (rule external.invar_exec_all) (rule assms(1))
  then show "(\<exists>r. e_main s = EMReturned r) \<or> (\<exists>a s'. \<not> e_spurious a \<and> e_step cfg a s = Some s')"
    using e_main_progress e_can_move_step by blast
qed

theorem external_always_returns_witness:
  "\<exists>s. exec_all (e_step one_worker) [EArrive 0] e_init = Some s \<and>
     (length [EArrive 0] \<le> worker_count one_worker * (worker_count one_worker + 7) + total one_worker + 5 \<and>
      ((\<exists>r. e_main s = EMReturned r) \<or> (\<exists>a s'. \<not> e_spurious a \<and> e_step one_worker a s = Some s')))"
proof -
  have "\<exists>s. exec_all (e_step one_worker) [EArrive 0] e_init = Some s" by (simp add: e_eval)
  then obtain s where s: "exec_all (e_step one_worker) [EArrive 0] e_init = Some s" by blast
  have w: "0 < worker_count one_worker" by (simp add: worker_count_def one_worker_def)
  have "list_all (\<lambda>a. \<not> e_spurious a) [EArrive 0]" by simp
  from external_always_returns [OF s this w] s show ?thesis by blast
qed

text \<open>
  C23: a failed operation is reported. Once a worker has left with an error or a panic, every
  return of the main thread from then on is an error (and by the previous theorem it does
  return): this driver has no finish gate, and does not hang where the one with preparation does.
\<close>

theorem external_failure_reported:
  assumes "reaches (e_step cfg) e_init s" "t < worker_count cfg"
    and "epcs s t = EFailed e \<or> epcs s t = EPanicked"
    and "reaches (e_step cfg) s s'" "e_main s' = EMReturned r"
  shows "\<exists>err. r = Err err"
proof (rule ccontr)
  assume "\<nexists>err. r = Err err"
  then obtain out where "r = Ok out" by (cases r) auto
  moreover have "e_inv cfg s'" using assms(1,4) by (blast intro: e_reachable_inv reaches_trans)
  ultimately have "\<exists>rs. epcs s' t = EDone rs" using e_inv_facts(6) assms(2,5) by fastforce
  with failed_worker_reaches [OF assms(4,3)] assms(3) show False by auto
qed

definition e_failing_run :: "eaction list" where
  "e_failing_run =
     [EArrive 0, EMainGate (Ok (snap_example 0 0)) 0, ERecheck 0, EMeasure 0 (Err ''boom''),
      EMainJoin 0 (Err [])]"

lemma e_failing_run_reaches:
  "\<exists>s. exec_all (e_step one_worker) e_failing_run e_init = Some s \<and> epcs s 0 = EFailed ''boom'' \<and>
     e_main s = EMReturned (Err ''boom'')"
  by (simp add: e_failing_run_def e_eval)

theorem external_failure_reported_witness:
  "\<exists>s::estate. epcs s 0 = EFailed ''boom'' \<and> e_main s = EMReturned (Err ''boom'') \<and>
     (\<exists>err. (Err ''boom'' :: run_output res) = Err err)"
proof -
  obtain s where s: "exec_all (e_step one_worker) e_failing_run e_init = Some s"
    "epcs s 0 = EFailed ''boom''" "e_main s = EMReturned (Err ''boom'')"
    using e_failing_run_reaches by blast
  have w: "0 < worker_count one_worker" by (simp add: worker_count_def one_worker_def)
  from external_failure_reported [OF exec_all_reaches [OF s(1)] w disjI1 [OF s(2)] reaches_refl s(3)]
  show ?thesis using s(2,3) by blast
qed

end
