(* ===== verification/Netns.thy ===== *)
theory Netns
  imports Bench_Ops
begin

text \<open>
  Network namespaces of the benchmark, src/restore-motivation/src/ops/netns: the names and
  subnets of an instance (instance.rs), the privileged command lines (command.rs), the set-up
  stages and the clean-up (spec.rs), the measured operation that runs them all (full_shell.rs)
  and the namespace context of a virtual machine (vm.rs). Programs started by
  \<open>Command::status\<close> and \<open>Command::output\<close>, opened files, \<open>setns\<close>, the effective user and the
  wall clock belong to the host: they are fields of a record the operations take. The process
  keeps the run token and the two sequence counters. Closing a \<open>File\<close> when it is dropped is
  not modelled.
\<close>

section \<open>Host and process\<close>

text \<open>
  \<open>h_status\<close> and \<open>h_output\<close> give an error when the program cannot be started, and otherwise
  the exit code, \<open>None\<close> for a program ended by a signal; the output is its bytes.
\<close>

record 'w netns_host =
  h_root :: bool
  h_status :: "string list \<Rightarrow> 'w \<Rightarrow> (string + int option) \<times> 'w"
  h_output :: "string list \<Rightarrow> 'w \<Rightarrow> (string + int option \<times> string) \<times> 'w"
  h_utf8_error :: "string \<Rightarrow> string"
  h_open :: "string \<Rightarrow> 'w \<Rightarrow> (string + nat) \<times> 'w"
  h_setns :: "nat \<Rightarrow> 'w \<Rightarrow> (string + unit) \<times> 'w"
  h_unix_nanos :: "'w \<Rightarrow> nat \<times> 'w"

record 'w netns_proc =
  run_token_cell :: "string option"
  next_seq_shell :: nat
  next_seq_vm :: nat
  host_world :: 'w

text \<open>A call of the host from the process.\<close>

definition on_host :: "('w \<Rightarrow> 'b \<times> 'w) \<Rightarrow> 'w netns_proc \<Rightarrow> 'b \<times> 'w netns_proc" where
  "on_host f p = (case f (host_world p) of (r, w) \<Rightarrow> (r, p\<lparr>host_world := w\<rparr>))"

lemma on_host_keeps [simp]:
  "run_token_cell (snd (on_host f p)) = run_token_cell p"
  "next_seq_shell (snd (on_host f p)) = next_seq_shell p"
  "next_seq_vm (snd (on_host f p)) = next_seq_vm p"
  by (simp_all add: on_host_def split: prod.split)

section \<open>Instances\<close>

record netns_instance =
  namespace :: string
  host_veth :: string
  host_veth_cidr :: string
  host_veth_gateway :: string
  ns_veth_cidr :: string
  veth_network :: string

definition token_of_nanos :: "nat \<Rightarrow> string" where
  "token_of_nanos now = show_hex (now mod 2 ^ 20)"

text \<open>\<open>run_token\<close>: initialised once per process, by the first caller.\<close>

definition run_token :: "'w netns_host \<Rightarrow> 'w netns_proc \<Rightarrow> string \<times> 'w netns_proc" where
  "run_token H p =
     (case run_token_cell p of
        Some t \<Rightarrow> (t, p)
      | None \<Rightarrow>
          (case on_host (h_unix_nanos H) p of
             (now, p') \<Rightarrow> (token_of_nanos now, p'\<lparr>run_token_cell := Some (token_of_nanos now)\<rparr>)))"

definition octet2 :: "nat \<Rightarrow> nat" where "octet2 seq = 64 + (seq div 256) mod 64"
definition octet3 :: "nat \<Rightarrow> nat" where "octet3 seq = seq mod 256"

definition ip10 :: "nat \<Rightarrow> nat \<Rightarrow> string \<Rightarrow> string" where
  "ip10 a b rest = ''10.'' @ show_nat a @ ''.'' @ show_nat b @ ''.'' @ rest"

definition instance_with :: "string \<Rightarrow> nat \<Rightarrow> netns_instance" where
  "instance_with token seq =
     (let suffix = show_hex seq @ token; a = octet2 seq; b = octet3 seq
      in \<lparr> namespace = take 31 (''fc'' @ suffix),
           host_veth = take 15 (''fcv'' @ suffix),
           host_veth_cidr = ip10 a b ''1/30'',
           host_veth_gateway = ip10 a b ''1'',
           ns_veth_cidr = ip10 a b ''2/30'',
           veth_network = ip10 a b ''0/30'' \<rparr>)"

definition build_instance ::
  "'w netns_host \<Rightarrow> nat \<Rightarrow> 'w netns_proc \<Rightarrow> netns_instance \<times> 'w netns_proc" where
  "build_instance H seq p = (case run_token H p of (t, p') \<Rightarrow> (instance_with t seq, p'))"

text \<open>\<open>fetch_add\<close> of an \<open>AtomicUsize\<close> wraps around.\<close>

definition fetch_add_shell :: "'w netns_proc \<Rightarrow> nat \<times> 'w netns_proc" where
  "fetch_add_shell p = (next_seq_shell p, p\<lparr>next_seq_shell := (next_seq_shell p + 1) mod 2 ^ 64\<rparr>)"

definition fetch_add_vm :: "'w netns_proc \<Rightarrow> nat \<times> 'w netns_proc" where
  "fetch_add_vm p = (next_seq_vm p, p\<lparr>next_seq_vm := (next_seq_vm p + 1) mod 2 ^ 64\<rparr>)"

section \<open>Command lines\<close>

definition privileged_prefix :: "'w netns_host \<Rightarrow> string list" where
  "privileged_prefix H = (if h_root H then [] else [''sudo'', ''-n''])"

definition prefixed :: "'w netns_host \<Rightarrow> string list \<Rightarrow> string list" where
  "prefixed H args = privileged_prefix H @ args"

definition command_netns_add :: "'w netns_host \<Rightarrow> string \<Rightarrow> string list" where
  "command_netns_add H ns = prefixed H [''ip'', ''netns'', ''add'', ns]"

definition host_ip :: "'w netns_host \<Rightarrow> string list \<Rightarrow> string list" where
  "host_ip H args = prefixed H (''ip'' # args)"

definition host_iptables :: "'w netns_host \<Rightarrow> string list \<Rightarrow> string list" where
  "host_iptables H args = prefixed H (''iptables'' # args)"

definition netns_ip :: "'w netns_host \<Rightarrow> string \<Rightarrow> string list \<Rightarrow> string list" where
  "netns_ip H ns args = prefixed H ([''ip'', ''netns'', ''exec'', ns, ''ip''] @ args)"

definition netns_iptables :: "'w netns_host \<Rightarrow> string \<Rightarrow> string list \<Rightarrow> string list" where
  "netns_iptables H ns args = prefixed H ([''ip'', ''netns'', ''exec'', ns, ''iptables''] @ args)"

definition netns_del :: "'w netns_host \<Rightarrow> string \<Rightarrow> string list" where
  "netns_del H ns = prefixed H [''ip'', ''netns'', ''del'', ns]"

section \<open>Running commands\<close>

fun join_words :: "string list \<Rightarrow> string" where
  "join_words [] = []"
| "join_words [x] = x"
| "join_words (x # xs) = x @ '' '' @ join_words xs"

definition show_int :: "int \<Rightarrow> string" where
  "show_int i = (if i < 0 then ''-'' @ show_nat (nat (- i)) else show_nat (nat i))"

fun show_code :: "int option \<Rightarrow> string" where
  "show_code None = ''None''"
| "show_code (Some c) = ''Some('' @ show_int c @ '')''"

text \<open>\<open>run_command\<close>; \<open>args\<close> is not empty at any call.\<close>

definition run_command :: "'w netns_host \<Rightarrow> string list \<Rightarrow> bool \<Rightarrow> ('w netns_proc, unit) io" where
  "run_command H args allow_failure p =
     (case on_host (h_status H args) p of
        (Inl err, p') \<Rightarrow> (Err (''spawn failed for '' @ join_words args @ '': '' @ err), p')
      | (Inr code, p') \<Rightarrow>
          (if code = Some 0 \<or> allow_failure then (Ok (), p')
           else (Err (''command failed with status '' @ show_code code @ '': '' @ join_words args), p')))"

text \<open>
  \<open>String::from_utf8\<close> accepts the well-formed byte sequences of the Unicode standard; the text
  of its error is a field of the host.
\<close>

definition in_range :: "nat \<Rightarrow> nat \<Rightarrow> char \<Rightarrow> bool" where
  "in_range lo hi c = (lo \<le> of_char c \<and> of_char c \<le> hi)"

definition utf8_two :: "char \<Rightarrow> char \<Rightarrow> bool" where
  "utf8_two a b = (in_range 0xC2 0xDF a \<and> in_range 0x80 0xBF b)"

definition utf8_three :: "char \<Rightarrow> char \<Rightarrow> char \<Rightarrow> bool" where
  "utf8_three a b c =
     (in_range 0x80 0xBF c \<and>
      (in_range 0xE0 0xE0 a \<and> in_range 0xA0 0xBF b \<or> in_range 0xE1 0xEC a \<and> in_range 0x80 0xBF b \<or>
       in_range 0xED 0xED a \<and> in_range 0x80 0x9F b \<or> in_range 0xEE 0xEF a \<and> in_range 0x80 0xBF b))"

definition utf8_four :: "char \<Rightarrow> char \<Rightarrow> char \<Rightarrow> char \<Rightarrow> bool" where
  "utf8_four a b c d =
     (in_range 0x80 0xBF c \<and> in_range 0x80 0xBF d \<and>
      (in_range 0xF0 0xF0 a \<and> in_range 0x90 0xBF b \<or> in_range 0xF1 0xF3 a \<and> in_range 0x80 0xBF b \<or>
       in_range 0xF4 0xF4 a \<and> in_range 0x80 0x8F b))"

fun utf8_valid :: "string \<Rightarrow> bool" where
  "utf8_valid [] = True"
| "utf8_valid (a # s) =
     (if of_char a < (0x80 :: nat) then utf8_valid s
      else case s of
        b # s1 \<Rightarrow>
          (if utf8_two a b then utf8_valid s1
           else case s1 of
             c # s2 \<Rightarrow>
               (if utf8_three a b c then utf8_valid s2
                else case s2 of
                  d # s3 \<Rightarrow> utf8_four a b c d \<and> utf8_valid s3
                | [] \<Rightarrow> False)
           | [] \<Rightarrow> False)
      | [] \<Rightarrow> False)"

definition from_utf8 :: "'w netns_host \<Rightarrow> string \<Rightarrow> string res" where
  "from_utf8 H bytes = (if utf8_valid bytes then Ok bytes else Err (h_utf8_error H bytes))"

text \<open>\<open>str::find\<close> of a pattern.\<close>

fun find_sub :: "string \<Rightarrow> string \<Rightarrow> nat option" where
  "find_sub pat [] = (if pat = [] then Some 0 else None)"
| "find_sub pat (c # s) =
     (if take (length pat) (c # s) = pat then Some 0 else map_option Suc (find_sub pat s))"

definition dev_marker :: string where
  "dev_marker = [CHR 0x22] @ ''dev'' @ [CHR 0x22] @ '':'' @ [CHR 0x22]"

definition parse_route_device :: "string \<Rightarrow> string res" where
  "parse_route_device stdout =
     (case find_sub dev_marker stdout of
        None \<Rightarrow> Err ''could not detect default egress device''
      | Some start \<Rightarrow>
          (let rest = drop (start + length dev_marker) stdout
           in (case find_sub [CHR 0x22] rest of
                 None \<Rightarrow> Err ''could not parse default egress device''
               | Some stop \<Rightarrow> Ok (take stop rest))))"

definition detect_upstream_device :: "'w netns_host \<Rightarrow> ('w netns_proc, string) io" where
  "detect_upstream_device H p =
     (case on_host (h_output H [''ip'', ''-j'', ''route'', ''list'', ''default'']) p of
        (Inl err, p') \<Rightarrow> (Err (''failed to run ip route: '' @ err), p')
      | (Inr (code, stdout), p') \<Rightarrow>
          (if code \<noteq> Some 0 then (Err (''ip route failed with status '' @ show_code code), p')
           else
             (rbind (map_err (\<lambda>e. ''ip route output was not utf8: '' @ e) (from_utf8 H stdout))
                parse_route_device, p')))"

section \<open>Stages\<close>

definition TAP_NAME :: string where "TAP_NAME = ''tap0''"
definition NS_VETH_NAME :: string where "NS_VETH_NAME = ''veth0''"
definition TAP_CIDR :: string where "TAP_CIDR = ''172.16.0.1/30''"
definition TAP_NAT_CIDR :: string where "TAP_NAT_CIDR = ''172.16.0.1/30''"

type_synonym 'w build_fn = "'w netns_host \<Rightarrow> netns_instance \<Rightarrow> string \<Rightarrow> string list"

record 'w stage_rec =
  stage_name :: string
  allow_failure :: bool
  build :: "'w build_fn"

definition netns_add :: "'w build_fn" where
  "netns_add H inst upstream = command_netns_add H (namespace inst)"

definition tap_add :: "'w build_fn" where
  "tap_add H inst upstream =
     netns_ip H (namespace inst) [''tuntap'', ''add'', ''dev'', TAP_NAME, ''mode'', ''tap'']"

definition tap_addr :: "'w build_fn" where
  "tap_addr H inst upstream =
     netns_ip H (namespace inst) [''addr'', ''add'', TAP_CIDR, ''dev'', TAP_NAME]"

definition tap_up :: "'w build_fn" where
  "tap_up H inst upstream = netns_ip H (namespace inst) [''link'', ''set'', TAP_NAME, ''up'']"

definition veth_add :: "'w build_fn" where
  "veth_add H inst upstream =
     host_ip H [''link'', ''add'', ''name'', host_veth inst, ''type'', ''veth'', ''peer'', ''name'',
                NS_VETH_NAME, ''netns'', namespace inst]"

definition ns_veth_addr :: "'w build_fn" where
  "ns_veth_addr H inst upstream =
     netns_ip H (namespace inst) [''addr'', ''add'', ns_veth_cidr inst, ''dev'', NS_VETH_NAME]"

definition ns_veth_up :: "'w build_fn" where
  "ns_veth_up H inst upstream =
     netns_ip H (namespace inst) [''link'', ''set'', ''dev'', NS_VETH_NAME, ''up'']"

definition host_veth_addr :: "'w build_fn" where
  "host_veth_addr H inst upstream =
     host_ip H [''addr'', ''add'', host_veth_cidr inst, ''dev'', host_veth inst]"

definition host_veth_up :: "'w build_fn" where
  "host_veth_up H inst upstream = host_ip H [''link'', ''set'', ''dev'', host_veth inst, ''up'']"

definition route_add :: "'w build_fn" where
  "route_add H inst upstream =
     netns_ip H (namespace inst) [''route'', ''add'', ''default'', ''via'', host_veth_gateway inst]"

definition ns_nat :: "'w build_fn" where
  "ns_nat H inst upstream =
     netns_iptables H (namespace inst)
       [''-t'', ''nat'', ''-A'', ''POSTROUTING'', ''-s'', TAP_NAT_CIDR, ''-o'', NS_VETH_NAME,
        ''-j'', ''MASQUERADE'']"

definition host_nat :: "'w build_fn" where
  "host_nat H inst upstream =
     host_iptables H
       [''-t'', ''nat'', ''-A'', ''POSTROUTING'', ''-s'', veth_network inst, ''-o'', upstream,
        ''-j'', ''MASQUERADE'']"

definition forward_accept :: "'w build_fn" where
  "forward_accept H inst upstream =
     netns_iptables H (namespace inst) [''-P'', ''FORWARD'', ''ACCEPT'']"

definition delete_host_nat :: "'w build_fn" where
  "delete_host_nat H inst upstream =
     host_iptables H
       [''-t'', ''nat'', ''-D'', ''POSTROUTING'', ''-s'', veth_network inst, ''-o'', upstream,
        ''-j'', ''MASQUERADE'']"

definition STAGES :: "'w stage_rec list" where
  "STAGES =
     [\<lparr>stage_name = ''netns_add'', allow_failure = False, build = netns_add\<rparr>,
      \<lparr>stage_name = ''tap_add'', allow_failure = False, build = tap_add\<rparr>,
      \<lparr>stage_name = ''tap_addr'', allow_failure = False, build = tap_addr\<rparr>,
      \<lparr>stage_name = ''tap_up'', allow_failure = False, build = tap_up\<rparr>,
      \<lparr>stage_name = ''veth_add'', allow_failure = False, build = veth_add\<rparr>,
      \<lparr>stage_name = ''ns_veth_addr'', allow_failure = False, build = ns_veth_addr\<rparr>,
      \<lparr>stage_name = ''ns_veth_up'', allow_failure = False, build = ns_veth_up\<rparr>,
      \<lparr>stage_name = ''host_veth_addr'', allow_failure = False, build = host_veth_addr\<rparr>,
      \<lparr>stage_name = ''host_veth_up'', allow_failure = False, build = host_veth_up\<rparr>,
      \<lparr>stage_name = ''route_add'', allow_failure = False, build = route_add\<rparr>,
      \<lparr>stage_name = ''ns_nat'', allow_failure = False, build = ns_nat\<rparr>,
      \<lparr>stage_name = ''host_nat'', allow_failure = False, build = host_nat\<rparr>,
      \<lparr>stage_name = ''forward_accept'', allow_failure = False, build = forward_accept\<rparr>]"

text \<open>The three commands of \<open>cleanup\<close>; every outcome is ignored.\<close>

definition cleanup_commands :: "'w netns_host \<Rightarrow> netns_instance \<Rightarrow> string \<Rightarrow> string list list" where
  "cleanup_commands H inst upstream =
     [delete_host_nat H inst upstream, host_ip H [''link'', ''del'', host_veth inst],
      netns_del H (namespace inst)]"

fun run_ignoring :: "'w netns_host \<Rightarrow> string list list \<Rightarrow> 'w netns_proc \<Rightarrow> 'w netns_proc" where
  "run_ignoring H [] p = p"
| "run_ignoring H (c # cs) p = run_ignoring H cs (snd (run_command H c True p))"

definition cleanup :: "'w netns_host \<Rightarrow> netns_instance \<Rightarrow> string \<Rightarrow> 'w netns_proc \<Rightarrow> 'w netns_proc" where
  "cleanup H inst upstream = run_ignoring H (cleanup_commands H inst upstream)"

text \<open>The \<open>for\<close> loop over the stages with \<open>?\<close>; \<open>wrap\<close> is what the caller does to the error.\<close>

fun run_stages ::
  "'w netns_host \<Rightarrow> ('w stage_rec \<Rightarrow> string \<Rightarrow> string) \<Rightarrow> netns_instance \<Rightarrow> string \<Rightarrow>
     'w stage_rec list \<Rightarrow> ('w netns_proc, unit) io" where
  "run_stages H wrap inst upstream [] = io_return ()"
| "run_stages H wrap inst upstream (st # sts) =
     io_bind (io_map_err (wrap st) (run_command H (build st H inst upstream) (allow_failure st)))
       (\<lambda>_. run_stages H wrap inst upstream sts)"

section \<open>The measured operation\<close>

text \<open>\<open>full_shell::run\<close>\<close>

definition run_full_shell :: "'w netns_host \<Rightarrow> ('w netns_proc, unit) io" where
  "run_full_shell H p0 =
     (case fetch_add_shell p0 of (seq, p1) \<Rightarrow>
      case build_instance H seq p1 of (inst, p2) \<Rightarrow>
      case detect_upstream_device H p2 of
        (Inl e, p3) \<Rightarrow> (Err e, p3)
      | (Inr upstream, p3) \<Rightarrow>
          (case run_stages H (\<lambda>_ e. e) inst upstream STAGES p3 of
             (result, p4) \<Rightarrow> (result, cleanup H inst upstream p4)))"

section \<open>Namespaces of virtual machines\<close>

datatype vm_netns_cleanup = Minimal | Full string

record vm_netns_context =
  vn_instance :: netns_instance
  root_ns :: nat
  target_ns :: nat
  vn_cleanup :: vm_netns_cleanup

definition open_file :: "'w netns_host \<Rightarrow> string \<Rightarrow> ('w netns_proc, nat) io" where
  "open_file H path = on_host (h_open H path)"

definition open_named_netns :: "'w netns_host \<Rightarrow> string \<Rightarrow> ('w netns_proc, nat) io" where
  "open_named_netns H ns p =
     (case open_file H (''/var/run/netns/'' @ ns) p of
        (Inr fd, p1) \<Rightarrow> (Ok fd, p1)
      | (Inl _, p1) \<Rightarrow>
          (case open_file H (''/run/netns/'' @ ns) p1 of
             (Inr fd, p2) \<Rightarrow> (Ok fd, p2)
           | (Inl _, p2) \<Rightarrow> (Err (''failed to open named netns fd for '' @ ns), p2)))"

definition open_root_ns :: "'w netns_host \<Rightarrow> ('w netns_proc, nat) io" where
  "open_root_ns H =
     io_map_err (\<lambda>e. ''failed to open current netns fd: '' @ e) (open_file H ''/proc/self/ns/net'')"

definition minimal_setup :: "'w netns_host \<Rightarrow> netns_instance \<Rightarrow> ('w netns_proc, nat) io" where
  "minimal_setup H inst =
     io_bind (run_command H (command_netns_add H (namespace inst)) False) (\<lambda>_.
     io_bind (run_command H (netns_ip H (namespace inst)
                [''tuntap'', ''add'', ''dev'', TAP_NAME, ''mode'', ''tap'']) False) (\<lambda>_.
     io_bind (run_command H (netns_ip H (namespace inst)
                [''addr'', ''add'', TAP_CIDR, ''dev'', TAP_NAME]) False) (\<lambda>_.
     io_bind (run_command H (netns_ip H (namespace inst)
                [''link'', ''set'', TAP_NAME, ''up'']) False) (\<lambda>_.
     open_named_netns H (namespace inst)))))"

definition prepare_minimal :: "'w netns_host \<Rightarrow> ('w netns_proc, vm_netns_context) io" where
  "prepare_minimal H p0 =
     (case fetch_add_vm p0 of (seq, p1) \<Rightarrow>
      case build_instance H seq p1 of (inst, p2) \<Rightarrow>
      case open_root_ns H p2 of
        (Inl e, p3) \<Rightarrow> (Err e, p3)
      | (Inr root, p3) \<Rightarrow>
          (case minimal_setup H inst p3 of
             (Inr target, p4) \<Rightarrow>
               (Ok \<lparr>vn_instance = inst, root_ns = root, target_ns = target, vn_cleanup = Minimal\<rparr>, p4)
           | (Inl e, p4) \<Rightarrow>
               (Err e, snd (run_command H (netns_del H (namespace inst)) True p4))))"

definition stage_error :: "'w stage_rec \<Rightarrow> string \<Rightarrow> string" where
  "stage_error st e = ''netns setup stage '' @ stage_name st @ '' failed: '' @ e"

definition prepare_full :: "'w netns_host \<Rightarrow> ('w netns_proc, vm_netns_context) io" where
  "prepare_full H p0 =
     (case fetch_add_vm p0 of (seq, p1) \<Rightarrow>
      case build_instance H seq p1 of (inst, p2) \<Rightarrow>
      case open_root_ns H p2 of
        (Inl e, p3) \<Rightarrow> (Err e, p3)
      | (Inr root, p3) \<Rightarrow>
          (case detect_upstream_device H p3 of
             (Inl e, p4) \<Rightarrow> (Err e, p4)
           | (Inr upstream, p4) \<Rightarrow>
               (case io_bind (run_stages H stage_error inst upstream STAGES)
                       (\<lambda>_. open_named_netns H (namespace inst)) p4 of
                  (Inr target, p5) \<Rightarrow>
                    (Ok \<lparr>vn_instance = inst, root_ns = root, target_ns = target,
                         vn_cleanup = Full upstream\<rparr>, p5)
                | (Inl e, p5) \<Rightarrow> (Err e, cleanup H inst upstream p5))))"

definition enter :: "'w netns_host \<Rightarrow> vm_netns_context \<Rightarrow> ('w netns_proc, unit) io" where
  "enter H ctx =
     io_map_err (\<lambda>e. ''setns into '' @ namespace (vn_instance ctx) @ '' failed: '' @ e)
       (on_host (h_setns H (target_ns ctx)))"

definition leave :: "'w netns_host \<Rightarrow> vm_netns_context \<Rightarrow> ('w netns_proc, unit) io" where
  "leave H ctx =
     io_map_err (\<lambda>e. ''setns back to root netns failed: '' @ e) (on_host (h_setns H (root_ns ctx)))"

definition drop_context :: "'w netns_host \<Rightarrow> vm_netns_context \<Rightarrow> 'w netns_proc \<Rightarrow> 'w netns_proc" where
  "drop_context H ctx p =
     (case vn_cleanup ctx of
        Minimal \<Rightarrow>
          snd (run_command H (netns_del H (namespace (vn_instance ctx))) True (snd (leave H ctx p)))
      | Full upstream \<Rightarrow> cleanup H (vn_instance ctx) upstream (snd (leave H ctx p)))"

end
