(* ===== verification/Netns_Props.thy ===== *)
theory Netns_Props
  imports Netns
begin

text \<open>
  Properties of the network namespaces: names and subnets of concurrent instances do not
  collide, the egress device is read from the output of \<open>ip route\<close>, and whatever fails during
  a set-up, the commands executed are a prefix of the set-up followed by the clean-up.
\<close>

section \<open>Names\<close>

lemma token_of_nanos_length: "length (token_of_nanos n) \<le> 5"
proof -
  have "n mod 2 ^ 20 < 16 ^ 5" by simp
  then show ?thesis
    unfolding token_of_nanos_def show_hex_def by (intro show_base_length) simp_all
qed

lemma show_hex_length: "n < 16 ^ k \<Longrightarrow> 0 < k \<Longrightarrow> length (show_hex n) \<le> k"
  unfolding show_hex_def by (intro show_base_length) simp_all

lemma run_token_length:
  assumes "run_token H p = (t, p')" "\<And>t'. run_token_cell p = Some t' \<Longrightarrow> length t' \<le> 5"
  shows "length t \<le> 5" "run_token_cell p' = Some t"
  using assms
  by (auto simp: run_token_def token_of_nanos_length split: option.splits prod.splits)

lemma instance_names_full:
  assumes "length t \<le> 5" "seq < 16 ^ 7"
  shows "namespace (instance_with t seq) = ''fc'' @ show_hex seq @ t"
    and "host_veth (instance_with t seq) = ''fcv'' @ show_hex seq @ t"
  using assms show_hex_length [of seq 7] by (simp_all add: instance_with_def Let_def)

lemma instance_names_unique_facts:
  assumes "length (the (run_token_cell p)) \<le> 5" "run_token_cell p \<noteq> None"
    and "build_instance H a p = (x, p1)" "build_instance H b p1 = (y, p2)"
    and "a < 16 ^ 7" "b < 16 ^ 7" "a \<noteq> b"
  shows "namespace x \<noteq> namespace y" "host_veth x \<noteq> host_veth y"
    "length (host_veth x) \<le> 15" "length (namespace x) \<le> 31"
proof -
  obtain t where t: "run_token_cell p = Some t" using assms(2) by auto
  with assms(3,4) have xy: "x = instance_with t a" "y = instance_with t b"
    by (auto simp: build_instance_def run_token_def)
  have len: "length t \<le> 5" using assms(1) t by simp
  from assms(7) have hex: "show_hex a \<noteq> show_hex b" using show_hex_inj by blast
  show "namespace x \<noteq> namespace y" "host_veth x \<noteq> host_veth y"
    using hex by (simp_all add: xy instance_names_full [OF len assms(5)] instance_names_full [OF len assms(6)])
  show "length (host_veth x) \<le> 15" "length (namespace x) \<le> 31"
    by (simp_all add: xy instance_with_def Let_def)
qed


section \<open>Subnets\<close>

lemma show_nat_no_dot: "CHR ''.'' \<notin> set (show_nat n)"
  by (rule show_nat_no_char) simp

lemma ip10_inject: "ip10 a b r = ip10 a' b' r' \<longleftrightarrow> a = a' \<and> b = b' \<and> r = r'"
proof
  assume "ip10 a b r = ip10 a' b' r'"
  then have "show_nat a @ CHR ''.'' # (show_nat b @ CHR ''.'' # r)
      = show_nat a' @ CHR ''.'' # (show_nat b' @ CHR ''.'' # r')"
    by (simp add: ip10_def)
  from append_delim_inject [OF show_nat_no_dot show_nat_no_dot this]
  have "show_nat a = show_nat a'" and "show_nat b @ CHR ''.'' # r = show_nat b' @ CHR ''.'' # r'"
    by auto
  with append_delim_inject [OF show_nat_no_dot show_nat_no_dot this(2)]
  show "a = a' \<and> b = b' \<and> r = r'" by (auto intro: show_nat_inj)
qed simp

lemma octets_eq_iff: "octet2 a = octet2 b \<and> octet3 a = octet3 b \<longleftrightarrow> a mod 16384 = b mod 16384"
proof -
  have split: "n mod 16384 = 256 * (n div 256 mod 64) + n mod 256" for n :: nat
    using mod_mult2_eq [of n 256 64] by simp
  have pair: "256 * x + u = 256 * y + v \<longleftrightarrow> x = y \<and> u = v" if "u < 256" "v < 256" for x y u v :: nat
    using that by (cases x y rule: linorder_cases) linarith+
  show ?thesis
    by (simp only: octet2_def octet3_def split pair mod_less_divisor zero_less_numeral add_left_cancel)
qed

lemma subnets_disjoint_facts:
  "veth_network (instance_with t a) = veth_network (instance_with t' b) \<longleftrightarrow> a mod 16384 = b mod 16384"
  "host_veth_gateway (instance_with t a) = host_veth_gateway (instance_with t' b)
     \<longleftrightarrow> a mod 16384 = b mod 16384"
  "ns_veth_cidr (instance_with t a) \<noteq> host_veth_cidr (instance_with t' b)"
  "64 \<le> octet2 a \<and> octet2 a \<le> 127 \<and> octet3 a \<le> 255"
proof -
  show "veth_network (instance_with t a) = veth_network (instance_with t' b) \<longleftrightarrow> a mod 16384 = b mod 16384"
    "host_veth_gateway (instance_with t a) = host_veth_gateway (instance_with t' b)
     \<longleftrightarrow> a mod 16384 = b mod 16384"
    "ns_veth_cidr (instance_with t a) \<noteq> host_veth_cidr (instance_with t' b)"
    using octets_eq_iff [of a b] by (simp_all add: instance_with_def Let_def ip10_inject)
  have "a div 256 mod 64 < 64" "a mod 256 < 256" by simp_all
  then show "64 \<le> octet2 a \<and> octet2 a \<le> 127 \<and> octet3 a \<le> 255"
    unfolding octet2_def octet3_def by linarith
qed

text \<open>
  C37: the subnets. Two instances have the same transfer network, gateway and interface
  addresses exactly when their sequence numbers agree modulo 16384; the addresses stay in
  10.64.0.0 to 10.127.255.0. So 16384 consecutive instances can coexist, and the next one
  reuses the network of the first.
\<close>

theorem subnets_disjoint:
  "(veth_network (instance_with t a) = veth_network (instance_with t' b) \<longleftrightarrow> a mod 16384 = b mod 16384) \<and>
   (host_veth_gateway (instance_with t a) = host_veth_gateway (instance_with t' b)
     \<longleftrightarrow> a mod 16384 = b mod 16384) \<and>
   ns_veth_cidr (instance_with t a) \<noteq> host_veth_cidr (instance_with t' b) \<and>
   64 \<le> octet2 a \<and> octet2 a \<le> 127 \<and> octet3 a \<le> 255"
  by (intro conjI subnets_disjoint_facts subnets_disjoint_facts(4) [THEN conjunct1]
      subnets_disjoint_facts(4) [THEN conjunct2, THEN conjunct1]
      subnets_disjoint_facts(4) [THEN conjunct2, THEN conjunct2])

section \<open>The egress device\<close>

lemma find_sub_first:
  assumes "\<And>i. i < length pre \<Longrightarrow> take (length pat) (drop i (pre @ pat @ post)) \<noteq> pat" "pat \<noteq> []"
  shows "find_sub pat (pre @ pat @ post) = Some (length pre)"
  using assms
proof (induction pre)
  case Nil
  then obtain c s where cs: "pat @ post = c # s" by (cases "pat @ post") auto
  have "take (length pat) (pat @ post) = pat" by simp
  with cs show ?case by (simp del: append_eq_append_conv2)
next
  case (Cons c pre)
  have "take (length pat) (c # pre @ pat @ post) \<noteq> pat" using Cons.prems(1) [of 0] by simp
  moreover have "find_sub pat (pre @ pat @ post) = Some (length pre)"
  proof (rule Cons.IH)
    fix i
    assume "i < length pre"
    then show "take (length pat) (drop i (pre @ pat @ post)) \<noteq> pat"
      using Cons.prems(1) [of "Suc i"] by simp
  qed (rule Cons.prems(2))
  ultimately show ?case by simp
qed

lemma find_sub_char: "d \<notin> set xs \<Longrightarrow> find_sub [d] (xs @ d # ys) = Some (length xs)"
  by (induction xs) auto

lemma find_sub_found: "find_sub pat s = Some i \<Longrightarrow> take (length pat) (drop i s) = pat"
  by (induction pat s arbitrary: i rule: find_sub.induct) (auto split: if_splits)

text \<open>
  reading the egress device. When the first occurrence of the key \<open>"dev":"\<close> in the output
  of \<open>ip -j route\<close> is followed by a name up to the closing quote, that name is the device
  found.
\<close>

theorem parse_route_device_first:
  assumes "\<And>i. i < length pre \<Longrightarrow>
      take (length dev_marker) (drop i (pre @ dev_marker @ dev @ CHR 0x22 # post)) \<noteq> dev_marker"
    and "CHR 0x22 \<notin> set dev"
  shows "parse_route_device (pre @ dev_marker @ dev @ CHR 0x22 # post) = Ok dev"
proof -
  have "find_sub dev_marker (pre @ dev_marker @ (dev @ CHR 0x22 # post)) = Some (length pre)"
    using assms(1) by (intro find_sub_first) (simp_all add: dev_marker_def)
  then show ?thesis using find_sub_char [OF assms(2)] by (simp add: parse_route_device_def)
qed

section \<open>Set-up and clean-up\<close>

lemma run_command_effect: "snd (run_command H c b p) = snd (run_command H c True p)"
  by (simp add: run_command_def split: prod.split sum.split)

lemma run_ignoring_append: "run_ignoring H (cs @ ds) p = run_ignoring H ds (run_ignoring H cs p)"
  by (induction cs arbitrary: p) simp_all

text \<open>The commands of the first \<open>k\<close> stages, and the failure of one of them.\<close>

definition stage_commands ::
  "'w netns_host \<Rightarrow> netns_instance \<Rightarrow> string \<Rightarrow> 'w stage_rec list \<Rightarrow> string list list" where
  "stage_commands H inst upstream sts = map (\<lambda>st. build st H inst upstream) sts"

definition stage_fails ::
  "'w netns_host \<Rightarrow> netns_instance \<Rightarrow> string \<Rightarrow> 'w stage_rec list \<Rightarrow> nat \<Rightarrow> 'w netns_proc \<Rightarrow> string \<Rightarrow> bool"
  where
  "stage_fails H inst upstream sts j p e =
     (fst (run_command H (build (sts ! j) H inst upstream) (allow_failure (sts ! j))
            (run_ignoring H (stage_commands H inst upstream (take j sts)) p)) = Err e)"

lemma run_stages_effect:
  assumes "run_stages H wrap inst upstream sts p = (r, p')"
  shows "\<exists>k \<le> length sts.
    p' = run_ignoring H (stage_commands H inst upstream (take k sts)) p \<and>
    (r = Ok () \<and> k = length sts \<or>
     (\<exists>j e. k = Suc j \<and> r = Err (wrap (sts ! j) e) \<and> stage_fails H inst upstream sts j p e))"
  using assms
proof (induction sts arbitrary: p)
  case Nil
  then show ?case by (simp add: stage_commands_def)
next
  case (Cons st sts)
  obtain q p1 where q: "run_command H (build st H inst upstream) (allow_failure st) p = (q, p1)"
    by fastforce
  then have p1: "p1 = snd (run_command H (build st H inst upstream) True p)"
    using run_command_effect [of H "build st H inst upstream" "allow_failure st" p] by simp
  show ?case
  proof (cases q)
    case (Inl e)
    with Cons.prems q have "r = Err (wrap st e)" "p' = p1"
      by (auto simp: io_bind_def io_map_err_def)
    then show ?thesis
      by (intro exI [of _ 1]) (simp add: Inl p1 q stage_commands_def stage_fails_def)
  next
    case (Inr u)
    with Cons.prems q have "run_stages H wrap inst upstream sts p1 = (r, p')"
      by (auto simp: io_bind_def io_map_err_def)
    from Cons.IH [OF this] obtain k where "k \<le> length sts"
      "p' = run_ignoring H (stage_commands H inst upstream (take k sts)) p1"
      "r = Ok () \<and> k = length sts \<or>
       (\<exists>j e. k = Suc j \<and> r = Err (wrap (sts ! j) e) \<and> stage_fails H inst upstream sts j p1 e)"
      by blast
    then show ?thesis
      by (intro exI [of _ "Suc k"]) (auto simp: p1 stage_commands_def stage_fails_def)
  qed
qed

lemma length_STAGES [simp]: "length STAGES = 13"
  by (simp add: STAGES_def)

text \<open>
  C33: the measured operation \<open>netns_full_shell\<close> always cleans up. Once the egress device is
  known, its effect on the host is that of the commands of the first \<open>k\<close> stages, in order,
  followed by the three clean-up commands of the same instance; it succeeds only when all
  thirteen stages ran, and otherwise its error is that of the stage it stopped at.
\<close>

theorem full_shell_cleans_up:
  assumes "fetch_add_shell p0 = (seq, p1)" "build_instance H seq p1 = (inst, p2)"
    and "detect_upstream_device H p2 = (Ok upstream, p3)" "run_full_shell H p0 = (r, p')"
  shows "\<exists>k \<le> 13.
    p' = run_ignoring H (stage_commands H inst upstream (take k STAGES)
                           @ cleanup_commands H inst upstream) p3 \<and>
    (r = Ok () \<and> k = 13 \<or>
     (\<exists>j e. k = Suc j \<and> r = Err e \<and> stage_fails H inst upstream STAGES j p3 e))"
proof -
  obtain q p4 where st: "run_stages H (\<lambda>_ e. e) inst upstream STAGES p3 = (q, p4)"
    by fastforce
  with assms have "r = q" "p' = cleanup H inst upstream p4"
    by (simp_all add: run_full_shell_def)
  with run_stages_effect [OF st] show ?thesis
    unfolding cleanup_def run_ignoring_append length_STAGES by blast
qed

lemma prepare_full_cases:
  assumes "fetch_add_vm p0 = (seq, p1)" "build_instance H seq p1 = (inst, p2)"
    and "open_root_ns H p2 = (Ok root, p3)" "detect_upstream_device H p3 = (Ok upstream, p4)"
  shows "prepare_full H p0 =
    (case run_stages H stage_error inst upstream STAGES p4 of
       (Inl e, q) \<Rightarrow> (Err e, cleanup H inst upstream q)
     | (Inr _, q) \<Rightarrow>
         (case open_named_netns H (namespace inst) q of
            (Inl e, q') \<Rightarrow> (Err e, cleanup H inst upstream q')
          | (Inr fd, q') \<Rightarrow>
              (Ok \<lparr>vn_instance = inst, root_ns = root, target_ns = fd, vn_cleanup = Full upstream\<rparr>, q')))"
  using assms by (simp add: prepare_full_def io_bind_def split: prod.split sum.split)

text \<open>
  the namespace of a virtual machine is not leaked. After the egress device is known,
  \<open>prepare_full\<close> either fails and its last effect is the clean-up of its instance, or it has
  run all the stages and opened the namespace, and then dropping the context it returns leaves
  the namespace and runs the same clean-up.
\<close>

theorem prepare_full_balanced:
  assumes "fetch_add_vm p0 = (seq, p1)" "build_instance H seq p1 = (inst, p2)"
    and "open_root_ns H p2 = (Ok root, p3)" "detect_upstream_device H p3 = (Ok upstream, p4)"
    and "prepare_full H p0 = (r, p')"
  shows "case r of
      Inl e \<Rightarrow> \<exists>k q. k \<le> 13 \<and> p' = cleanup H inst upstream q \<and>
        (q = run_ignoring H (stage_commands H inst upstream (take k STAGES)) p4 \<or>
         k = 13 \<and> q = snd (open_named_netns H (namespace inst)
                       (run_ignoring H (stage_commands H inst upstream STAGES) p4)))
    | Inr ctx \<Rightarrow>
        p' = snd (open_named_netns H (namespace inst)
               (run_ignoring H (stage_commands H inst upstream STAGES) p4)) \<and>
        root_ns ctx = root \<and>
        drop_context H ctx q = cleanup H inst upstream (snd (on_host (h_setns H root) q))"
proof -
  obtain x q1 where st: "run_stages H stage_error inst upstream STAGES p4 = (x, q1)" by fastforce
  from run_stages_effect [OF st] obtain k where k: "k \<le> 13"
    "q1 = run_ignoring H (stage_commands H inst upstream (take k STAGES)) p4"
    "x = Ok () \<and> k = 13 \<or> (\<exists>e. x = Err e)" by auto
  note pf = prepare_full_cases [OF assms(1-4)]
  show ?thesis
  proof (cases x)
    case (Inl e)
    with pf assms(5) st have "r = Err e" "p' = cleanup H inst upstream q1" by simp_all
    then show ?thesis using k by auto
  next
    case (Inr u)
    with k have q1: "q1 = run_ignoring H (stage_commands H inst upstream STAGES) p4" by simp
    from Inr pf assms(5) st show ?thesis
      by (auto simp: q1 drop_context_def leave_def intro!: exI [of _ 13]
          split: prod.splits sum.splits)
  qed
qed

text \<open>
  The same for \<open>prepare_minimal\<close>: a failure after the first command deletes the namespace,
  a success leaves that to the context, whose drop first returns to the root namespace.
\<close>

lemma prepare_minimal_balanced:
  assumes "fetch_add_vm p0 = (seq, p1)" "build_instance H seq p1 = (inst, p2)"
    and "open_root_ns H p2 = (Ok root, p3)" "prepare_minimal H p0 = (r, p')"
  shows "case r of
      Inl e \<Rightarrow> \<exists>q. minimal_setup H inst p3 = (Err e, q) \<and>
        p' = run_ignoring H [netns_del H (namespace inst)] q
    | Inr ctx \<Rightarrow> minimal_setup H inst p3 = (Ok (target_ns ctx), p') \<and>
        drop_context H ctx q =
          run_ignoring H [netns_del H (namespace inst)] (snd (on_host (h_setns H root) q))"
  using assms
  by (auto simp: prepare_minimal_def drop_context_def leave_def split: prod.splits sum.splits)

section \<open>A concrete host\<close>

text \<open>
  A host that records the commands, on which the \<open>link set\<close> of the interface inside the
  namespace fails, with one default route over \<open>eth0\<close>.
\<close>

definition route_json :: string where
  "route_json = ''[{'' @ dev_marker @ ''eth0'' @ [CHR 0x22] @ ''}]''"

definition demo_host :: "bool \<Rightarrow> string list list netns_host" where
  "demo_host good =
     \<lparr> h_root = True,
       h_status = (\<lambda>c w. (Ok (Some (if good \<or> last c \<noteq> ''up'' then 0 else 1)), w @ [c])),
       h_output = (\<lambda>c w. (Ok (Some 0, route_json), w)),
       h_utf8_error = (\<lambda>_. ''bad''),
       h_open = (\<lambda>_ w. (Ok 3, w)),
       h_setns = (\<lambda>_ w. (Ok (), w)),
       h_unix_nanos = (\<lambda>w. (0xabc, w)) \<rparr>"

definition demo_proc :: "string list list netns_proc" where
  "demo_proc = \<lparr>run_token_cell = Some ''abc'', next_seq_shell = 7, next_seq_vm = 9, host_world = []\<rparr>"

lemma utf8_valid_route: "utf8_valid route_json"
  by (simp add: route_json_def dev_marker_def)

lemma parse_route_json: "parse_route_device route_json = Ok ''eth0''"
  by (simp add: route_json_def dev_marker_def parse_route_device_def Let_def)

lemma demo_detect: "detect_upstream_device (demo_host good) p = (Ok ''eth0'', p)"
  by (simp add: detect_upstream_device_def demo_host_def on_host_def from_utf8_def
      utf8_valid_route parse_route_json)

lemma demo_build: "build_instance H seq demo_proc = (instance_with ''abc'' seq, demo_proc)"
  by (simp add: build_instance_def run_token_def demo_proc_def)


theorem parse_route_device_first_witness:
  "parse_route_device (''[{'' @ dev_marker @ ''eth0'' @ [CHR 0x22] @ ''}]'') = Ok ''eth0''"
proof -
  have "take (length dev_marker) (drop i (''[{'' @ dev_marker @ ''eth0'' @ CHR 0x22 # ''}]'')) \<noteq> dev_marker"
    if "i < length ''[{''" for i
  proof -
    from that have "i = 0 \<or> i = 1" by (simp add: less_Suc_eq)
    then show ?thesis by (auto simp: dev_marker_def)
  qed
  from parse_route_device_first [OF this] show ?thesis by simp
qed

lemma demo_fetch_shell:
  "fetch_add_shell demo_proc = (7, demo_proc\<lparr>next_seq_shell := 8\<rparr>)"
  by (simp add: fetch_add_shell_def demo_proc_def)

lemma demo_fetch_vm:
  "fetch_add_vm demo_proc = (9, demo_proc\<lparr>next_seq_vm := 10\<rparr>)"
  by (simp add: fetch_add_vm_def demo_proc_def)

lemma demo_build_upd:
  "build_instance H seq (demo_proc\<lparr>next_seq_shell := k\<rparr>)
     = (instance_with ''abc'' seq, demo_proc\<lparr>next_seq_shell := k\<rparr>)"
  "build_instance H seq (demo_proc\<lparr>next_seq_vm := k\<rparr>)
     = (instance_with ''abc'' seq, demo_proc\<lparr>next_seq_vm := k\<rparr>)"
  by (simp_all add: build_instance_def run_token_def demo_proc_def)

theorem full_shell_cleans_up_witness:
  "\<exists>k r. run_full_shell (demo_host False) demo_proc =
     (r, run_ignoring (demo_host False)
       (stage_commands (demo_host False) (instance_with ''abc'' 7) ''eth0'' (take k STAGES)
          @ cleanup_commands (demo_host False) (instance_with ''abc'' 7) ''eth0'')
       (demo_proc\<lparr>next_seq_shell := 8\<rparr>))"
proof -
  obtain r p' where run: "run_full_shell (demo_host False) demo_proc = (r, p')" by fastforce
  from full_shell_cleans_up [OF demo_fetch_shell demo_build_upd(1) demo_detect run]
  show ?thesis using run by blast
qed

lemma demo_root: "open_root_ns (demo_host b) p = (Ok 3, p)"
  by (simp add: open_root_ns_def open_file_def on_host_def demo_host_def io_map_err_def)

theorem prepare_full_balanced_witness:
  "case prepare_full (demo_host True) demo_proc of
     (Inl e, p') \<Rightarrow> \<exists>q. p' = cleanup (demo_host True) (instance_with ''abc'' 9) ''eth0'' q
   | (Inr ctx, p') \<Rightarrow>
       drop_context (demo_host True) ctx p' =
         cleanup (demo_host True) (instance_with ''abc'' 9) ''eth0'' p'"
proof -
  obtain r p' where run: "prepare_full (demo_host True) demo_proc = (r, p')" by fastforce
  have setns: "snd (on_host (h_setns (demo_host True) 3) p') = p'"
    by (simp add: on_host_def demo_host_def)
  from prepare_full_balanced [OF demo_fetch_vm demo_build_upd(2) demo_root demo_detect run, of p']
  show ?thesis by (auto simp: run setns split: sum.splits)
qed

end
