(* ===== verification/Netns_Step.thy ===== *)
theory Netns_Step
  imports Netns
begin

text \<open>
  The operation \<open>netns_step_shell\<close>, src/restore-motivation/src/ops/netns/step_shell.rs. The
  instances are set up in batches; the threads of a batch go through the stages in lock step,
  separated by a \<open>std::sync::Barrier\<close>. One batch is a state machine whose steps are a stage of
  one thread up to its arrival at the barrier, the release of a waiting thread, and the end of
  a thread. The outcome of \<open>measure_operation\<close> on the command of a stage is an argument of the
  step. The barrier is the one of the standard library: a count of arrivals and a generation
  number; a waiting thread goes on when the generation has changed.
\<close>

section \<open>One batch\<close>

datatype spc =
    AtStage nat "string option" "measurement list"
  | AtBarrier nat nat "string option" "measurement list"
  | Finished "measurement list res"

record sstate =
  barrier_count :: nat
  barrier_gen :: nat
  spcs :: "nat \<Rightarrow> spc"

definition batch_init :: sstate where
  "batch_init = \<lparr>barrier_count = 0, barrier_gen = 0, spcs = (\<lambda>_. AtStage 0 None [])\<rparr>"

definition stage_names :: "string list" where
  "stage_names = map stage_name (STAGES :: unit stage_rec list)"

text \<open>
  The body of the loop for thread \<open>tid\<close>: after an error the remaining commands are skipped,
  the barrier is not. The instance is \<open>next_seq + tid\<close>.
\<close>

definition stage_body ::
  "nat \<Rightarrow> nat \<Rightarrow> nat \<Rightarrow> (nat \<times> nat \<times> usage_delta) res \<Rightarrow> string option \<Rightarrow> measurement list \<Rightarrow>
     string option \<times> measurement list" where
  "stage_body next_seq tid i outcome err rs =
     (case err of
        Some e \<Rightarrow> (Some e, rs)
      | None \<Rightarrow>
          (case outcome of
             Inr (start_u, end_u, usage) \<Rightarrow>
               (None, rs @ [into_measurement usage tid (next_seq + tid) (next_seq + tid)
                              (stage_names ! i) start_u end_u])
           | Inl e \<Rightarrow> (Some e, rs)))"

definition stage_step ::
  "nat \<Rightarrow> nat \<Rightarrow> nat \<Rightarrow> (nat \<times> nat \<times> usage_delta) res \<Rightarrow> sstate \<Rightarrow> sstate option" where
  "stage_step next_seq n tid outcome s =
     (case spcs s tid of
        AtStage i err rs \<Rightarrow>
          (if i < length stage_names then
             (case stage_body next_seq tid i outcome err rs of
                (err', rs') \<Rightarrow>
                  (if Suc (barrier_count s) < n then
                     Some (s\<lparr>barrier_count := Suc (barrier_count s),
                             spcs := (spcs s)(tid := AtBarrier i (barrier_gen s) err' rs')\<rparr>)
                   else
                     Some (s\<lparr>barrier_count := 0, barrier_gen := Suc (barrier_gen s),
                             spcs := (spcs s)(tid := AtStage (Suc i) err' rs')\<rparr>)))
           else None)
      | _ \<Rightarrow> None)"

definition barrier_release :: "nat \<Rightarrow> sstate \<Rightarrow> sstate option" where
  "barrier_release tid s =
     (case spcs s tid of
        AtBarrier i g err rs \<Rightarrow>
          (if g = barrier_gen s then None
           else Some (s\<lparr>spcs := (spcs s)(tid := AtStage (Suc i) err rs)\<rparr>))
      | _ \<Rightarrow> None)"

text \<open>After the loop: the clean-up, whose outcome is ignored, and the result of the closure.\<close>

definition thread_end :: "nat \<Rightarrow> sstate \<Rightarrow> sstate option" where
  "thread_end tid s =
     (case spcs s tid of
        AtStage i err rs \<Rightarrow>
          (if i < length stage_names then None
           else Some (s\<lparr>spcs := (spcs s)(tid :=
                  Finished (case err of Some e \<Rightarrow> Err e | None \<Rightarrow> Ok rs))\<rparr>))
      | _ \<Rightarrow> None)"

datatype saction =
    RunStage nat "(nat \<times> nat \<times> usage_delta) res"
  | Release nat
  | EndThread nat

fun batch_step :: "nat \<Rightarrow> nat \<Rightarrow> saction \<Rightarrow> sstate \<Rightarrow> sstate option" where
  "batch_step next_seq n (RunStage t r) s = (if t < n then stage_step next_seq n t r s else None)"
| "batch_step next_seq n (Release t) s = (if t < n then barrier_release t s else None)"
| "batch_step next_seq n (EndThread t) s = (if t < n then thread_end t s else None)"

section \<open>The run\<close>

fun finished_result :: "spc \<Rightarrow> measurement list res option" where
  "finished_result (Finished r) = Some r"
| "finished_result _ = None"

text \<open>
  The outer loop. \<open>B next_seq n\<close> gives the results of the threads of the batch in the order of
  their handles. The loop is not known to end: for a concurrency of zero it does not.
\<close>

partial_function (option) batch_loop ::
  "(nat \<Rightarrow> nat \<Rightarrow> measurement list res list) \<Rightarrow> run_config \<Rightarrow> nat \<Rightarrow> measurement list \<Rightarrow>
     measurement list res option" where
  "batch_loop B cfg next_seq acc =
     (if next_seq < total cfg then
        (let n = min (concurrency cfg) (total cfg - next_seq) in
         (case collect_results (B next_seq n) of
            Inl e \<Rightarrow> Some (Err e)
          | Inr rss \<Rightarrow> batch_loop B cfg (next_seq + n) (acc @ concat rss)))
      else Some (Ok acc))"

text \<open>
  \<open>step_shell::run\<close>: \<open>upstream\<close>, \<open>before\<close> and \<open>after\<close> are the outcomes of
  \<open>detect_upstream_device\<close> and of the two captures of the process usage, \<open>t0\<close> and \<open>t1\<close> the
  clock at the start and at the end.
\<close>

definition run_step_shell ::
  "string res \<Rightarrow> nat \<Rightarrow> usage_snapshot res \<Rightarrow> (string \<Rightarrow> nat \<Rightarrow> nat \<Rightarrow> measurement list res list) \<Rightarrow>
     run_config \<Rightarrow> nat \<Rightarrow> usage_snapshot res \<Rightarrow> run_output res option" where
  "run_step_shell upstream t0 before B cfg t1 after =
     (case upstream of
        Inl e \<Rightarrow> Some (Err e)
      | Inr up \<Rightarrow>
          (case before of
             Inl e \<Rightarrow> Some (Err e)
           | Inr b \<Rightarrow>
               (case batch_loop (B up) cfg 0 [] of
                  None \<Rightarrow> None
                | Some (Inl e) \<Rightarrow> Some (Err e)
                | Some (Inr ms) \<Rightarrow>
                    (let wall = micros_between t0 t1 in
                     Some (case after of
                       Inl e \<Rightarrow> Err e
                     | Inr a \<Rightarrow>
                         Ok \<lparr>measurements = ms, wall_us = wall,
                             total_usage = delta_since a b wall\<rparr>)))))"

section \<open>Invariant\<close>

lemma length_stage_names [simp]: "length stage_names = 13"
  by (simp add: stage_names_def STAGES_def)

fun waits_for :: "nat \<Rightarrow> spc \<Rightarrow> bool" where
  "waits_for g (AtBarrier i g' err rs) = (g' = g)"
| "waits_for g _ = False"

text \<open>What the measurements of thread \<open>t\<close> are about, after \<open>i\<close> stages.\<close>

definition row_key :: "measurement \<Rightarrow> nat \<times> nat \<times> nat \<times> string" where
  "row_key m = (thread_id m, iteration m, instance_id m, stage m)"

definition expected_rows :: "nat \<Rightarrow> nat \<Rightarrow> nat \<Rightarrow> (nat \<times> nat \<times> nat \<times> string) list" where
  "expected_rows next_seq t i = map (\<lambda>nm. (t, next_seq + t, next_seq + t, nm)) (take i stage_names)"

definition rows_ok :: "nat \<Rightarrow> nat \<Rightarrow> nat \<Rightarrow> string option \<Rightarrow> measurement list \<Rightarrow> bool" where
  "rows_ok next_seq t i err rs = (err = None \<longrightarrow> map row_key rs = expected_rows next_seq t i)"

fun spc_ok :: "nat \<Rightarrow> nat \<Rightarrow> nat \<Rightarrow> spc \<Rightarrow> bool" where
  "spc_ok next_seq gen t (AtStage i err rs) = (i = gen \<and> i \<le> 13 \<and> rows_ok next_seq t i err rs)"
| "spc_ok next_seq gen t (AtBarrier i g err rs) =
     (i = g \<and> i < 13 \<and> (gen = g \<or> gen = Suc g) \<and> rows_ok next_seq t (Suc i) err rs)"
| "spc_ok next_seq gen t (Finished r) =
     (gen = 13 \<and> (\<forall>rs. r = Ok rs \<longrightarrow> map row_key rs = expected_rows next_seq t 13))"

definition batch_inv :: "nat \<Rightarrow> nat \<Rightarrow> sstate \<Rightarrow> bool" where
  "batch_inv next_seq n s =
     ((\<forall>t<n. spc_ok next_seq (barrier_gen s) t (spcs s t)) \<and>
      barrier_count s = count_below n (waits_for (barrier_gen s)) (spcs s) \<and>
      (0 < n \<longrightarrow> barrier_count s < n))"

lemma expected_rows_Suc:
  "i < 13 \<Longrightarrow> expected_rows next_seq t (Suc i)
     = expected_rows next_seq t i @ [(t, next_seq + t, next_seq + t, stage_names ! i)]"
  by (simp add: expected_rows_def take_Suc_conv_app_nth)

lemma stage_body_rows:
  assumes "rows_ok next_seq t i err rs" "i < 13" "stage_body next_seq t i r err rs = (err', rs')"
  shows "rows_ok next_seq t (Suc i) err' rs'"
  using assms
  by (auto simp: rows_ok_def stage_body_def expected_rows_Suc row_key_def into_measurement_def
      split: option.splits sum.splits)

lemma batch_inv_init: "batch_inv next_seq n batch_init"
  by (simp add: batch_inv_def batch_init_def rows_ok_def expected_rows_def)

text \<open>The arrival that is not the last, and the last one, which moves the barrier on.\<close>

lemma batch_inv_arrive:
  assumes inv: "batch_inv next_seq n s" and t: "t < n" "spcs s t = AtStage i err rs" "i < 13"
    and rows: "rows_ok next_seq t (Suc i) err' rs'" and "Suc (barrier_count s) < n"
  shows "batch_inv next_seq n (s\<lparr>barrier_count := Suc (barrier_count s),
           spcs := (spcs s)(t := AtBarrier i (barrier_gen s) err' rs')\<rparr>)"
proof -
  have "count_below n (waits_for (barrier_gen s)) ((spcs s)(t := AtBarrier i (barrier_gen s) err' rs'))
      = Suc (barrier_count s)"
    using inv t by (simp add: batch_inv_def count_below_upd_new)
  moreover have "i = barrier_gen s" using inv t by (fastforce simp: batch_inv_def)
  ultimately show ?thesis using inv t rows assms(6) by (auto simp: batch_inv_def)
qed

lemma last_arrival_all_wait:
  assumes inv: "batch_inv next_seq n s" and t: "t < n" "spcs s t = AtStage i err rs"
    and "\<not> Suc (barrier_count s) < n" "u < n" "u \<noteq> t"
  shows "waits_for (barrier_gen s) (spcs s u)"
proof -
  let ?f = "(spcs s)(t := AtBarrier i (barrier_gen s) err rs)"
  have "count_below n (waits_for (barrier_gen s)) ?f = Suc (barrier_count s)"
    using inv t by (simp add: batch_inv_def count_below_upd_new)
  moreover have "Suc (barrier_count s) = n"
    using inv assms(4) t by (auto simp: batch_inv_def)
  ultimately have "\<forall>v<n. waits_for (barrier_gen s) (?f v)" by (simp add: count_below_all)
  with assms(5,6) show ?thesis by (metis fun_upd_other)
qed

lemma batch_inv_last:
  assumes inv: "batch_inv next_seq n s" and t: "t < n" "spcs s t = AtStage i err rs" "i < 13"
    and rows: "rows_ok next_seq t (Suc i) err' rs'" and last: "\<not> Suc (barrier_count s) < n"
  shows "batch_inv next_seq n (s\<lparr>barrier_count := 0, barrier_gen := Suc (barrier_gen s),
           spcs := (spcs s)(t := AtStage (Suc i) err' rs')\<rparr>)"
proof -
  let ?f = "(spcs s)(t := AtStage (Suc i) err' rs')"
  have gen: "i = barrier_gen s" using inv t by (fastforce simp: batch_inv_def)
  have ok: "spc_ok next_seq (Suc (barrier_gen s)) u (?f u) \<and> \<not> waits_for (Suc (barrier_gen s)) (?f u)"
    if u: "u < n" for u
  proof (cases "u = t")
    case True
    then show ?thesis using gen t rows by simp
  next
    case False
    have w: "waits_for (barrier_gen s) (spcs s u)"
      using last_arrival_all_wait [OF inv t(1,2) last u False] .
    have "spc_ok next_seq (barrier_gen s) u (spcs s u)" using inv u by (simp add: batch_inv_def)
    with w False show ?thesis by (cases "spcs s u") auto
  qed
  have "{v. v < n \<and> waits_for (Suc (barrier_gen s)) (?f v)} = {}" using ok by blast
  then have "count_below n (waits_for (Suc (barrier_gen s))) ?f = 0"
    unfolding count_below_def by (metis card.empty)
  with ok show ?thesis unfolding batch_inv_def by simp
qed

lemma batch_inv_stage:
  assumes inv: "batch_inv next_seq n s" and t: "t < n" and step: "stage_step next_seq n t r s = Some s'"
  shows "batch_inv next_seq n s'"
proof -
  from step obtain i err rs where at: "spcs s t = AtStage i err rs" "i < 13"
    by (auto simp: stage_step_def split: spc.splits if_splits)
  obtain err' rs' where body: "stage_body next_seq t i r err rs = (err', rs')" by fastforce
  have "spc_ok next_seq (barrier_gen s) t (spcs s t)" using inv t by (simp add: batch_inv_def)
  then have "rows_ok next_seq t (Suc i) err' rs'"
    using at body by (auto intro: stage_body_rows)
  with at body t inv step show ?thesis
    by (auto simp: stage_step_def intro!: batch_inv_arrive batch_inv_last split: if_splits)
qed

text \<open>The moves of one thread that is not counted, and stays so.\<close>

lemma batch_inv_move:
  assumes "batch_inv next_seq n s" "t < n" "spc_ok next_seq (barrier_gen s) t pc"
    and "\<not> waits_for (barrier_gen s) (spcs s t)" "\<not> waits_for (barrier_gen s) pc"
  shows "batch_inv next_seq n (s\<lparr>spcs := (spcs s)(t := pc)\<rparr>)"
  using assms by (auto simp: batch_inv_def count_below_upd_same)

interpretation batch: machine_invariant "batch_step next_seq n" batch_init "batch_inv next_seq n"
  for next_seq n
proof unfold_locales
  show "batch_inv next_seq n batch_init" by (rule batch_inv_init)
next
  fix s s' a
  assume inv: "batch_inv next_seq n s" and step: "batch_step next_seq n a s = Some s'"
  show "batch_inv next_seq n s'"
  proof (cases a)
    case (RunStage t r)
    with step inv show ?thesis by (auto intro: batch_inv_stage split: if_splits)
  next
    case (Release t)
    with step have t: "t < n" by (auto split: if_splits)
    have "spc_ok next_seq (barrier_gen s) t (spcs s t)" using inv t by (simp add: batch_inv_def)
    with Release step t inv show ?thesis
      by (auto simp: barrier_release_def intro!: batch_inv_move split: spc.splits if_splits)
  next
    case (EndThread t)
    with step have t: "t < n" by (auto split: if_splits)
    have "spc_ok next_seq (barrier_gen s) t (spcs s t)" using inv t by (simp add: batch_inv_def)
    with EndThread step t inv show ?thesis
      by (auto simp: thread_end_def rows_ok_def intro!: batch_inv_move
          split: spc.splits if_splits option.splits)
  qed
qed

section \<open>Properties\<close>

text \<open>The number of stages a thread has executed.\<close>

fun stages_done :: "spc \<Rightarrow> nat" where
  "stages_done (AtStage i err rs) = i"
| "stages_done (AtBarrier i g err rs) = Suc i"
| "stages_done (Finished r) = 13"

lemma batch_lock_step_facts:
  assumes "reaches (batch_step next_seq n) batch_init s" "t < n" "u < n"
  shows "stages_done (spcs s t) \<le> Suc (stages_done (spcs s u))"
    and "finished_result (spcs s t) = None \<Longrightarrow> \<exists>a s'. batch_step next_seq n a s = Some s'"
proof -
  have inv: "batch_inv next_seq n s" using assms(1) by (rule batch.invar_reachable)
  have ok: "spc_ok next_seq (barrier_gen s) v (spcs s v)" if "v < n" for v
    using inv that by (simp add: batch_inv_def)
  have near: "barrier_gen s \<le> stages_done (spcs s v) \<and> stages_done (spcs s v) \<le> Suc (barrier_gen s)"
    if "v < n" for v
    using ok [OF that] by (cases "spcs s v") auto
  show "stages_done (spcs s t) \<le> Suc (stages_done (spcs s u))"
    using near [OF assms(2)] near [OF assms(3)] by simp
  show "\<exists>a s'. batch_step next_seq n a s = Some s'" if unfinished: "finished_result (spcs s t) = None"
  proof (rule ccontr)
    assume stuck: "\<not> ?thesis"
    have none: "batch_step next_seq n a s = None" for a using stuck by (cases "batch_step next_seq n a s") auto
    have cls: "waits_for (barrier_gen s) (spcs s v) \<or> finished_result (spcs s v) \<noteq> None" if "v < n" for v
      using none [of "RunStage v (Inl [])"] none [of "Release v"] none [of "EndThread v"] that
      by (cases "spcs s v")
        (auto simp: stage_step_def barrier_release_def thread_end_def split: if_splits prod.splits)
    have "waits_for (barrier_gen s) (spcs s t)" using cls assms(2) unfinished by blast
    with ok [OF assms(2)] have "barrier_gen s < 13" by (cases "spcs s t") auto
    then have "waits_for (barrier_gen s) (spcs s v)" if "v < n" for v
      using cls [OF that] ok [OF that] by (cases "spcs s v") auto
    then have "barrier_count s = n" using inv by (simp add: batch_inv_def count_below_all)
    with inv assms(2) show False by (auto simp: batch_inv_def)
  qed
qed

text \<open>
  C31: the threads of a batch move in lock step, and a failed command does not block them. In
  every reachable state two threads have executed numbers of stages that differ by at most
  one, and as long as some thread has not ended, some thread can make a step: a thread whose
  command failed keeps arriving at the barrier.
\<close>

theorem batch_lock_step:
  assumes "reaches (batch_step next_seq n) batch_init s" "t < n" "u < n"
  shows "stages_done (spcs s t) \<le> Suc (stages_done (spcs s u)) \<and>
    (finished_result (spcs s t) \<noteq> None \<or> (\<exists>a s'. batch_step next_seq n a s = Some s'))"
  using batch_lock_step_facts [OF assms] by blast

fun spc_rank :: "spc \<Rightarrow> nat" where
  "spc_rank (AtStage i err rs) = 2 * (13 - i) + 1"
| "spc_rank (AtBarrier i g err rs) = 2 * (13 - i)"
| "spc_rank (Finished r) = 0"

definition batch_rank :: "nat \<Rightarrow> sstate \<Rightarrow> nat" where
  "batch_rank n s = (\<Sum>t<n. spc_rank (spcs s t))"

lemma batch_step_move:
  assumes "batch_inv next_seq n s" "batch_step next_seq n a s = Some s'"
  obtains t pc where "t < n" "spcs s' = (spcs s)(t := pc)" "spc_rank pc < spc_rank (spcs s t)"
proof -
  have ok: "spc_ok next_seq (barrier_gen s) v (spcs s v)" if "v < n" for v
    using assms(1) that by (simp add: batch_inv_def)
  have "\<exists>t<n. \<exists>pc. spcs s' = (spcs s)(t := pc) \<and> spc_rank pc < spc_rank (spcs s t)"
  proof (cases a)
    case (RunStage t r)
    with assms(2) show ?thesis
      by (auto simp: stage_step_def intro!: exI [of _ t] split: if_splits spc.splits prod.splits)
  next
    case (Release t)
    with assms(2) ok [of t] show ?thesis
      by (auto simp: barrier_release_def intro!: exI [of _ t] split: if_splits spc.splits)
  next
    case (EndThread t)
    with assms(2) show ?thesis
      by (auto simp: thread_end_def intro!: exI [of _ t] split: if_splits spc.splits)
  qed
  then show ?thesis using that by blast
qed

interpretation ranked_batch:
  ranked_machine "batch_step next_seq n" batch_init "batch_inv next_seq n" "batch_rank n" "\<lambda>_. True"
  for next_seq n
proof unfold_locales
  fix s a s'
  assume inv: "batch_inv next_seq n s" and step: "batch_step next_seq n a s = Some s'"
  from batch_step_move [OF inv step] obtain t pc where
    "t < n" "spcs s' = (spcs s)(t := pc)" "spc_rank pc < spc_rank (spcs s t)" .
  then show "batch_rank n s' < batch_rank n s"
    using sum_upd [of t n "\<lambda>_. spc_rank" "spcs s" pc] by (simp add: batch_rank_def)
qed

text \<open>
  a batch ends. A run of a batch has at most 27 steps per thread, whatever the commands
  return; with the absence of blocking, every batch ends with all its threads ended.
\<close>

theorem batch_terminates:
  assumes "exec_all (batch_step next_seq n) as batch_init = Some s"
  shows "length as \<le> 27 * n"
  using ranked_batch.exec_all_rank [OF batch_inv_init assms]
  by (simp add: batch_rank_def batch_init_def list_all_length)

text \<open>The results a batch can end with: those of a reachable state with all threads ended.\<close>

definition batch_outcome :: "nat \<Rightarrow> nat \<Rightarrow> measurement list res list \<Rightarrow> bool" where
  "batch_outcome next_seq n rs =
     (\<exists>s. reaches (batch_step next_seq n) batch_init s \<and>
          map (\<lambda>t. finished_result (spcs s t)) [0..<n] = map Some rs)"

definition instance_rows :: "nat \<Rightarrow> (nat \<times> string) list" where
  "instance_rows i = map (Pair i) stage_names"

definition row_id :: "measurement \<Rightarrow> nat \<times> string" where
  "row_id m = (instance_id m, stage m)"

lemma batch_outcome_rows:
  assumes "batch_outcome next_seq n (map Ok rss)"
  shows "map row_id (concat rss) = concat (map instance_rows [next_seq ..< next_seq + n])"
proof -
  from assms obtain s where reach: "reaches (batch_step next_seq n) batch_init s"
    and fin: "map (\<lambda>t. finished_result (spcs s t)) [0..<n] = map Some (map Ok rss)"
    by (auto simp: batch_outcome_def)
  have inv: "batch_inv next_seq n s" using reach by (rule batch.invar_reachable)
  have len: "length rss = n" using arg_cong [OF fin, of length] by simp
  have row: "map row_id (rss ! t) = instance_rows (next_seq + t)" if t: "t < n" for t
  proof -
    have "finished_result (spcs s t) = Some (Ok (rss ! t))"
      using arg_cong [OF fin, of "\<lambda>l. l ! t"] t len by simp
    then have "spcs s t = Finished (Ok (rss ! t))" by (cases "spcs s t") auto
    moreover have "spc_ok next_seq (barrier_gen s) t (spcs s t)" using inv t by (simp add: batch_inv_def)
    ultimately have key: "map row_key (rss ! t) = expected_rows next_seq t 13" by simp
    have "map row_id (rss ! t) = map (snd \<circ> snd) (map row_key (rss ! t))"
      by (simp add: row_id_def row_key_def)
    then show ?thesis unfolding key by (simp add: expected_rows_def instance_rows_def comp_def)
  qed
  have "map (map row_id) rss = map (\<lambda>t. instance_rows (next_seq + t)) [0..<n]"
    using row len by (intro nth_equalityI) simp_all
  also have "\<dots> = map instance_rows (map (\<lambda>i. next_seq + i) [0..<n])" by simp
  finally show ?thesis by (simp add: map_concat map_plus_upt)
qed

lemma batch_loop_rows:
  assumes "batch_loop B cfg next_seq acc = Some r"
    and "\<And>next_seq n. n \<le> concurrency cfg \<Longrightarrow> batch_outcome next_seq n (B next_seq n)"
    and "r = Ok ms" "next_seq \<le> total cfg"
  shows "map row_id ms = map row_id acc @ concat (map instance_rows [next_seq ..< total cfg])"
  using assms
proof (induction rule: batch_loop.raw_induct [rotated, consumes 1, case_names step])
  case (step loop B cfg next_seq acc r)
  show ?case
  proof (cases "next_seq < total cfg")
    case True
    define n where "n = min (concurrency cfg) (total cfg - next_seq)"
    obtain rss where rss: "collect_results (B next_seq n) = Ok rss"
      and rec: "loop B cfg (next_seq + n) (acc @ concat rss) = Some r"
      using step(2,4) True by (auto simp: Let_def n_def split: sum.splits)
    have rows: "map row_id (concat rss) = concat (map instance_rows [next_seq ..< next_seq + n])"
      using step(3) [of n next_seq] rss
      by (intro batch_outcome_rows) (simp add: collect_results_Inr_iff n_def)
    have n: "next_seq + n \<le> total cfg" using True by (auto simp: n_def)
    have "map row_id ms = map row_id (acc @ concat rss)
        @ concat (map instance_rows [next_seq + n ..< total cfg])"
      using n by (intro step(1) [OF rec] step)
    moreover have "[next_seq ..< total cfg] = [next_seq ..< next_seq + n] @ [next_seq + n ..< total cfg]"
      using n by (metis le_Suc_ex le_add1 upt_add_eq_append)
    ultimately show ?thesis by (simp add: rows)
  next
    case False
    with step show ?thesis by simp
  qed
qed

text \<open>
  C32: what a successful run reports. Whatever the interleaving of the threads, the
  measurements are one row per instance and stage: the thirteen stages in order for the
  instances \<open>0, \<dots>, total - 1\<close> in order.
\<close>

theorem step_shell_reports_every_stage:
  assumes "\<And>up next_seq n. n \<le> concurrency cfg \<Longrightarrow> batch_outcome next_seq n (B up next_seq n)"
    and "run_step_shell upstream t0 before B cfg t1 after = Some (Ok out)"
  shows "map row_id (measurements out) = concat (map instance_rows [0 ..< total cfg])"
proof -
  from assms(2) obtain up ms where "batch_loop (B up) cfg 0 [] = Some (Ok ms)" "measurements out = ms"
    by (auto simp: run_step_shell_def Let_def split: sum.splits option.splits)
  with batch_loop_rows [of "B up" cfg 0 "[]" "Ok ms" ms] assms(1) show ?thesis by simp
qed

lemma batch_loop_returns:
  assumes "0 < concurrency cfg"
  shows "\<exists>r. batch_loop B cfg next_seq acc = Some r"
proof (induction "total cfg - next_seq" arbitrary: next_seq acc rule: less_induct)
  case less
  let ?n = "min (concurrency cfg) (total cfg - next_seq)"
  show ?case
  proof (cases "next_seq < total cfg")
    case True
    with assms have "\<exists>r. batch_loop B cfg (next_seq + ?n) (acc @ concat rss) = Some r" for rss
      by (intro less) simp
    with True show ?thesis
      by (subst batch_loop.simps) (auto simp: Let_def split: sum.split)
  next
    case False
    then show ?thesis by (subst batch_loop.simps) simp
  qed
qed

lemma batch_loop_zero:
  assumes "batch_loop B cfg next_seq acc = Some r"
  shows "0 < concurrency cfg \<or> total cfg \<le> next_seq \<or> (\<exists>k. B k 0 \<noteq> [])"
  using assms
proof (rule batch_loop.raw_induct [where P = "\<lambda>B cfg next_seq acc r.
    0 < concurrency cfg \<or> total cfg \<le> next_seq \<or> (\<exists>k. B k 0 \<noteq> [])", rotated])
  fix loop B cfg next_seq acc r
  assume IH: "\<And>B cfg next_seq acc r. loop B cfg next_seq acc = Some r \<Longrightarrow>
      0 < concurrency cfg \<or> total cfg \<le> next_seq \<or> (\<exists>k. B k 0 \<noteq> [])"
    and eq: "(if next_seq < total cfg then
        (let n = min (concurrency cfg) (total cfg - next_seq) in
         (case collect_results (B next_seq n) of
            Inl e \<Rightarrow> Some (Err e)
          | Inr rss \<Rightarrow> loop B cfg (next_seq + n) (acc @ concat rss)))
      else Some (Ok acc)) = Some r"
  show "0 < concurrency cfg \<or> total cfg \<le> next_seq \<or> (\<exists>k. B k 0 \<noteq> [])"
  proof (rule ccontr)
    assume neg: "\<not> ?thesis"
    with eq have "loop B cfg next_seq acc = Some r" by simp
    from IH [OF this] neg show False by blast
  qed
qed

text \<open>
  the run returns exactly when it makes progress. For a positive concurrency the loop over
  the batches ends with a result, an error included; for a concurrency of zero (excluded by
  the argument check of the program) it never does.
\<close>

theorem step_shell_returns_iff:
  assumes "\<And>k. B up k 0 = []" "0 < total cfg"
  shows "(\<exists>r. run_step_shell (Ok up) t0 (Ok before) B cfg t1 after = Some r) \<longleftrightarrow> 0 < concurrency cfg"
proof -
  have "batch_loop (B up) cfg 0 [] = None" if "concurrency cfg = 0"
    using batch_loop_zero [of "B up" cfg 0 "[]"] that assms by (cases "batch_loop (B up) cfg 0 []") auto
  moreover have "\<exists>r. batch_loop (B up) cfg 0 [] = Some r" if "0 < concurrency cfg"
    using that by (rule batch_loop_returns)
  ultimately show ?thesis
    by (cases "concurrency cfg = 0")
      (auto simp: run_step_shell_def Let_def split: sum.splits option.splits)
qed

section \<open>Concrete runs\<close>

definition one_usage :: "(nat \<times> nat \<times> usage_delta) res" where
  "one_usage = Ok (1, 2, usage_zero)"

text \<open>One thread going through its stages, and two whose first command fails in one of them.\<close>

definition solo_batch :: "saction list" where
  "solo_batch = replicate 13 (RunStage 0 one_usage) @ [EndThread 0]"

definition pair_prefix :: "saction list" where
  "pair_prefix = [RunStage 1 (Err ''ip failed''), RunStage 0 one_usage, Release 1]"

definition solo_state :: "nat \<Rightarrow> spc \<Rightarrow> sstate" where
  "solo_state g pc =
     \<lparr>barrier_count = 0, barrier_gen = g, spcs = (\<lambda>t. if t = 0 then pc else AtStage 0 None [])\<rparr>"

definition solo_rows :: "nat \<Rightarrow> nat \<Rightarrow> measurement list" where
  "solo_rows k i = map (\<lambda>j. into_measurement usage_zero 0 k k (stage_names ! j) 1 2) [0..<i]"

lemma solo_step:
  assumes "i < 13"
  shows "batch_step k (Suc 0) (RunStage 0 one_usage) (solo_state i (AtStage i None (solo_rows k i)))
    = Some (solo_state (Suc i) (AtStage (Suc i) None (solo_rows k (Suc i))))"
  using assms
  by (auto simp: stage_step_def stage_body_def one_usage_def solo_state_def solo_rows_def)

lemma solo_prefix:
  "i \<le> 13 \<Longrightarrow> exec_all (batch_step k (Suc 0)) (replicate i (RunStage 0 one_usage)) batch_init
     = Some (solo_state i (AtStage i None (solo_rows k i)))"
proof (induction i)
  case 0
  then show ?case by (simp add: batch_init_def solo_rows_def solo_state_def)
next
  case (Suc i)
  have "replicate (Suc i) (RunStage 0 one_usage)
      = replicate i (RunStage 0 one_usage) @ [RunStage 0 one_usage]"
    by (simp add: replicate_append_same)
  with Suc solo_step [of i k] show ?case
    by (simp add: exec_all_append del: batch_step.simps replicate_Suc)
qed

lemma solo_run:
  "exec_all (batch_step k (Suc 0)) solo_batch batch_init
     = Some (solo_state 13 (Finished (Ok (solo_rows k 13))))"
proof -
  have "thread_end 0 (solo_state 13 (AtStage 13 None (solo_rows k 13)))
      = Some (solo_state 13 (Finished (Ok (solo_rows k 13))))"
    by (auto simp: thread_end_def solo_state_def)
  then show ?thesis
    using solo_prefix [of 13 k] by (simp add: solo_batch_def exec_all_append)
qed

theorem batch_lock_step_witness:
  "\<exists>s s' a. reaches (batch_step 0 2) batch_init s \<and> finished_result (spcs s 1) = None \<and>
     stages_done (spcs s 1) \<le> Suc (stages_done (spcs s 0)) \<and> batch_step 0 2 a s = Some s'"
proof -
  obtain s where run: "exec_all (batch_step 0 2) pair_prefix batch_init = Some s"
    and nf: "finished_result (spcs s 1) = None"
    by (simp add: pair_prefix_def batch_init_def stage_step_def stage_body_def barrier_release_def
        one_usage_def)
  then have reach: "reaches (batch_step 0 2) batch_init s" by (intro exec_all_reaches)
  from batch_lock_step [OF reach, of 1 0] nf reach
  show ?thesis by auto
qed

theorem batch_terminates_witness:
  "length solo_batch \<le> 27 * 1 \<and> length solo_batch = 14"
  using batch_terminates [OF solo_run] by (simp add: solo_batch_def)

text \<open>Batches of one thread, for a concurrency of one.\<close>

definition solo_batches :: "string \<Rightarrow> nat \<Rightarrow> nat \<Rightarrow> measurement list res list" where
  "solo_batches up k n = (if n = 0 then [] else if n = 1 then [Ok (solo_rows k 13)] else [])"

lemma solo_outcome: "n \<le> 1 \<Longrightarrow> batch_outcome k n (solo_batches up k n)"
proof (cases "n = 0")
  case True
  then show ?thesis by (auto simp: batch_outcome_def solo_batches_def intro: reaches_refl)
next
  assume "n \<le> 1" "n \<noteq> 0"
  then have n: "n = Suc 0" by simp
  have "reaches (batch_step k (Suc 0)) batch_init (solo_state 13 (Finished (Ok (solo_rows k 13))))"
    by (rule exec_all_reaches [OF solo_run])
  then show ?thesis
    by (auto simp: n batch_outcome_def solo_batches_def
        intro!: exI [of _ "solo_state 13 (Finished (Ok (solo_rows k 13)))"])
      (simp add: solo_state_def)
qed

definition two_instances :: run_config where
  "two_instances = \<lparr>total = 2, concurrency = 1, measure_per_op_usage = False\<rparr>"

definition idle_usage :: usage_snapshot where
  "idle_usage = \<lparr>s_user_cpu_us = 0, s_sys_cpu_us = 0, s_minflt = 0, s_majflt = 0, s_nvcsw = 0, s_nivcsw = 0\<rparr>"

theorem step_shell_reports_every_stage_witness:
  "\<exists>out. run_step_shell (Ok ''eth0'') 0 (Ok idle_usage) solo_batches two_instances 5000 (Ok idle_usage)
      = Some (Ok out) \<and>
     map row_id (measurements out) = concat (map instance_rows [0, 1])"
proof -
  have "batch_loop (solo_batches ''eth0'') two_instances 0 [] = Some (Ok (solo_rows 0 13 @ solo_rows 1 13))"
    by (subst batch_loop.simps, simp add: two_instances_def solo_batches_def)+
  then obtain out where
    "run_step_shell (Ok ''eth0'') 0 (Ok idle_usage) solo_batches two_instances 5000 (Ok idle_usage)
      = Some (Ok out)"
    by (simp add: run_step_shell_def Let_def)
  moreover from step_shell_reports_every_stage [OF solo_outcome this]
  have "map row_id (measurements out) = concat (map instance_rows [0, 1])"
    by (simp add: two_instances_def upt_rec)
  ultimately show ?thesis by blast
qed

theorem step_shell_returns_iff_witness:
  "(\<exists>r. run_step_shell (Ok ''eth0'') 0 (Ok idle_usage) solo_batches two_instances 5000 (Ok idle_usage) = Some r)
     \<and> \<not> (\<exists>r. run_step_shell (Ok ''eth0'') 0 (Ok idle_usage) solo_batches
             (two_instances\<lparr>concurrency := 0\<rparr>) 5000 (Ok idle_usage) = Some r)"
  using step_shell_returns_iff [of solo_batches "''eth0''" two_instances 0 idle_usage 5000 "Ok idle_usage"]
    step_shell_returns_iff [of solo_batches "''eth0''" "two_instances\<lparr>concurrency := 0\<rparr>" 0 idle_usage 5000 "Ok idle_usage"]
  by (simp add: solo_batches_def two_instances_def)

end
