(* ===== verification/Bench_Main.thy ===== *)
theory Bench_Main
  imports Bench_Ops
begin

text \<open>
  The program's entry point, src/restore-motivation/src/main.rs: the command line, the choice
  of the driver, and the CSV file. A run ends the process with status 1 (usage, unknown or
  failed operation), panics, or writes its results. The drivers and the file system are
  fields of an environment record; the texts printed to the standard error are not modelled.
\<close>

section \<open>The command line\<close>

text \<open>\<open>str::parse::<usize>\<close> on a 64-bit target.\<close>

definition parse_usize :: "string \<Rightarrow> nat option" where
  "parse_usize = parse_uint u64_max"

datatype 'a outcome = Parsed 'a | Usage | Panicked

record arg_state =
  a_op :: "string option"
  a_total :: "nat option"
  a_concurrency :: "nat option"
  a_per_op :: bool

definition flag :: "string \<Rightarrow> string \<Rightarrow> string \<Rightarrow> bool" where
  "flag a short long = (a = short \<or> a = long)"

text \<open>
  The loop over the arguments; an index past the end and \<open>unwrap\<close> of a failed parse panic.
\<close>

fun parse_loop :: "string list \<Rightarrow> arg_state \<Rightarrow> arg_state outcome" where
  "parse_loop [] st = Parsed st"
| "parse_loop (a # rest) st =
     (if flag a ''-p'' ''--op'' then
        (case rest of
           [] \<Rightarrow> Panicked
         | v # rest' \<Rightarrow> parse_loop rest' (st\<lparr>a_op := Some v\<rparr>))
      else if flag a ''-t'' ''--total'' then
        (case rest of
           [] \<Rightarrow> Panicked
         | v # rest' \<Rightarrow>
             (case parse_usize v of
                None \<Rightarrow> Panicked
              | Some n \<Rightarrow> parse_loop rest' (st\<lparr>a_total := Some n\<rparr>)))
      else if flag a ''-c'' ''--concurrency'' then
        (case rest of
           [] \<Rightarrow> Panicked
         | v # rest' \<Rightarrow>
             (case parse_usize v of
                None \<Rightarrow> Panicked
              | Some n \<Rightarrow> parse_loop rest' (st\<lparr>a_concurrency := Some n\<rparr>)))
      else if a = ''--per-op-usage'' then parse_loop rest (st\<lparr>a_per_op := True\<rparr>)
      else if a = ''--no-per-op-usage'' then parse_loop rest (st\<lparr>a_per_op := False\<rparr>)
      else Usage)"

definition parse_args :: "string list \<Rightarrow> (string \<times> nat \<times> nat \<times> bool) outcome" where
  "parse_args args =
     (case parse_loop (drop 1 args)
             \<lparr>a_op = None, a_total = None, a_concurrency = None, a_per_op = True\<rparr> of
        Usage \<Rightarrow> Usage
      | Panicked \<Rightarrow> Panicked
      | Parsed st \<Rightarrow>
          (case a_op st of
             None \<Rightarrow> Usage
           | Some name \<Rightarrow>
               (case a_total st of
                  None \<Rightarrow> Usage
                | Some t \<Rightarrow>
                    (let c = (case a_concurrency st of Some c \<Rightarrow> c | None \<Rightarrow> t)
                     in if t = 0 \<or> c = 0 then Usage else Parsed (name, t, min c t, a_per_op st)))))"

section \<open>Output\<close>

fun join_commas :: "string list \<Rightarrow> string" where
  "join_commas [] = []"
| "join_commas [x] = x"
| "join_commas (x # xs) = x @ '','' @ join_commas xs"

definition csv_header :: string where
  "csv_header =
     ''thread_id,iteration,instance_id,stage,start_us,end_us,elapsed_us,''
       @ ''user_cpu_us,sys_cpu_us,blocked_us,minflt,majflt,nvcsw,nivcsw''"

definition csv_fields :: "measurement \<Rightarrow> string list" where
  "csv_fields row =
     [show_nat (thread_id row), show_nat (iteration row), show_nat (instance_id row), stage row,
      show_nat (start_us row), show_nat (end_us row), show_nat (elapsed_us row),
      show_nat (user_cpu_us row), show_nat (sys_cpu_us row), show_nat (blocked_us row),
      show_nat (minflt row), show_nat (majflt row), show_nat (nvcsw row), show_nat (nivcsw row)]"

definition csv_row :: "measurement \<Rightarrow> string" where
  "csv_row row = join_commas (csv_fields row)"

definition csv_file :: "measurement list \<Rightarrow> string list" where
  "csv_file rows = csv_header # map csv_row rows"

definition show_bool :: "bool \<Rightarrow> string" where
  "show_bool b = (if b then ''true'' else ''false'')"

definition run_total_line :: "string \<Rightarrow> run_config \<Rightarrow> run_output \<Rightarrow> string" where
  "run_total_line name cfg out =
     ''run_total op='' @ name @ '' total='' @ show_nat (total cfg)
       @ '' concurrency='' @ show_nat (concurrency cfg)
       @ '' per_op_usage='' @ show_bool (measure_per_op_usage cfg)
       @ '' wall_us='' @ show_nat (wall_us out)
       @ '' user_cpu_us='' @ show_nat (d_user_cpu_us (total_usage out))
       @ '' sys_cpu_us='' @ show_nat (d_sys_cpu_us (total_usage out))
       @ '' minflt='' @ show_nat (d_minflt (total_usage out))
       @ '' majflt='' @ show_nat (d_majflt (total_usage out))
       @ '' nvcsw='' @ show_nat (d_nvcsw (total_usage out))
       @ '' nivcsw='' @ show_nat (d_nivcsw (total_usage out))"

section \<open>The program\<close>

text \<open>
  The three drivers, and the operations of the file system, true when they succeed:
  \<open>create_dir_all\<close>, \<open>File::create\<close> of a path and the write of a line.
\<close>

record main_env =
  me_external :: "external_fn \<Rightarrow> run_config \<Rightarrow> run_output res"
  me_with_prepare :: "prepare_fn \<Rightarrow> run_config \<Rightarrow> run_output res"
  me_internal :: "internal_fn \<Rightarrow> run_config \<Rightarrow> run_output res"
  me_create_dir :: "string \<Rightarrow> bool"
  me_create_file :: "string \<Rightarrow> bool"
  me_write :: "string \<Rightarrow> bool"

datatype exit_outcome =
    Exit_failure
  | Panic_exit
  | Completed_run string "string list" string

definition run_op :: "main_env \<Rightarrow> op \<Rightarrow> run_config \<Rightarrow> run_output res" where
  "run_op E p cfg =
     (case p of
        External f \<Rightarrow> me_external E f cfg
      | ExternalWithPrepare f \<Rightarrow> me_with_prepare E f cfg
      | Internal f \<Rightarrow> me_internal E f cfg)"

definition bench_main :: "main_env \<Rightarrow> string list \<Rightarrow> exit_outcome" where
  "bench_main E args =
     (case parse_args args of
        Usage \<Rightarrow> Exit_failure
      | Panicked \<Rightarrow> Panic_exit
      | Parsed (op_name, t, c, per_op) \<Rightarrow>
          (case get_op op_name of
             None \<Rightarrow> Exit_failure
           | Some p \<Rightarrow>
               (let cfg = \<lparr>total = t, concurrency = c, measure_per_op_usage = per_op\<rparr> in
                (case run_op E p cfg of
                   Inl err \<Rightarrow> Exit_failure
                 | Inr out \<Rightarrow>
                     (let path = ''results/'' @ op_name @ ''.csv'';
                          lines = csv_file (measurements out) in
                      if \<not> me_create_dir E ''results'' \<or> \<not> me_create_file E path
                         \<or> \<not> list_all (me_write E) lines then Panic_exit
                      else Completed_run path lines (run_total_line op_name cfg out))))))"

section \<open>Numbers\<close>

lemmas parse_usize_show = parse_uint_show [where bound = u64_max, folded parse_usize_def]

lemma parse_usize_bound: "parse_usize s = Some n \<Longrightarrow> n \<le> u64_max"
  by (auto simp: parse_usize_def dest: parse_uint_bound)

section \<open>Properties\<close>

lemma parse_loop_bound:
  assumes "parse_loop args st = Parsed st'" "\<And>n. a_total st = Some n \<Longrightarrow> n \<le> u64_max"
    and "a_total st' = Some n"
  shows "n \<le> u64_max"
  using assms
proof (induction args st arbitrary: rule: parse_loop.induct)
  case (1 st)
  then show ?case by simp
next
  case (2 a rest st)
  then show ?case
    by (auto split: if_splits list.splits option.splits dest: parse_usize_bound)
qed

lemma parse_args_valid_facts:
  assumes "parse_args args = Parsed (name, t, c, per_op)"
  shows "0 < c" "c \<le> t" "t \<le> u64_max"
    and "worker_count \<lparr>total = t, concurrency = c, measure_per_op_usage = per_op\<rparr> = c"
    and "iteration_count t c tid \<noteq> None" "iteration_offset t c tid \<noteq> None"
proof -
  from assms obtain st where st: "parse_loop (drop 1 args)
      \<lparr>a_op = None, a_total = None, a_concurrency = None, a_per_op = True\<rparr> = Parsed st" "a_total st = Some t"
    and c: "0 < c \<and> c \<le> t"
    by (auto simp: parse_args_def Let_def split: outcome.splits option.splits if_splits)
  show "0 < c" "c \<le> t" using c by auto
  show "t \<le> u64_max" using parse_loop_bound [OF st(1) _ st(2)] by simp
  show "worker_count \<lparr>total = t, concurrency = c, measure_per_op_usage = per_op\<rparr> = c"
    using c by (simp add: worker_count_def)
  show "iteration_count t c tid \<noteq> None" "iteration_offset t c tid \<noteq> None"
    using c by (simp_all add: iteration_count_def iteration_offset_def Let_def)
qed

text \<open>
  the configuration a run starts with. When the command line is accepted, the total is a
  positive \<open>usize\<close> and the concurrency lies between one and the total, so the number of
  workers is the concurrency and the division in \<open>iteration_count\<close> never fails.
\<close>

theorem parse_args_valid:
  assumes "parse_args args = Parsed (name, t, c, per_op)"
  shows "0 < c \<and> c \<le> t \<and> t \<le> u64_max \<and>
    worker_count \<lparr>total = t, concurrency = c, measure_per_op_usage = per_op\<rparr> = c \<and>
    iteration_count t c tid \<noteq> None \<and> iteration_offset t c tid \<noteq> None"
  using parse_args_valid_facts [OF assms] by blast

theorem parse_args_valid_witness:
  "parse_args [''bench'', ''-t'', ''8'', ''-p'', ''noop'', ''-c'', ''20''] = Parsed (''noop'', 8, 8, True)
     \<and> iteration_count 8 8 3 \<noteq> None"
proof -
  have p: "parse_args [''bench'', ''-t'', ''8'', ''-p'', ''noop'', ''-c'', ''20'']
      = Parsed (''noop'', 8, 8, True)"
    by (simp add: parse_args_def parse_usize_def parse_uint_def digit_value_def u64_max_def flag_def Let_def)
  with parse_args_valid [OF p, of 3] show ?thesis by simp
qed

lemma parse_args_roundtrip_facts:
  assumes "0 < t" "t \<le> u64_max" "0 < c" "c \<le> u64_max"
  shows "parse_args [prog, ''-p'', name, ''-t'', show_nat t, ''-c'', show_nat c]
           = Parsed (name, t, min c t, True)"
    and "parse_args [prog, ''--no-per-op-usage'', ''--concurrency'', show_nat c, ''--total'', show_nat t,
           ''--op'', name] = Parsed (name, t, min c t, False)"
    and "parse_args [prog, ''-p'', name, ''-t'', show_nat t] = Parsed (name, t, t, True)"
  using assms by (simp_all add: parse_args_def parse_usize_show flag_def Let_def)

text \<open>
  the command line written for a run is the one that is read back: for positive totals and
  concurrencies, in either order of the options, the parsed concurrency is capped by the total.
\<close>

theorem parse_args_roundtrip:
  assumes "0 < t" "t \<le> u64_max" "0 < c" "c \<le> u64_max"
  shows "parse_args [prog, ''-p'', name, ''-t'', show_nat t, ''-c'', show_nat c]
           = Parsed (name, t, min c t, True) \<and>
    parse_args [prog, ''--no-per-op-usage'', ''--concurrency'', show_nat c, ''--total'', show_nat t,
           ''--op'', name] = Parsed (name, t, min c t, False) \<and>
    parse_args [prog, ''-p'', name, ''-t'', show_nat t] = Parsed (name, t, t, True)"
  by (intro conjI parse_args_roundtrip_facts [OF assms])

theorem parse_args_roundtrip_witness:
  "parse_args [''bench'', ''-p'', ''noop'', ''-t'', show_nat 8, ''-c'', show_nat 20]
     = Parsed (''noop'', 8, 8, True)"
  using parse_args_roundtrip [of 8 20 "''bench''" "''noop''"] by (simp add: u64_max_def)

text \<open>Reading a line of the file: the fields between the commas.\<close>

fun split_commas :: "string \<Rightarrow> string list" where
  "split_commas [] = [[]]"
| "split_commas (c # cs) =
     (if c = CHR '','' then [] # split_commas cs
      else case split_commas cs of
        [] \<Rightarrow> [[c]]
      | f # fs \<Rightarrow> (c # f) # fs)"

lemma split_commas_nonempty: "split_commas s \<noteq> []"
  by (induction s) (auto split: list.split)

lemma split_commas_field: "CHR '','' \<notin> set f \<Longrightarrow> split_commas f = [f]"
  by (induction f) auto

lemma split_commas_append:
  "CHR '','' \<notin> set f \<Longrightarrow> split_commas (f @ '','' @ s) = f # split_commas s"
  by (induction f) auto

lemma split_join_commas:
  "fs \<noteq> [] \<Longrightarrow> \<forall>f\<in>set fs. CHR '','' \<notin> set f \<Longrightarrow> split_commas (join_commas fs) = fs"
proof (induction fs rule: join_commas.induct)
  case (3 x y fs)
  then show ?case by (simp add: split_commas_append del: append.simps)
qed (auto simp: split_commas_field)

lemma csv_row_roundtrip_facts:
  assumes "CHR '','' \<notin> set (stage m)" "CHR '','' \<notin> set (stage m')"
  shows "split_commas (csv_row m) = csv_fields m"
    and "length (split_commas (csv_row m)) = length (split_commas csv_header)"
    and "csv_row m = csv_row (m' :: measurement) \<Longrightarrow> m = m'"
proof -
  have comma: "CHR '','' \<notin> set (show_nat n)" for n
    by (rule show_nat_no_char) simp
  have split: "split_commas (csv_row x) = csv_fields x" if "CHR '','' \<notin> set (stage x)" for x :: measurement
    unfolding csv_row_def
    by (rule split_join_commas) (use that comma in \<open>auto simp: csv_fields_def\<close>)
  show "split_commas (csv_row m) = csv_fields m" using assms(1) by (rule split)
  show "length (split_commas (csv_row m)) = length (split_commas csv_header)"
    unfolding split [OF assms(1)] by (simp add: csv_fields_def csv_header_def)
  show "m = m'" if "csv_row m = csv_row m'"
  proof -
    have "csv_fields m = csv_fields m'" using split assms that by metis
    then show ?thesis by (simp add: csv_fields_def) (auto dest: show_nat_inj intro: measurement.equality)
  qed
qed

text \<open>
  the CSV file is faithful. For a stage name without commas a row has the fourteen fields
  of the header, splitting it gives back the fields, and different measurements give
  different rows.
\<close>

theorem csv_row_roundtrip:
  assumes "CHR '','' \<notin> set (stage m)" "CHR '','' \<notin> set (stage m')"
  shows "split_commas (csv_row m) = csv_fields m \<and>
    length (split_commas (csv_row m)) = length (split_commas csv_header) \<and>
    (csv_row m = csv_row (m' :: measurement) \<longrightarrow> m = m')"
  using csv_row_roundtrip_facts [OF assms] by blast

theorem csv_row_roundtrip_witness:
  "split_commas (csv_row (into_measurement usage_zero 1 2 3 ''run'' 4 5))
     = csv_fields (into_measurement usage_zero 1 2 3 ''run'' 4 5)"
  using csv_row_roundtrip [of "into_measurement usage_zero 1 2 3 ''run'' 4 5"
      "into_measurement usage_zero 1 2 3 ''run'' 4 5"]
  by (simp add: into_measurement_def)

end
