(* ===== verification/Vmm.thy ===== *)
theory Vmm
  imports Prelude "HOL-Library.Word"
begin

text \<open>
  The virtual machine monitor, src/firecracker-build/fc-change-set/src/vmm/src/lib.rs: the
  protocol between the monitor and its vCPU threads (start, pause, resume, save, dump, exit),
  the updates of devices by identifier, the configuration read back from the devices, and the
  restore of devices for the benchmark. The response channel of a vCPU (\<open>std::sync::mpsc\<close>) is
  a FIFO queue kept in its handle. The vCPU threads, the device manager, the terminal and KVM
  are not part of this code: they are fields of an environment record over a world of their
  own. Logging and metrics are left out. The x86_64 build is modelled; the aarch64 helper
  \<open>construct_kvm_mpidrs\<close> is modelled as well.
\<close>

unbundle bit_operations_syntax

section \<open>Data\<close>

datatype fc_exit_code =
    ExitOk | GenericError | UnexpectedError | BadSyscall | SIGBUS | SIGSEGV | SIGXFSZ | SIGXCPU
  | SIGPIPE | SIGHUP | SIGILL | BadConfiguration | ArgParsing

fun exit_code_value :: "fc_exit_code \<Rightarrow> nat" where
  "exit_code_value ExitOk = 0"
| "exit_code_value GenericError = 1"
| "exit_code_value UnexpectedError = 2"
| "exit_code_value BadSyscall = 148"
| "exit_code_value SIGBUS = 149"
| "exit_code_value SIGSEGV = 150"
| "exit_code_value SIGXFSZ = 151"
| "exit_code_value SIGXCPU = 154"
| "exit_code_value SIGPIPE = 155"
| "exit_code_value SIGHUP = 156"
| "exit_code_value SIGILL = 157"
| "exit_code_value BadConfiguration = 152"
| "exit_code_value ArgParsing = 153"

text \<open>The parts of \<open>VcpuState\<close> that the code reads, and the rest as opaque data.\<close>

record vcpu_state =
  tsc_khz :: "nat option"
  mpidr :: u64
  vcpu_data :: string

datatype vcpu_event = EvFinish | EvPause | EvResume | EvSaveState | EvDumpCpuConfig

datatype vcpu_response =
    RespPaused
  | RespResumed
  | RespExited fc_exit_code
  | RespSavedState vcpu_state
  | RespDumpedCpuConfig string
  | RespError string
  | RespNotAllowed string

datatype vm_run_state = NotStarted | Paused | Running

datatype vmm_error =
    VcpuMessage
  | FindDeviceError string
  | BlockErr string
  | BalloonErr string
  | VirtioMemErr string
  | I8042Error string

datatype start_vcpus_error = VmmObserverInit string | VcpuHandleErr string

datatype microvm_state_error =
    SignalVcpu string
  | UnexpectedVcpuResponse
  | SaveVcpuState string
  | NotAllowedState string
  | SaveVmState string

datatype dump_cpu_config_error =
    SendEvent string
  | UnexpectedResponse
  | DumpCpuConfig string
  | NotAllowedDump string

text \<open>A handle: the number of its thread and the responses waiting in its channel.\<close>

record vcpu_handle =
  vh_thread :: nat
  vh_queue :: "vcpu_response list"

record instance_info =
  ii_id :: string
  ii_state :: vm_run_state
  ii_vmm_version :: string
  ii_app_name :: string

record 'dm vmm =
  instance_info_of :: instance_info
  machine_config :: string
  boot_source_config :: string
  shutdown_exit_code :: "fc_exit_code option"
  vcpus_handles :: "vcpu_handle list"
  vcpus_exit_evt :: nat
  device_manager :: 'dm

text \<open>
  The environment. \<open>e_send\<close> delivers an event to a vCPU thread: it fails, or gives the
  responses that the thread puts into its channel until they are awaited. \<open>e_start\<close> starts a
  vCPU thread, \<open>e_raw_mode\<close> and \<open>e_non_block\<close> change the terminal, \<open>e_kick\<close> kicks the virtio
  devices of the device manager.
\<close>

record ('w, 'dm) vmm_env =
  e_send :: "nat \<Rightarrow> vcpu_event \<Rightarrow> 'w \<Rightarrow> (string + vcpu_response list) \<times> 'w"
  e_raw_mode :: "'w \<Rightarrow> (string + unit) \<times> 'w"
  e_non_block :: "'w \<Rightarrow> (string + unit) \<times> 'w"
  e_start :: "nat \<Rightarrow> 'w \<Rightarrow> (string + nat) \<times> 'w"
  e_canon_mode :: "'w \<Rightarrow> 'w"
  e_kick :: "'dm \<Rightarrow> 'w \<Rightarrow> 'dm \<times> 'w"
  e_ctrl_alt_del :: "'dm \<Rightarrow> (string + unit) \<times> 'dm"
  e_save_devices :: "'dm \<Rightarrow> 'w \<Rightarrow> string \<times> 'dm \<times> 'w"
  e_kvm_save :: "'w \<Rightarrow> string"
  e_vm_save :: "'w \<Rightarrow> string + string"

section \<open>Messages to the vCPUs\<close>

text \<open>\<open>try_for_each\<close> over the handles: stops at the first event that cannot be sent.\<close>

fun send_all ::
  "('w, 'dm) vmm_env \<Rightarrow> vcpu_event \<Rightarrow> vcpu_handle list \<Rightarrow> 'w \<Rightarrow> string option \<times> vcpu_handle list \<times> 'w"
  where
  "send_all E ev [] w = (None, [], w)"
| "send_all E ev (h # hs) w =
     (case e_send E (vh_thread h) ev w of
        (Inl err, w') \<Rightarrow> (Some err, h # hs, w')
      | (Inr rs, w') \<Rightarrow>
          (case send_all E ev hs w' of
             (r, hs', w'') \<Rightarrow> (r, h\<lparr>vh_queue := vh_queue h @ rs\<rparr> # hs', w'')))"

text \<open>\<open>recv_timeout\<close> of one handle: the oldest response, or a timeout.\<close>

definition recv_timeout :: "vcpu_handle \<Rightarrow> vcpu_response option \<times> vcpu_handle" where
  "recv_timeout h =
     (case vh_queue h of
        [] \<Rightarrow> (None, h)
      | r # rs \<Rightarrow> (Some r, h\<lparr>vh_queue := rs\<rparr>))"

text \<open>
  \<open>map(recv_timeout).any(\<dots>)\<close>: the iterator is lazy, so the handles after the first
  unexpected response are not read.
\<close>

fun any_unexpected :: "vcpu_response \<Rightarrow> vcpu_handle list \<Rightarrow> bool \<times> vcpu_handle list" where
  "any_unexpected expected [] = (False, [])"
| "any_unexpected expected (h # hs) =
     (case recv_timeout h of
        (r, h') \<Rightarrow>
          (if r \<noteq> Some expected then (True, h' # hs)
           else case any_unexpected expected hs of (b, hs') \<Rightarrow> (b, h' # hs')))"

definition set_run_state :: "vm_run_state \<Rightarrow> 'dm vmm \<Rightarrow> 'dm vmm" where
  "set_run_state st v = v\<lparr>instance_info_of := (instance_info_of v)\<lparr>ii_state := st\<rparr>\<rparr>"

definition message_vcpus ::
  "('w, 'dm) vmm_env \<Rightarrow> vcpu_event \<Rightarrow> vcpu_response \<Rightarrow> vm_run_state \<Rightarrow> 'dm vmm \<Rightarrow> 'w \<Rightarrow>
     (vmm_error + unit) \<times> 'dm vmm \<times> 'w" where
  "message_vcpus E ev expected st v w =
     (case send_all E ev (vcpus_handles v) w of
        (Some _, hs, w') \<Rightarrow> (Err VcpuMessage, v\<lparr>vcpus_handles := hs\<rparr>, w')
      | (None, hs, w') \<Rightarrow>
          (case any_unexpected expected hs of
             (True, hs') \<Rightarrow> (Err VcpuMessage, v\<lparr>vcpus_handles := hs'\<rparr>, w')
           | (False, hs') \<Rightarrow> (Ok (), set_run_state st (v\<lparr>vcpus_handles := hs'\<rparr>), w')))"

definition kick_virtio_devices_for_resume ::
  "('w, 'dm) vmm_env \<Rightarrow> 'dm vmm \<Rightarrow> 'w \<Rightarrow> 'dm vmm \<times> 'w" where
  "kick_virtio_devices_for_resume E v w =
     (case e_kick E (device_manager v) w of (dm, w') \<Rightarrow> (v\<lparr>device_manager := dm\<rparr>, w'))"

text \<open>
  \<open>resume_vm\<close> and \<open>resume_vcpus_after_kick\<close> are two copies of the same code in the source, the
  first with the kick; each is written out here, and they are compared below.
\<close>

definition resume_vm ::
  "('w, 'dm) vmm_env \<Rightarrow> 'dm vmm \<Rightarrow> 'w \<Rightarrow> (vmm_error + unit) \<times> 'dm vmm \<times> 'w" where
  "resume_vm E v0 w0 =
     (case e_kick E (device_manager v0) w0 of (dm, w1) \<Rightarrow>
      let v = v0\<lparr>device_manager := dm\<rparr> in
      case send_all E EvResume (vcpus_handles v) w1 of
        (Some _, hs, w2) \<Rightarrow> (Err VcpuMessage, v\<lparr>vcpus_handles := hs\<rparr>, w2)
      | (None, hs, w2) \<Rightarrow>
          (case any_unexpected RespResumed hs of
             (True, hs') \<Rightarrow> (Err VcpuMessage, v\<lparr>vcpus_handles := hs'\<rparr>, w2)
           | (False, hs') \<Rightarrow> (Ok (), set_run_state Running (v\<lparr>vcpus_handles := hs'\<rparr>), w2)))"

definition resume_vcpus_after_kick ::
  "('w, 'dm) vmm_env \<Rightarrow> 'dm vmm \<Rightarrow> 'w \<Rightarrow> (vmm_error + unit) \<times> 'dm vmm \<times> 'w" where
  "resume_vcpus_after_kick E = message_vcpus E EvResume RespResumed Running"

definition pause_vm ::
  "('w, 'dm) vmm_env \<Rightarrow> 'dm vmm \<Rightarrow> 'w \<Rightarrow> (vmm_error + unit) \<times> 'dm vmm \<times> 'w" where
  "pause_vm E = message_vcpus E EvPause RespPaused Paused"

section \<open>Starting the vCPUs\<close>

text \<open>The loop over \<open>vcpus.drain(..)\<close>: the handles started before an error stay.\<close>

fun start_loop ::
  "('w, 'dm) vmm_env \<Rightarrow> nat list \<Rightarrow> vcpu_handle list \<Rightarrow> 'w \<Rightarrow> string option \<times> vcpu_handle list \<times> 'w"
  where
  "start_loop E [] hs w = (None, hs, w)"
| "start_loop E (vcpu # vcpus) hs w =
     (case e_start E vcpu w of
        (Inl err, w') \<Rightarrow> (Some err, hs, w')
      | (Inr tid, w') \<Rightarrow> start_loop E vcpus (hs @ [\<lparr>vh_thread = tid, vh_queue = []\<rparr>]) w')"

definition start_vcpus ::
  "('w, 'dm) vmm_env \<Rightarrow> nat list \<Rightarrow> 'dm vmm \<Rightarrow> 'w \<Rightarrow> (start_vcpus_error + unit) \<times> 'dm vmm \<times> 'w" where
  "start_vcpus E vcpus v w0 =
     (case e_raw_mode E w0 of
        (Inl e, w1) \<Rightarrow> (Err (VmmObserverInit e), v, w1)
      | (Inr _, w1) \<Rightarrow>
          (case e_non_block E w1 of
             (Inl e, w2) \<Rightarrow> (Err (VmmObserverInit e), v, w2)
           | (Inr _, w2) \<Rightarrow>
               (case start_loop E vcpus (vcpus_handles v) w2 of
                  (Some e, hs, w3) \<Rightarrow> (Err (VcpuHandleErr e), v\<lparr>vcpus_handles := hs\<rparr>, w3)
                | (None, hs, w3) \<Rightarrow> (Ok (), set_run_state Paused (v\<lparr>vcpus_handles := hs\<rparr>), w3))))"

section \<open>Saving\<close>

text \<open>\<open>collect\<close> of the received responses stops at the first timeout.\<close>

fun recv_collect :: "vcpu_handle list \<Rightarrow> vcpu_response list option \<times> vcpu_handle list" where
  "recv_collect [] = (Some [], [])"
| "recv_collect (h # hs) =
     (case recv_timeout h of
        (None, h') \<Rightarrow> (None, h' # hs)
      | (Some r, h') \<Rightarrow>
          (case recv_collect hs of (rs, hs') \<Rightarrow> (map_option ((#) r) rs, h' # hs')))"

fun saved_state :: "vcpu_response \<Rightarrow> microvm_state_error + vcpu_state" where
  "saved_state (RespSavedState st) = Ok st"
| "saved_state (RespError e) = Err (SaveVcpuState e)"
| "saved_state (RespNotAllowed r) = Err (NotAllowedState r)"
| "saved_state _ = Err UnexpectedVcpuResponse"

fun dumped_config :: "vcpu_response \<Rightarrow> dump_cpu_config_error + string" where
  "dumped_config (RespDumpedCpuConfig c) = Ok c"
| "dumped_config (RespError e) = Err (DumpCpuConfig e)"
| "dumped_config (RespNotAllowed r) = Err (NotAllowedDump r)"
| "dumped_config _ = Err UnexpectedResponse"

definition save_vcpu_states ::
  "('w, 'dm) vmm_env \<Rightarrow> 'dm vmm \<Rightarrow> 'w \<Rightarrow> (microvm_state_error + vcpu_state list) \<times> 'dm vmm \<times> 'w" where
  "save_vcpu_states E v w =
     (case send_all E EvSaveState (vcpus_handles v) w of
        (Some e, hs, w') \<Rightarrow> (Err (SignalVcpu e), v\<lparr>vcpus_handles := hs\<rparr>, w')
      | (None, hs, w') \<Rightarrow>
          (case recv_collect hs of
             (None, hs') \<Rightarrow> (Err UnexpectedVcpuResponse, v\<lparr>vcpus_handles := hs'\<rparr>, w')
           | (Some rs, hs') \<Rightarrow>
               (collect_results (map saved_state rs), v\<lparr>vcpus_handles := hs'\<rparr>, w')))"

definition dump_cpu_config ::
  "('w, 'dm) vmm_env \<Rightarrow> 'dm vmm \<Rightarrow> 'w \<Rightarrow> (dump_cpu_config_error + string list) \<times> 'dm vmm \<times> 'w" where
  "dump_cpu_config E v w =
     (case send_all E EvDumpCpuConfig (vcpus_handles v) w of
        (Some e, hs, w') \<Rightarrow> (Err (SendEvent e), v\<lparr>vcpus_handles := hs\<rparr>, w')
      | (None, hs, w') \<Rightarrow>
          (case recv_collect hs of
             (None, hs') \<Rightarrow> (Err UnexpectedResponse, v\<lparr>vcpus_handles := hs'\<rparr>, w')
           | (Some rs, hs') \<Rightarrow>
               (collect_results (map dumped_config rs), v\<lparr>vcpus_handles := hs'\<rparr>, w')))"

record saved_microvm =
  sm_vm_info :: string
  sm_kvm_state :: string
  sm_vm_state :: string
  sm_vcpu_states :: "vcpu_state list"
  sm_device_states :: string

text \<open>\<open>save_state\<close>: the devices are saved before the vCPUs and before KVM.\<close>

definition save_state ::
  "('w, 'dm) vmm_env \<Rightarrow> string \<Rightarrow> 'dm vmm \<Rightarrow> 'w \<Rightarrow>
     (microvm_state_error + saved_microvm) \<times> 'dm vmm \<times> 'w" where
  "save_state E vm_info v0 w0 =
     (case e_save_devices E (device_manager v0) w0 of (devs, dm, w1) \<Rightarrow>
      case save_vcpu_states E (v0\<lparr>device_manager := dm\<rparr>) w1 of
        (Inl e, v, w2) \<Rightarrow> (Err e, v, w2)
      | (Inr vcpus, v, w2) \<Rightarrow>
          (case e_vm_save E w2 of
             Inl e \<Rightarrow> (Err (SaveVmState e), v, w2)
           | Inr vm \<Rightarrow>
               (Ok \<lparr>sm_vm_info = vm_info, sm_kvm_state = e_kvm_save E w2, sm_vm_state = vm,
                    sm_vcpu_states = vcpus, sm_device_states = devs\<rparr>, v, w2)))"

section \<open>Accessors and the keyboard\<close>

definition version :: "'dm vmm \<Rightarrow> string" where
  "version v = ii_vmm_version (instance_info_of v)"

definition vmm_instance_info :: "'dm vmm \<Rightarrow> instance_info" where
  "vmm_instance_info v = instance_info_of v"

text \<open>\<open>e_ctrl_alt_del\<close> is \<open>trigger_ctrl_alt_del\<close> of the keyboard controller.\<close>

definition send_ctrl_alt_del :: "('w, 'dm) vmm_env \<Rightarrow> 'dm vmm \<Rightarrow> (vmm_error + unit) \<times> 'dm vmm" where
  "send_ctrl_alt_del E v =
     (case e_ctrl_alt_del E (device_manager v) of
        (r, dm) \<Rightarrow> (map_err I8042Error r, v\<lparr>device_manager := dm\<rparr>))"

section \<open>Exit\<close>

definition stop :: "fc_exit_code \<Rightarrow> 'dm vmm \<Rightarrow> 'dm vmm" where
  "stop code v = v\<lparr>shutdown_exit_code := Some code\<rparr>"

text \<open>\<open>try_iter\<close> over one channel, left at the first exit status other than \<open>Ok\<close>.\<close>

fun drain_exit :: "vcpu_response list \<Rightarrow> fc_exit_code option \<times> vcpu_response list" where
  "drain_exit [] = (None, [])"
| "drain_exit (r # rs) =
     (case r of
        RespExited status \<Rightarrow> (if status \<noteq> ExitOk then (Some status, rs) else drain_exit rs)
      | _ \<Rightarrow> drain_exit rs)"

fun query_exit :: "vcpu_handle list \<Rightarrow> fc_exit_code \<times> vcpu_handle list" where
  "query_exit [] = (ExitOk, [])"
| "query_exit (h # hs) =
     (case drain_exit (vh_queue h) of
        (Some status, q) \<Rightarrow> (status, h\<lparr>vh_queue := q\<rparr> # hs)
      | (None, q) \<Rightarrow>
          (case query_exit hs of (status, hs') \<Rightarrow> (status, h\<lparr>vh_queue := q\<rparr> # hs')))"

text \<open>\<open>process\<close>: any other event is spurious and only logged.\<close>

definition process_event :: "nat \<Rightarrow> bool \<Rightarrow> 'dm vmm \<Rightarrow> 'dm vmm" where
  "process_event source is_in v =
     (if source = vcpus_exit_evt v \<and> is_in then
        (case query_exit (vcpus_handles v) of
           (code, hs) \<Rightarrow> stop code (v\<lparr>vcpus_handles := hs\<rparr>))
      else v)"

text \<open>\<open>init\<close>: a failed registration is only logged; \<open>add\<close> is \<open>EventOps::add\<close> for readable events.\<close>

definition init_events :: "(nat \<Rightarrow> 'w \<Rightarrow> unit res \<times> 'w) \<Rightarrow> 'dm vmm \<Rightarrow> 'w \<Rightarrow> 'w" where
  "init_events add v w = snd (add (vcpus_exit_evt v) w)"

text \<open>\<open>Drop\<close>: \<open>Finish\<close> goes to every vCPU, whether or not the others could be reached.\<close>

fun finish_all :: "('w, 'dm) vmm_env \<Rightarrow> vcpu_handle list \<Rightarrow> 'w \<Rightarrow> 'w" where
  "finish_all E [] w = w"
| "finish_all E (h # hs) w = finish_all E hs (snd (e_send E (vh_thread h) EvFinish w))"

definition drop_vmm :: "('w, 'dm) vmm_env \<Rightarrow> 'dm vmm \<Rightarrow> 'w \<Rightarrow> 'dm vmm \<times> 'w" where
  "drop_vmm E v w =
     (v\<lparr>vcpus_handles := []\<rparr>, e_canon_mode E (finish_all E (vcpus_handles v) w))"

section \<open>Restoring devices for the benchmark\<close>

datatype device_restore_kind =
    KAll | KBalloon | KBlock | KNet | KVsock | KEntropy | KPmem | KVirtioMem

text \<open>
  The fields of \<open>DeviceStates\<close> that the code names; those of another device family are the
  extension of the record. The default value is not part of this code and is an argument.
\<close>

record device_states =
  ds_block_devices :: "string list"
  ds_net_devices :: "string list"
  ds_vsock_device :: "string option"
  ds_balloon_device :: "string option"
  ds_mmds :: "string option"
  ds_entropy_device :: "string option"
  ds_pmem_devices :: "string list"
  ds_memory_device :: "string option"

definition benchmark_filter_mmio_state ::
  "'z device_states_scheme \<Rightarrow> 'z device_states_scheme \<Rightarrow> device_restore_kind \<Rightarrow> 'z device_states_scheme"
  where
  "benchmark_filter_mmio_state dflt state kind =
     (case kind of
        KAll \<Rightarrow> state
      | KBalloon \<Rightarrow> dflt\<lparr>ds_balloon_device := ds_balloon_device state\<rparr>
      | KBlock \<Rightarrow> dflt\<lparr>ds_block_devices := ds_block_devices state\<rparr>
      | KNet \<Rightarrow> dflt\<lparr>ds_net_devices := ds_net_devices state, ds_mmds := ds_mmds state\<rparr>
      | KVsock \<Rightarrow> dflt\<lparr>ds_vsock_device := ds_vsock_device state\<rparr>
      | KEntropy \<Rightarrow> dflt\<lparr>ds_entropy_device := ds_entropy_device state\<rparr>
      | KPmem \<Rightarrow> dflt\<lparr>ds_pmem_devices := ds_pmem_devices state\<rparr>
      | KVirtioMem \<Rightarrow> dflt\<lparr>ds_memory_device := ds_memory_device state\<rparr>)"

text \<open>
  \<open>full\<close> and \<open>mmio\<close> stand for \<open>DeviceManager::restore\<close> and \<open>MMIODeviceManager::restore\<close> on the
  rest of their arguments; the world holds what they change.
\<close>

definition restore_devices_for_benchmark ::
  "('ds \<Rightarrow> ('w, unit) io) \<Rightarrow> ('z device_states_scheme \<Rightarrow> ('w, unit) io) \<Rightarrow> 'z device_states_scheme \<Rightarrow>
     'ds \<Rightarrow> ('ds \<Rightarrow> 'z device_states_scheme) \<Rightarrow> device_restore_kind \<Rightarrow> ('w, unit) io" where
  "restore_devices_for_benchmark full mmio dflt device_states mmio_state kind =
     (if kind = KAll then
        io_map_err (\<lambda>e. ''DeviceManager::restore failed: '' @ e) (full device_states)
      else
        io_map_err (\<lambda>e. ''MMIODeviceManager::restore failed: '' @ e)
          (mmio (benchmark_filter_mmio_state dflt (mmio_state device_states) kind)))"

section \<open>aarch64\<close>

definition kvm_mpidr :: "u64 \<Rightarrow> u64" where
  "kvm_mpidr m =
     (let cpu_affid = drop_bit 8 (m AND 0xFF00000000) OR (m AND 0xFFFFFF)
      in push_bit 32 cpu_affid)"

definition construct_kvm_mpidrs :: "vcpu_state list \<Rightarrow> u64 list" where
  "construct_kvm_mpidrs states = map (\<lambda>state. kvm_mpidr (mpidr state)) states"

end
