(* ===== verification/Vmm_Props.thy ===== *)
theory Vmm_Props
  imports Vmm
begin

text \<open>
  Properties of the monitor: when pausing and resuming succeed, that the two paths of the
  benchmark together are the original resume, what a failed exchange leaves in the channels,
  the exit status, the saved states, the device families and the affinity fields.
\<close>

section \<open>Exchanges with the vCPUs\<close>

text \<open>What is left of a channel after one response has been taken.\<close>

definition pop_response :: "vcpu_handle \<Rightarrow> vcpu_handle" where
  "pop_response h = h\<lparr>vh_queue := tl (vh_queue h)\<rparr>"

definition answers :: "vcpu_response \<Rightarrow> vcpu_handle \<Rightarrow> bool" where
  "answers r h = (vh_queue h \<noteq> [] \<and> hd (vh_queue h) = r)"

lemma recv_timeout_answers:
  "recv_timeout h = (if vh_queue h = [] then None else Some (hd (vh_queue h)), pop_response h)"
  by (cases "vh_queue h") (simp_all add: recv_timeout_def pop_response_def)

lemma any_unexpected_all:
  "list_all (answers r) hs \<Longrightarrow> any_unexpected r hs = (False, map pop_response hs)"
  by (induction hs) (auto simp: recv_timeout_answers answers_def)

lemma any_unexpected_some: "\<not> list_all (answers r) hs \<Longrightarrow> fst (any_unexpected r hs)"
  by (induction hs) (auto simp: recv_timeout_answers answers_def split: prod.split)

lemma any_unexpected_first:
  assumes "list_all (answers r) pre" "\<not> answers r h"
  shows "any_unexpected r (pre @ h # post) = (True, map pop_response pre @ pop_response h # post)"
  using assms
  by (induction pre) (auto simp: recv_timeout_answers answers_def)

lemma message_vcpus_ok_iff:
  "message_vcpus E ev r st v w = (Ok (), v', w') \<longleftrightarrow>
     (\<exists>hs. send_all E ev (vcpus_handles v) w = (None, hs, w') \<and> list_all (answers r) hs \<and>
           v' = set_run_state st (v\<lparr>vcpus_handles := map pop_response hs\<rparr>))"
proof (cases "send_all E ev (vcpus_handles v) w")
  case (fields e hs w1)
  show ?thesis
  proof (cases e)
    case None
    obtain b hs1 where any: "any_unexpected r hs = (b, hs1)" by fastforce
    show ?thesis
    proof (cases "list_all (answers r) hs")
      case True
      with None fields any_unexpected_all [OF True] show ?thesis by (auto simp: message_vcpus_def)
    next
      case False
      with any_unexpected_some [OF False] any have b by simp
      with None fields any False show ?thesis by (simp add: message_vcpus_def)
    qed
  next
    case (Some err)
    with fields show ?thesis by (simp add: message_vcpus_def)
  qed
qed

lemma message_vcpus_err:
  assumes "message_vcpus E ev r st v w = (Err e, v', w')"
  shows "e = VcpuMessage" "instance_info_of v' = instance_info_of v" "device_manager v' = device_manager v"
  using assms by (auto simp: message_vcpus_def split: prod.splits option.splits bool.splits)

lemma resume_vm_message:
  "resume_vm E v w =
     (case kick_virtio_devices_for_resume E v w of (v1, w1) \<Rightarrow> resume_vcpus_after_kick E v1 w1)"
  by (simp add: resume_vm_def kick_virtio_devices_for_resume_def resume_vcpus_after_kick_def
      message_vcpus_def Let_def split: prod.split)

text \<open>
  resuming. \<open>resume_vm\<close> is exactly \<open>kick_virtio_devices_for_resume\<close> followed by
  \<open>resume_vcpus_after_kick\<close>, so the two operations the benchmark measures separately add up to
  the original one.
\<close>

theorem resume_vm_split:
  "resume_vm E v w =
     (case kick_virtio_devices_for_resume E v w of (v1, w1) \<Rightarrow> resume_vcpus_after_kick E v1 w1)"
  by (rule resume_vm_message)

lemma pause_resume_outcome_facts:
  "pause_vm E v w = (Ok (), v', w') \<longleftrightarrow>
     (\<exists>hs. send_all E EvPause (vcpus_handles v) w = (None, hs, w') \<and> list_all (answers RespPaused) hs \<and>
           v' = set_run_state Paused (v\<lparr>vcpus_handles := map pop_response hs\<rparr>))"
  "resume_vcpus_after_kick E v w = (Ok (), v', w') \<longleftrightarrow>
     (\<exists>hs. send_all E EvResume (vcpus_handles v) w = (None, hs, w') \<and> list_all (answers RespResumed) hs \<and>
           v' = set_run_state Running (v\<lparr>vcpus_handles := map pop_response hs\<rparr>))"
  "pause_vm E v w = (Err e, v', w') \<Longrightarrow> e = VcpuMessage \<and> instance_info_of v' = instance_info_of v"
  "resume_vm E v w = (Err e, v', w') \<Longrightarrow> e = VcpuMessage \<and> instance_info_of v' = instance_info_of v"
proof -
  show "pause_vm E v w = (Err e, v', w') \<Longrightarrow> e = VcpuMessage \<and> instance_info_of v' = instance_info_of v"
    by (auto simp: pause_vm_def dest: message_vcpus_err)
  show "resume_vm E v w = (Err e, v', w') \<Longrightarrow> e = VcpuMessage \<and> instance_info_of v' = instance_info_of v"
    by (auto simp: resume_vm_message resume_vcpus_after_kick_def kick_virtio_devices_for_resume_def
        split: prod.splits dest: message_vcpus_err)
qed (simp_all add: pause_vm_def resume_vcpus_after_kick_def message_vcpus_ok_iff)


section \<open>Responses left behind\<close>

text \<open>vCPUs that answer an event with exactly one response each.\<close>

definition replies_once :: "('w, 'dm) vmm_env \<Rightarrow> vcpu_event \<Rightarrow> (nat \<Rightarrow> vcpu_response) \<Rightarrow> bool" where
  "replies_once E ev reply = (\<forall>t w. \<exists>w'. e_send E t ev w = (Inr [reply t], w'))"

definition push_reply :: "(nat \<Rightarrow> vcpu_response) \<Rightarrow> vcpu_handle \<Rightarrow> vcpu_handle" where
  "push_reply reply h = h\<lparr>vh_queue := vh_queue h @ [reply (vh_thread h)]\<rparr>"

lemma send_all_once:
  assumes "replies_once E ev reply"
  shows "\<exists>w'. send_all E ev hs w = (None, map (push_reply reply) hs, w')"
proof (induction hs arbitrary: w)
  case Nil
  then show ?case by simp
next
  case (Cons h hs)
  obtain w1 where "e_send E (vh_thread h) ev w = (Inr [reply (vh_thread h)], w1)"
    using assms unfolding replies_once_def by blast
  moreover obtain w2 where "send_all E ev hs w1 = (None, map (push_reply reply) hs, w2)"
    using Cons by blast
  ultimately show ?case by (simp add: push_reply_def)
qed


section \<open>Exit status\<close>

fun exit_statuses :: "vcpu_response list \<Rightarrow> fc_exit_code list" where
  "exit_statuses [] = []"
| "exit_statuses (RespExited s # rs) = s # exit_statuses rs"
| "exit_statuses (_ # rs) = exit_statuses rs"

definition pending_failures :: "vcpu_handle list \<Rightarrow> fc_exit_code list" where
  "pending_failures hs = filter (\<lambda>s. s \<noteq> ExitOk) (concat (map (\<lambda>h. exit_statuses (vh_queue h)) hs))"

lemma drain_exit_first:
  "fst (drain_exit rs) =
     (case filter (\<lambda>s. s \<noteq> ExitOk) (exit_statuses rs) of [] \<Rightarrow> None | s # _ \<Rightarrow> Some s)"
  by (induction rs rule: exit_statuses.induct) auto

lemma query_exit_first:
  "fst (query_exit hs) = (case pending_failures hs of [] \<Rightarrow> ExitOk | s # _ \<Rightarrow> s)"
proof (induction hs)
  case Nil
  then show ?case by (simp add: pending_failures_def)
next
  case (Cons h hs)
  obtain st q where d: "drain_exit (vh_queue h) = (st, q)" by fastforce
  then have "st = (case filter (\<lambda>s. s \<noteq> ExitOk) (exit_statuses (vh_queue h)) of [] \<Rightarrow> None | s # _ \<Rightarrow> Some s)"
    using drain_exit_first [of "vh_queue h"] by simp
  with Cons d show ?case
    by (cases "filter (\<lambda>s. s \<noteq> ExitOk) (exit_statuses (vh_queue h))")
      (auto simp: pending_failures_def split: prod.split)
qed

lemma exit_error_precedence_facts:
  "shutdown_exit_code (process_event (vcpus_exit_evt v) True v)
     = Some (case pending_failures (vcpus_handles v) of [] \<Rightarrow> ExitOk | s # _ \<Rightarrow> s)"
  "shutdown_exit_code (process_event (vcpus_exit_evt v) True v) = Some ExitOk \<longleftrightarrow>
     (\<forall>h \<in> set (vcpus_handles v). \<forall>s. RespExited s \<in> set (vh_queue h) \<longrightarrow> s = ExitOk)"
  "source \<noteq> vcpus_exit_evt v \<or> \<not> is_in \<Longrightarrow> process_event source is_in v = v"
proof -
  have mem: "s \<in> set (exit_statuses rs) \<longleftrightarrow> RespExited s \<in> set rs" for s rs
    by (induction rs rule: exit_statuses.induct) auto
  show code: "shutdown_exit_code (process_event (vcpus_exit_evt v) True v)
     = Some (case pending_failures (vcpus_handles v) of [] \<Rightarrow> ExitOk | s # _ \<Rightarrow> s)"
    using query_exit_first [of "vcpus_handles v"]
    by (auto simp: process_event_def stop_def split: prod.splits)
  have "(case pending_failures hs of [] \<Rightarrow> ExitOk | s # _ \<Rightarrow> s) = ExitOk \<longleftrightarrow> pending_failures hs = []" for hs
  proof (cases "pending_failures hs")
    case (Cons s ss)
    then have "s \<in> set (pending_failures hs)" by simp
    then have "s \<noteq> ExitOk" by (simp add: pending_failures_def)
    with Cons show ?thesis by simp
  qed simp
  then show "shutdown_exit_code (process_event (vcpus_exit_evt v) True v) = Some ExitOk \<longleftrightarrow>
     (\<forall>h \<in> set (vcpus_handles v). \<forall>s. RespExited s \<in> set (vh_queue h) \<longrightarrow> s = ExitOk)"
    unfolding code by (auto simp: pending_failures_def filter_empty_conv mem)
  show "source \<noteq> vcpus_exit_evt v \<or> \<not> is_in \<Longrightarrow> process_event source is_in v = v"
    by (auto simp: process_event_def)
qed

text \<open>
  the exit status of the monitor. On the exit event the monitor stops with the first exit
  status other than \<open>Ok\<close> among the responses pending in the channels, in the order of the
  vCPUs; it stops with \<open>Ok\<close> only when there is none, so an error exit of one vCPU takes
  precedence over the normal exits of the others. Other events change nothing.
\<close>

theorem exit_error_precedence:
  "shutdown_exit_code (process_event (vcpus_exit_evt v) True v)
     = Some (case pending_failures (vcpus_handles v) of [] \<Rightarrow> ExitOk | s # _ \<Rightarrow> s) \<and>
   (shutdown_exit_code (process_event (vcpus_exit_evt v) True v) = Some ExitOk \<longleftrightarrow>
     (\<forall>h \<in> set (vcpus_handles v). \<forall>s. RespExited s \<in> set (vh_queue h) \<longrightarrow> s = ExitOk)) \<and>
   (source \<noteq> vcpus_exit_evt v \<or> \<not> is_in \<longrightarrow> process_event source is_in v = v)"
  using exit_error_precedence_facts by (intro conjI impI) blast+

section \<open>Saved states\<close>

lemma recv_collect_heads:
  "fst (recv_collect hs) =
     (if list_all (\<lambda>h. vh_queue h \<noteq> []) hs then Some (map (\<lambda>h. hd (vh_queue h)) hs) else None)"
  by (induction hs) (auto simp: recv_timeout_answers split: prod.split)

lemma saved_state_Inr_iff: "saved_state r = Ok st \<longleftrightarrow> r = RespSavedState st"
  by (cases r) auto

lemma save_vcpu_states_ok:
  assumes "save_vcpu_states E v w = (Ok sts, v', w')"
  obtains hs where "send_all E EvSaveState (vcpus_handles v) w = (None, hs, w')"
    "map (\<lambda>h. hd (vh_queue h)) hs = map RespSavedState sts" "length hs = length sts"
proof -
  obtain e hs w1 where send: "send_all E EvSaveState (vcpus_handles v) w = (e, hs, w1)"
    by (cases "send_all E EvSaveState (vcpus_handles v) w") auto
  obtain x hs1 where rc: "recv_collect hs = (x, hs1)" by fastforce
  from assms send rc obtain rs where "e = None" "w' = w1" "x = Some rs"
    and sts: "collect_results (map saved_state rs) = Ok sts"
    by (auto simp: save_vcpu_states_def split: option.splits)
  have "map saved_state rs = map Inr sts" using sts by (simp add: collect_results_Inr_iff)
  then have "rs = map RespSavedState sts"
    by (induction rs arbitrary: sts) (auto simp: saved_state_Inr_iff map_eq_Cons_conv)
  moreover have "rs = map (\<lambda>h. hd (vh_queue h)) hs"
    using recv_collect_heads [of hs] rc \<open>x = Some rs\<close> by (simp split: if_splits)
  ultimately show ?thesis
    using that send \<open>e = None\<close> \<open>w' = w1\<close> by (metis length_map)
qed

lemma send_all_threads:
  "send_all E ev hs w = (None, hs', w') \<Longrightarrow> map vh_thread hs' = map vh_thread hs"
  by (induction hs arbitrary: w hs' w') (auto split: prod.splits sum.splits)

text \<open>
  saving the vCPUs. A successful save has one state per vCPU, in the order of the handles:
  the state at position \<open>i\<close> is the response the \<open>i\<close>-th vCPU gave; no vCPU is left out and none
  is taken twice.
\<close>

theorem save_vcpu_states_complete:
  assumes "save_vcpu_states E v w = (Ok sts, v', w')"
  shows "\<exists>hs. send_all E EvSaveState (vcpus_handles v) w = (None, hs, w') \<and>
    length sts = length (vcpus_handles v) \<and>
    (\<forall>i < length sts. vh_thread (hs ! i) = vh_thread (vcpus_handles v ! i) \<and>
        hd (vh_queue (hs ! i)) = RespSavedState (sts ! i))"
proof -
  obtain hs where hs: "send_all E EvSaveState (vcpus_handles v) w = (None, hs, w')"
    "map (\<lambda>h. hd (vh_queue h)) hs = map RespSavedState sts" "length hs = length sts"
    using save_vcpu_states_ok [OF assms] .
  have th: "map vh_thread hs = map vh_thread (vcpus_handles v)" using hs(1) by (rule send_all_threads)
  then have len: "length sts = length (vcpus_handles v)" using hs(3) by (metis length_map)
  have "vh_thread (hs ! i) = vh_thread (vcpus_handles v ! i) \<and> hd (vh_queue (hs ! i)) = RespSavedState (sts ! i)"
    if "i < length sts" for i
    using arg_cong [OF th, of "\<lambda>l. l ! i"] arg_cong [OF hs(2), of "\<lambda>l. l ! i"] that hs(3) len by simp
  with hs(1) len show ?thesis by blast
qed

section \<open>Start and drop\<close>

lemma start_loop_keeps:
  assumes "start_loop E vcpus hs w = (e, hs', w')"
  shows "\<exists>started. hs' = hs @ started \<and> list_all (\<lambda>h. vh_queue h = []) started \<and>
    (e = None \<longrightarrow> length started = length vcpus) \<and> (e \<noteq> None \<longrightarrow> length started < length vcpus)"
  using assms
proof (induction vcpus arbitrary: hs w)
  case Nil
  then show ?case by simp
next
  case (Cons x vcpus)
  show ?case
  proof (cases "e_start E x w")
    case (Pair r w1)
    show ?thesis
    proof (cases r)
      case (Inl err)
      with Pair Cons.prems show ?thesis by auto
    next
      case (Inr tid)
      with Pair Cons.prems have
        "start_loop E vcpus (hs @ [\<lparr>vh_thread = tid, vh_queue = []\<rparr>]) w1 = (e, hs', w')" by simp
      from Cons.IH [OF this] show ?thesis by force
    qed
  qed
qed

text \<open>
  starting the vCPUs. On success there is one new handle per vCPU, with an empty channel,
  behind the handles that were there, and the instance is paused; on an error the instance
  keeps its state and the handles of the threads already started are kept, so that dropping
  the monitor still reaches them.
\<close>

theorem start_vcpus_outcome:
  assumes "start_vcpus E vcpus v w = (r, v', w')"
  shows "\<exists>started. vcpus_handles v' = vcpus_handles v @ started \<and>
      list_all (\<lambda>h. vh_queue h = []) started \<and>
      (r = Ok () \<longrightarrow> length started = length vcpus \<and> ii_state (instance_info_of v') = Paused) \<and>
      (r \<noteq> Ok () \<longrightarrow> length started \<le> length vcpus \<and> instance_info_of v' = instance_info_of v)"
proof (cases "\<exists>e w1. r = Err (VmmObserverInit e) \<and> v' = v")
  case True
  then show ?thesis by auto
next
  case False
  with assms obtain w2 e hs where loop: "start_loop E vcpus (vcpus_handles v) w2 = (e, hs, w')"
    and r: "r = (case e of None \<Rightarrow> Ok () | Some x \<Rightarrow> Err (VcpuHandleErr x))"
    and v': "v' = (case e of None \<Rightarrow> set_run_state Paused (v\<lparr>vcpus_handles := hs\<rparr>)
                           | Some x \<Rightarrow> v\<lparr>vcpus_handles := hs\<rparr>)"
    by (auto simp: start_vcpus_def split: prod.splits sum.splits option.splits)
  from start_loop_keeps [OF loop] r v' show ?thesis
    by (cases e) (auto simp: set_run_state_def)
qed

section \<open>Device families\<close>

lemma filter_partitions_families_facts:
  fixes dflt :: "'z device_states_scheme"
  defines "f \<equiv> benchmark_filter_mmio_state dflt"
  shows "dflt\<lparr>ds_balloon_device := ds_balloon_device (f st KBalloon),
             ds_block_devices := ds_block_devices (f st KBlock),
             ds_net_devices := ds_net_devices (f st KNet), ds_mmds := ds_mmds (f st KNet),
             ds_vsock_device := ds_vsock_device (f st KVsock),
             ds_entropy_device := ds_entropy_device (f st KEntropy),
             ds_pmem_devices := ds_pmem_devices (f st KPmem),
             ds_memory_device := ds_memory_device (f st KVirtioMem)\<rparr>
           = device_states.extend (device_states.truncate st) (device_states.more dflt)"
    and "kind \<noteq> KAll \<Longrightarrow>
      (kind = KBlock \<or> ds_block_devices (f st kind) = ds_block_devices dflt) \<and>
      (kind = KNet \<or> ds_net_devices (f st kind) = ds_net_devices dflt \<and> ds_mmds (f st kind) = ds_mmds dflt) \<and>
      (kind = KVsock \<or> ds_vsock_device (f st kind) = ds_vsock_device dflt) \<and>
      (kind = KBalloon \<or> ds_balloon_device (f st kind) = ds_balloon_device dflt) \<and>
      (kind = KEntropy \<or> ds_entropy_device (f st kind) = ds_entropy_device dflt) \<and>
      (kind = KPmem \<or> ds_pmem_devices (f st kind) = ds_pmem_devices dflt) \<and>
      (kind = KVirtioMem \<or> ds_memory_device (f st kind) = ds_memory_device dflt)"
proof -
  show "dflt\<lparr>ds_balloon_device := ds_balloon_device (f st KBalloon),
             ds_block_devices := ds_block_devices (f st KBlock),
             ds_net_devices := ds_net_devices (f st KNet), ds_mmds := ds_mmds (f st KNet),
             ds_vsock_device := ds_vsock_device (f st KVsock),
             ds_entropy_device := ds_entropy_device (f st KEntropy),
             ds_pmem_devices := ds_pmem_devices (f st KPmem),
             ds_memory_device := ds_memory_device (f st KVirtioMem)\<rparr>
           = device_states.extend (device_states.truncate st) (device_states.more dflt)"
    by (simp add: f_def benchmark_filter_mmio_state_def device_states.defs)
  show "kind \<noteq> KAll \<Longrightarrow>
      (kind = KBlock \<or> ds_block_devices (f st kind) = ds_block_devices dflt) \<and>
      (kind = KNet \<or> ds_net_devices (f st kind) = ds_net_devices dflt \<and> ds_mmds (f st kind) = ds_mmds dflt) \<and>
      (kind = KVsock \<or> ds_vsock_device (f st kind) = ds_vsock_device dflt) \<and>
      (kind = KBalloon \<or> ds_balloon_device (f st kind) = ds_balloon_device dflt) \<and>
      (kind = KEntropy \<or> ds_entropy_device (f st kind) = ds_entropy_device dflt) \<and>
      (kind = KPmem \<or> ds_pmem_devices (f st kind) = ds_pmem_devices dflt) \<and>
      (kind = KVirtioMem \<or> ds_memory_device (f st kind) = ds_memory_device dflt)"
    by (cases kind) (simp_all add: f_def benchmark_filter_mmio_state_def)
qed

text \<open>
  the benchmark kinds partition the device families. Putting together what the seven
  kinds keep gives back every family of the full state, and each kind leaves the fields of
  the other families at their default, so no family is restored by two kinds and none is
  forgotten.
\<close>

theorem filter_partitions_families:
  fixes dflt :: "'z device_states_scheme"
  defines "f \<equiv> benchmark_filter_mmio_state dflt"
  shows "dflt\<lparr>ds_balloon_device := ds_balloon_device (f st KBalloon),
             ds_block_devices := ds_block_devices (f st KBlock),
             ds_net_devices := ds_net_devices (f st KNet), ds_mmds := ds_mmds (f st KNet),
             ds_vsock_device := ds_vsock_device (f st KVsock),
             ds_entropy_device := ds_entropy_device (f st KEntropy),
             ds_pmem_devices := ds_pmem_devices (f st KPmem),
             ds_memory_device := ds_memory_device (f st KVirtioMem)\<rparr>
           = device_states.extend (device_states.truncate st) (device_states.more dflt) \<and>
    (kind \<noteq> KAll \<longrightarrow>
      (kind = KBlock \<or> ds_block_devices (f st kind) = ds_block_devices dflt) \<and>
      (kind = KNet \<or> ds_net_devices (f st kind) = ds_net_devices dflt \<and> ds_mmds (f st kind) = ds_mmds dflt) \<and>
      (kind = KVsock \<or> ds_vsock_device (f st kind) = ds_vsock_device dflt) \<and>
      (kind = KBalloon \<or> ds_balloon_device (f st kind) = ds_balloon_device dflt) \<and>
      (kind = KEntropy \<or> ds_entropy_device (f st kind) = ds_entropy_device dflt) \<and>
      (kind = KPmem \<or> ds_pmem_devices (f st kind) = ds_pmem_devices dflt) \<and>
      (kind = KVirtioMem \<or> ds_memory_device (f st kind) = ds_memory_device dflt))"
  unfolding f_def by (intro conjI filter_partitions_families_facts(1) impI filter_partitions_families_facts(2))

section \<open>Affinity fields\<close>

lemma mpidr_masks: "(0xFF00000000 :: u64) = push_bit 32 (mask 8)" "(0xFFFFFF :: u64) = mask 24"
  by (simp_all add: mask_eq_exp_minus_1 push_bit_eq_mult)

lemma affinity_mask: "(0xFF00FFFFFF :: u64) = push_bit 32 (mask 8) OR mask 24"
  by (simp add: mask_eq_exp_minus_1 push_bit_eq_mult)

lemma kvm_mpidr_bits:
  "bit (kvm_mpidr m) n \<longleftrightarrow> n < 64 \<and> (56 \<le> n \<and> bit m (n - 24) \<or> 32 \<le> n \<and> n < 56 \<and> bit m (n - 32))"
proof -
  have "bit (kvm_mpidr m) n \<longleftrightarrow> 32 \<le> n \<and> n < 64 \<and>
      (bit m (n - 24) \<and> 32 \<le> n - 24 \<and> n - 24 < 40 \<or> bit m (n - 32) \<and> n - 32 < 24)"
    unfolding kvm_mpidr_def Let_def mpidr_masks
    by (auto simp: bit_simps)
  then show ?thesis by auto
qed

lemma kvm_mpidr_fields_facts:
  "bit (kvm_mpidr m) n \<longleftrightarrow> n < 64 \<and> (56 \<le> n \<and> bit m (n - 24) \<or> 32 \<le> n \<and> n < 56 \<and> bit m (n - 32))"
  "kvm_mpidr m = kvm_mpidr m' \<longleftrightarrow> m AND 0xFF00FFFFFF = m' AND 0xFF00FFFFFF"
proof -
  show bits: "bit (kvm_mpidr m) n \<longleftrightarrow>
      n < 64 \<and> (56 \<le> n \<and> bit m (n - 24) \<or> 32 \<le> n \<and> n < 56 \<and> bit m (n - 32))" for m n
    by (rule kvm_mpidr_bits)
  have aff: "bit (m AND 0xFF00FFFFFF) n \<longleftrightarrow> bit m n \<and> (n < 24 \<or> 32 \<le> n \<and> n < 40)" for m :: u64 and n
    unfolding affinity_mask by (auto simp: bit_simps)
  show "kvm_mpidr m = kvm_mpidr m' \<longleftrightarrow> m AND 0xFF00FFFFFF = m' AND 0xFF00FFFFFF"
  proof
    assume eq: "kvm_mpidr m = kvm_mpidr m'"
    show "m AND 0xFF00FFFFFF = m' AND 0xFF00FFFFFF"
    proof (rule bit_word_eqI)
      fix n
      have "bit m n = bit m' n" if "n < 24"
        using that bits [of m "n + 32"] bits [of m' "n + 32"] eq by simp
      moreover have "bit m n = bit m' n" if "32 \<le> n" "n < 40"
        using that bits [of m "n + 24"] bits [of m' "n + 24"] eq by simp
      ultimately show "bit (m AND 0xFF00FFFFFF) n = bit (m' AND 0xFF00FFFFFF) n"
        unfolding aff by blast
    qed
  next
    assume "m AND 0xFF00FFFFFF = m' AND 0xFF00FFFFFF"
    then have same: "bit m n = bit m' n" if "n < 24 \<or> 32 \<le> n \<and> n < 40" for n
      using aff [of m n] aff [of m' n] that by simp
    have "bit (kvm_mpidr m) n = bit (kvm_mpidr m') n" for n
    proof -
      have "32 \<le> n - 24 \<and> n - 24 < 40" if "56 \<le> n" "n < 64" using that by linarith
      moreover have "n - 32 < 24" if "32 \<le> n" "n < 56" using that by linarith
      ultimately show ?thesis
        unfolding bits using same [of "n - 24"] same [of "n - 32"] by blast
    qed
    then show "kvm_mpidr m = kvm_mpidr m'" by (rule bit_eqI)
  qed
qed

text \<open>
  the affinity fields of an aarch64 vCPU. The bits of \<open>Aff3\<close> (39 to 32 of MPIDR_EL1) move
  to 63 to 56, those of \<open>Aff2\<close>, \<open>Aff1\<close> and \<open>Aff0\<close> (23 to 0) to 55 to 32, and the low half is
  zero, as the format of KVM asks for; two vCPUs get the same value exactly when all their
  affinity fields agree.
\<close>

theorem kvm_mpidr_fields:
  "(bit (kvm_mpidr m) n \<longleftrightarrow> n < 64 \<and> (56 \<le> n \<and> bit m (n - 24) \<or> 32 \<le> n \<and> n < 56 \<and> bit m (n - 32))) \<and>
   (kvm_mpidr m = kvm_mpidr m' \<longleftrightarrow> m AND 0xFF00FFFFFF = m' AND 0xFF00FFFFFF)"
  by (intro conjI kvm_mpidr_fields_facts)

section \<open>A concrete machine\<close>

text \<open>Two vCPUs, the first of which refuses to resume; the world counts the events sent.\<close>

definition demo_reply :: "nat \<Rightarrow> vcpu_response" where
  "demo_reply t = (if t = 0 then RespNotAllowed ''busy'' else RespResumed)"

definition demo_env :: "(nat, unit) vmm_env" where
  "demo_env =
     \<lparr> e_send = (\<lambda>t ev w. (Inr (case ev of
                     EvResume \<Rightarrow> [demo_reply t]
                   | EvPause \<Rightarrow> [RespPaused]
                   | EvSaveState \<Rightarrow> [RespSavedState \<lparr>tsc_khz = None, mpidr = of_nat t, vcpu_data = []\<rparr>]
                   | _ \<Rightarrow> []), Suc w)),
       e_raw_mode = (\<lambda>w. (Ok (), w)), e_non_block = (\<lambda>w. (Ok (), w)),
       e_start = (\<lambda>t w. (Ok t, w)), e_canon_mode = id,
       e_kick = (\<lambda>d w. (d, w)), e_ctrl_alt_del = (\<lambda>d. (Ok (), d)),
       e_save_devices = (\<lambda>d w. ([], d, w)), e_kvm_save = (\<lambda>_. []), e_vm_save = (\<lambda>_. Ok []) \<rparr>"

definition demo_vmm :: "unit vmm" where
  "demo_vmm =
     \<lparr> instance_info_of = \<lparr>ii_id = ''vm'', ii_state = Paused, ii_vmm_version = [], ii_app_name = []\<rparr>,
       machine_config = [], boot_source_config = [], shutdown_exit_code = None,
       vcpus_handles = [\<lparr>vh_thread = 0, vh_queue = []\<rparr>, \<lparr>vh_thread = 1, vh_queue = []\<rparr>],
       vcpus_exit_evt = 7, device_manager = () \<rparr>"



theorem exit_error_precedence_witness:
  "shutdown_exit_code (process_event 7 True
     (demo_vmm\<lparr>vcpus_handles := [\<lparr>vh_thread = 0, vh_queue = [RespExited ExitOk]\<rparr>,
        \<lparr>vh_thread = 1, vh_queue = [RespPaused, RespExited SIGBUS]\<rparr>]\<rparr>)) = Some SIGBUS \<and>
   process_event 3 True demo_vmm = demo_vmm"
  using exit_error_precedence [of "demo_vmm\<lparr>vcpus_handles := [\<lparr>vh_thread = 0, vh_queue = [RespExited ExitOk]\<rparr>,
        \<lparr>vh_thread = 1, vh_queue = [RespPaused, RespExited SIGBUS]\<rparr>]\<rparr>"]
    exit_error_precedence [of demo_vmm 3 True]
  by (simp add: demo_vmm_def pending_failures_def)

theorem save_vcpu_states_complete_witness:
  "\<exists>sts v' w'. save_vcpu_states demo_env demo_vmm 0 = (Ok sts, v', w') \<and> length sts = 2"
proof -
  obtain sts v' w' where s: "save_vcpu_states demo_env demo_vmm 0 = (Ok sts, v', w')"
    by (simp add: save_vcpu_states_def demo_env_def demo_vmm_def recv_timeout_def)
  from save_vcpu_states_complete [OF s] have "length sts = length (vcpus_handles demo_vmm)" by blast
  with s show ?thesis by (simp add: demo_vmm_def)
qed

theorem start_vcpus_outcome_witness:
  "\<exists>v' w'. start_vcpus demo_env [5, 6] demo_vmm 0 = (Ok (), v', w') \<and> length (vcpus_handles v') = 4"
proof -
  obtain v' w' where s: "start_vcpus demo_env [5, 6] demo_vmm 0 = (Ok (), v', w')"
    by (simp add: start_vcpus_def demo_env_def demo_vmm_def)
  from start_vcpus_outcome [OF s] have "length (vcpus_handles v') = length (vcpus_handles demo_vmm) + 2"
    by auto
  with s show ?thesis by (simp add: demo_vmm_def)
qed

theorem filter_partitions_families_witness:
  "ds_block_devices (benchmark_filter_mmio_state
     \<lparr>ds_block_devices = [], ds_net_devices = [], ds_vsock_device = None, ds_balloon_device = None,
      ds_mmds = None, ds_entropy_device = None, ds_pmem_devices = [], ds_memory_device = None\<rparr>
     \<lparr>ds_block_devices = [''vda''], ds_net_devices = [], ds_vsock_device = None, ds_balloon_device = None,
      ds_mmds = None, ds_entropy_device = None, ds_pmem_devices = [], ds_memory_device = None\<rparr> KNet) = []"
  using filter_partitions_families [of
     "\<lparr>ds_block_devices = [], ds_net_devices = [], ds_vsock_device = None, ds_balloon_device = None,
      ds_mmds = None, ds_entropy_device = None, ds_pmem_devices = [], ds_memory_device = None\<rparr>"
     "\<lparr>ds_block_devices = [''vda''], ds_net_devices = [], ds_vsock_device = None, ds_balloon_device = None,
      ds_mmds = None, ds_entropy_device = None, ds_pmem_devices = [], ds_memory_device = None\<rparr>" KNet]
  by simp

end
