(* ===== verification/Vmm_Devices.thy ===== *)
theory Vmm_Devices
  imports Vmm
begin

text \<open>
  The part of src/firecracker-build/fc-change-set/src/vmm/src/lib.rs that works on devices: the
  configuration read back from the devices, the updates of a device by its identifier, and the
  size of the guest memory. The device manager is not part of this code: it is a record of
  functions that enumerate the devices, find one by identifier and type, and put a changed
  device back.
\<close>

section \<open>Configuration of the running machine\<close>

datatype virtio_type = TBlock | TNet | TPmem | TBalloon | TVsock | TRng | TMem | TOther

record mmds =
  mmds_id :: nat
  mmds_version :: string
  mmds_imds_compat :: bool

record mmds_ns =
  ns_mmds :: mmds
  ns_ipv4 :: string

record net_dev =
  net_id :: string
  net_config :: string
  net_mmds_ns :: "mmds_ns option"

text \<open>
  A device as \<open>as_any().downcast_ref\<close> sees it: its Rust type with the configuration that the
  code reads from it.
\<close>

datatype any_device =
    ABlock string
  | ANet net_dev
  | APmem string
  | ABalloon string
  | AVsock string
  | AEntropy string
  | AVirtioMem string
  | AOther

type_synonym device_list = "(virtio_type \<times> any_device) list"

text \<open>\<open>get_mmds\<close>: the closure overwrites \<open>mmds\<close> at every network device that has one.\<close>

fun get_mmds_step :: "virtio_type \<times> any_device \<Rightarrow> mmds option \<Rightarrow> mmds option" where
  "get_mmds_step (TNet, ANet n) acc =
     (case net_mmds_ns n of Some ns \<Rightarrow> Some (ns_mmds ns) | None \<Rightarrow> acc)"
| "get_mmds_step _ acc = acc"

definition get_mmds :: "device_list \<Rightarrow> mmds option" where
  "get_mmds devs = fold get_mmds_step devs None"

record config_acc =
  c_block :: "string list"
  c_net :: "string list"
  c_net_with_mmds :: "string list"
  c_pmem :: "string list"
  c_balloon :: "string option"
  c_vsock :: "string option"
  c_entropy :: "string option"
  c_memory_hotplug :: "string option"
  c_mmds_ipv4 :: "string option"
  c_mmds_ref :: "mmds option"

definition config_init :: config_acc where
  "config_init =
     \<lparr> c_block = [], c_net = [], c_net_with_mmds = [], c_pmem = [], c_balloon = None, c_vsock = None,
       c_entropy = None, c_memory_hotplug = None, c_mmds_ipv4 = None, c_mmds_ref = None \<rparr>"

definition net_step :: "net_dev \<Rightarrow> config_acc \<Rightarrow> config_acc" where
  "net_step n acc =
     (let acc1 = acc\<lparr>c_net := c_net acc @ [net_config n]\<rparr>
      in case net_mmds_ns n of
           None \<Rightarrow> acc1
         | Some ns \<Rightarrow>
             (let acc2 = acc1\<lparr>c_net_with_mmds := c_net_with_mmds acc1 @ [net_id n]\<rparr>
              in if c_mmds_ref acc2 = None
                 then acc2\<lparr>c_mmds_ref := Some (ns_mmds ns), c_mmds_ipv4 := Some (ns_ipv4 ns)\<rparr>
                 else acc2))"

fun config_step :: "virtio_type \<times> any_device \<Rightarrow> config_acc \<Rightarrow> config_acc" where
  "config_step (TBlock, ABlock c) acc = acc\<lparr>c_block := c_block acc @ [c]\<rparr>"
| "config_step (TNet, ANet n) acc = net_step n acc"
| "config_step (TPmem, APmem c) acc = acc\<lparr>c_pmem := c_pmem acc @ [c]\<rparr>"
| "config_step (TBalloon, ABalloon c) acc = acc\<lparr>c_balloon := Some c\<rparr>"
| "config_step (TVsock, AVsock c) acc = acc\<lparr>c_vsock := Some c\<rparr>"
| "config_step (TRng, AEntropy c) acc = acc\<lparr>c_entropy := Some c\<rparr>"
| "config_step (TMem, AVirtioMem c) acc = acc\<lparr>c_memory_hotplug := Some c\<rparr>"
| "config_step _ acc = acc"

record mmds_config =
  mc_version :: string
  mc_ipv4_address :: "string option"
  mc_network_interfaces :: "string list"
  mc_imds_compat :: bool

record vmm_config =
  vc_balloon :: "string option"
  vc_drives :: "string list"
  vc_boot_source :: string
  vc_machine_config :: "string option"
  vc_mmds_config :: "mmds_config option"
  vc_network_interfaces :: "string list"
  vc_vsock :: "string option"
  vc_entropy :: "string option"
  vc_pmem_devices :: "string list"
  vc_memory_hotplug :: "string option"

text \<open>The fields that the code always sets to \<open>None\<close> are left out of the record.\<close>

definition full_config :: "device_list \<Rightarrow> 'dm vmm \<Rightarrow> vmm_config" where
  "full_config devs v =
     (let acc = fold config_step devs config_init
      in \<lparr> vc_balloon = c_balloon acc, vc_drives = c_block acc, vc_boot_source = boot_source_config v,
           vc_machine_config = Some (machine_config v),
           vc_mmds_config = map_option (\<lambda>m.
              \<lparr>mc_version = mmds_version m, mc_ipv4_address = c_mmds_ipv4 acc,
               mc_network_interfaces = c_net_with_mmds acc, mc_imds_compat = mmds_imds_compat m\<rparr>)
              (c_mmds_ref acc),
           vc_network_interfaces = c_net acc, vc_vsock = c_vsock acc, vc_entropy = c_entropy acc,
           vc_pmem_devices = c_pmem acc, vc_memory_hotplug = c_memory_hotplug acc \<rparr>)"

section \<open>Guest memory\<close>

text \<open>\<open>sum::<u64>() >> 20\<close>; the sum of the lengths wraps in a release build.\<close>

definition mem_size_mib :: "u64 list \<Rightarrow> u64" where
  "mem_size_mib regions = drop_bit 20 (sum_list regions)"

section \<open>Updates of a device by identifier\<close>

text \<open>
  Access of the device manager to the devices of one type: \<open>with_virtio_device\<close> finds the
  device, runs the closure on it and keeps what the closure changed.
\<close>

record ('dm, 'd) device_access =
  find_device :: "'dm \<Rightarrow> string \<Rightarrow> string + 'd"
  put_device :: "'dm \<Rightarrow> string \<Rightarrow> 'd \<Rightarrow> 'dm"

definition with_virtio_device ::
  "('dm, 'd) device_access \<Rightarrow> 'dm \<Rightarrow> string \<Rightarrow> ('d \<Rightarrow> 'r \<times> 'd) \<Rightarrow> (vmm_error + 'r) \<times> 'dm" where
  "with_virtio_device A dm dev_id f =
     (case find_device A dm dev_id of
        Inl e \<Rightarrow> (Err (FindDeviceError e), dm)
      | Inr d \<Rightarrow> (case f d of (r, d') \<Rightarrow> (Ok r, put_device A dm dev_id d')))"

text \<open>\<open>with_virtio_device(\<dots>)??\<close>: the error of the closure is converted into a \<open>VmmError\<close>.\<close>

definition with_device_try ::
  "('dm, 'd) device_access \<Rightarrow> (string \<Rightarrow> vmm_error) \<Rightarrow> string \<Rightarrow> ('d \<Rightarrow> (string + 'r) \<times> 'd) \<Rightarrow> 'dm vmm \<Rightarrow>
     (vmm_error + 'r) \<times> 'dm vmm" where
  "with_device_try A conv dev_id f v =
     (case with_virtio_device A (device_manager v) dev_id f of
        (Inl e, dm) \<Rightarrow> (Err e, v\<lparr>device_manager := dm\<rparr>)
      | (Inr (Inl e), dm) \<Rightarrow> (Err (conv e), v\<lparr>device_manager := dm\<rparr>)
      | (Inr (Inr r), dm) \<Rightarrow> (Ok r, v\<lparr>device_manager := dm\<rparr>))"

text \<open>
  The methods of the devices that the monitor calls; the identifiers of the balloon and of the
  memory device (\<open>BALLOON_DEV_ID\<close>, \<open>VIRTIO_MEM_DEV_ID\<close>) are constants of their modules.
\<close>

record 'b block_methods =
  b_update_disk_image :: "string \<Rightarrow> 'b \<Rightarrow> (string + unit) \<times> 'b"
  b_update_rate_limiter :: "string \<Rightarrow> string \<Rightarrow> 'b \<Rightarrow> (string + unit) \<times> 'b"
  b_update_config :: "'b \<Rightarrow> (string + unit) \<times> 'b"

record 'n balloon_methods =
  l_dev_id :: string
  l_config :: "'n \<Rightarrow> string"
  l_latest_stats :: "'n \<Rightarrow> (string + string) \<times> 'n"
  l_update_size :: "u32 \<Rightarrow> 'n \<Rightarrow> (string + unit) \<times> 'n"
  l_update_stats_polling_interval :: "u16 \<Rightarrow> 'n \<Rightarrow> (string + unit) \<times> 'n"
  l_start_hinting :: "bool \<Rightarrow> 'n \<Rightarrow> (string + unit) \<times> 'n"
  l_get_hinting_status :: "'n \<Rightarrow> (string + string) \<times> 'n"
  l_stop_hinting :: "'n \<Rightarrow> (string + unit) \<times> 'n"

definition update_block_device_path ::
  "('dm, 'b) device_access \<Rightarrow> 'b block_methods \<Rightarrow> string \<Rightarrow> string \<Rightarrow> 'dm vmm \<Rightarrow> (vmm_error + unit) \<times> 'dm vmm"
  where
  "update_block_device_path A M drive_id path_on_host =
     with_device_try A BlockErr drive_id (b_update_disk_image M path_on_host)"

definition update_block_rate_limiter ::
  "('dm, 'b) device_access \<Rightarrow> 'b block_methods \<Rightarrow> string \<Rightarrow> string \<Rightarrow> string \<Rightarrow> 'dm vmm \<Rightarrow>
     (vmm_error + unit) \<times> 'dm vmm" where
  "update_block_rate_limiter A M drive_id rl_bytes rl_ops =
     with_device_try A BlockErr drive_id (b_update_rate_limiter M rl_bytes rl_ops)"

definition update_vhost_user_block_config ::
  "('dm, 'b) device_access \<Rightarrow> 'b block_methods \<Rightarrow> string \<Rightarrow> 'dm vmm \<Rightarrow> (vmm_error + unit) \<times> 'dm vmm"
  where
  "update_vhost_user_block_config A M drive_id =
     with_device_try A BlockErr drive_id (b_update_config M)"

definition update_net_rate_limiters ::
  "('dm, 'n) device_access \<Rightarrow> (string list \<Rightarrow> 'n \<Rightarrow> 'n) \<Rightarrow> string \<Rightarrow> string list \<Rightarrow> 'dm vmm \<Rightarrow>
     (vmm_error + unit) \<times> 'dm vmm" where
  "update_net_rate_limiters A patch_rate_limiters nid limits v =
     (case with_virtio_device A (device_manager v) nid (\<lambda>n. ((), patch_rate_limiters limits n)) of
        (r, dm) \<Rightarrow> (r, v\<lparr>device_manager := dm\<rparr>))"

definition balloon_config ::
  "('dm, 'n) device_access \<Rightarrow> 'n balloon_methods \<Rightarrow> 'dm vmm \<Rightarrow> (vmm_error + string) \<times> 'dm vmm" where
  "balloon_config A M v =
     (case with_virtio_device A (device_manager v) (l_dev_id M) (\<lambda>d. (l_config M d, d)) of
        (r, dm) \<Rightarrow> (r, v\<lparr>device_manager := dm\<rparr>))"

definition latest_balloon_stats ::
  "('dm, 'n) device_access \<Rightarrow> 'n balloon_methods \<Rightarrow> 'dm vmm \<Rightarrow> (vmm_error + string) \<times> 'dm vmm" where
  "latest_balloon_stats A M = with_device_try A BalloonErr (l_dev_id M) (l_latest_stats M)"

definition update_balloon_config ::
  "('dm, 'n) device_access \<Rightarrow> 'n balloon_methods \<Rightarrow> u32 \<Rightarrow> 'dm vmm \<Rightarrow> (vmm_error + unit) \<times> 'dm vmm" where
  "update_balloon_config A M amount_mib =
     with_device_try A BalloonErr (l_dev_id M) (l_update_size M amount_mib)"

definition update_balloon_stats_config ::
  "('dm, 'n) device_access \<Rightarrow> 'n balloon_methods \<Rightarrow> u16 \<Rightarrow> 'dm vmm \<Rightarrow> (vmm_error + unit) \<times> 'dm vmm" where
  "update_balloon_stats_config A M interval_s =
     with_device_try A BalloonErr (l_dev_id M) (l_update_stats_polling_interval M interval_s)"

definition memory_hotplug_status ::
  "('dm, 'm) device_access \<Rightarrow> string \<Rightarrow> ('m \<Rightarrow> string) \<Rightarrow> 'dm vmm \<Rightarrow> (vmm_error + string) \<times> 'dm vmm" where
  "memory_hotplug_status A mem_dev_id status v =
     (case with_virtio_device A (device_manager v) mem_dev_id (\<lambda>d. (status d, d)) of
        (r, dm) \<Rightarrow> (r, v\<lparr>device_manager := dm\<rparr>))"

definition update_memory_hotplug_size ::
  "('dm, 'm) device_access \<Rightarrow> string \<Rightarrow> (nat \<Rightarrow> 'm \<Rightarrow> (string + unit) \<times> 'm) \<Rightarrow> nat \<Rightarrow> 'dm vmm \<Rightarrow>
     (vmm_error + unit) \<times> 'dm vmm" where
  "update_memory_hotplug_size A mem_dev_id update_requested_size size_mib =
     with_device_try A VirtioMemErr mem_dev_id (update_requested_size size_mib)"

definition start_balloon_hinting ::
  "('dm, 'n) device_access \<Rightarrow> 'n balloon_methods \<Rightarrow> bool \<Rightarrow> 'dm vmm \<Rightarrow> (vmm_error + unit) \<times> 'dm vmm" where
  "start_balloon_hinting A M cmd = with_device_try A BalloonErr (l_dev_id M) (l_start_hinting M cmd)"

definition get_balloon_hinting_status ::
  "('dm, 'n) device_access \<Rightarrow> 'n balloon_methods \<Rightarrow> 'dm vmm \<Rightarrow> (vmm_error + string) \<times> 'dm vmm" where
  "get_balloon_hinting_status A M = with_device_try A BalloonErr (l_dev_id M) (l_get_hinting_status M)"

definition stop_balloon_hinting ::
  "('dm, 'n) device_access \<Rightarrow> 'n balloon_methods \<Rightarrow> 'dm vmm \<Rightarrow> (vmm_error + unit) \<times> 'dm vmm" where
  "stop_balloon_hinting A M = with_device_try A BalloonErr (l_dev_id M) (l_stop_hinting M)"

section \<open>Properties of the configuration\<close>

text \<open>The network devices with an MMDS, in the order of the enumeration.\<close>

fun mmds_nets :: "device_list \<Rightarrow> (net_dev \<times> mmds_ns) list" where
  "mmds_nets [] = []"
| "mmds_nets ((TNet, ANet n) # devs) =
     (case net_mmds_ns n of Some ns \<Rightarrow> (n, ns) # mmds_nets devs | None \<Rightarrow> mmds_nets devs)"
| "mmds_nets (_ # devs) = mmds_nets devs"

fun block_configs :: "device_list \<Rightarrow> string list" where
  "block_configs [] = []"
| "block_configs ((TBlock, ABlock c) # devs) = c # block_configs devs"
| "block_configs (_ # devs) = block_configs devs"

lemma get_mmds_last:
  "fold get_mmds_step devs acc =
     (if mmds_nets devs = [] then acc else Some (ns_mmds (snd (last (mmds_nets devs)))))"
  by (induction devs arbitrary: acc rule: mmds_nets.induct) (auto split: option.splits)

lemma config_step_block: "c_block (config_step d acc) = c_block acc @ block_configs [d]"
proof (cases d)
  case (Pair t x)
  then show ?thesis by (cases t; cases x) (simp_all add: net_step_def Let_def split: option.split)
qed

lemma block_configs_Cons: "block_configs (d # devs) = block_configs [d] @ block_configs devs"
proof (cases d)
  case (Pair t x)
  then show ?thesis by (cases t; cases x) simp_all
qed

lemma mmds_nets_Cons: "mmds_nets (d # devs) = mmds_nets [d] @ mmds_nets devs"
proof (cases d)
  case (Pair t x)
  then show ?thesis by (cases t; cases x) (simp_all split: option.split)
qed

lemma config_step_mmds:
  "c_mmds_ref (config_step d acc) =
     (case c_mmds_ref acc of
        Some m \<Rightarrow> Some m
      | None \<Rightarrow> (case mmds_nets [d] of [] \<Rightarrow> None | x # _ \<Rightarrow> Some (ns_mmds (snd x))))"
  "c_net_with_mmds (config_step d acc) =
     c_net_with_mmds acc @ map (\<lambda>x. net_id (fst x)) (mmds_nets [d])"
proof -
  obtain t x where d: "d = (t, x)" by fastforce
  show "c_mmds_ref (config_step d acc) =
     (case c_mmds_ref acc of
        Some m \<Rightarrow> Some m
      | None \<Rightarrow> (case mmds_nets [d] of [] \<Rightarrow> None | x # _ \<Rightarrow> Some (ns_mmds (snd x))))"
    "c_net_with_mmds (config_step d acc) =
     c_net_with_mmds acc @ map (\<lambda>x. net_id (fst x)) (mmds_nets [d])"
    unfolding d by (cases t; cases x; simp add: net_step_def Let_def split: option.split)+
qed

lemma config_fold_block:
  "c_block (fold config_step devs acc) = c_block acc @ block_configs devs"
proof (induction devs arbitrary: acc)
  case (Cons d devs)
  have "block_configs (d # devs) = block_configs [d] @ block_configs devs" by (rule block_configs_Cons)
  then show ?case using Cons [of "config_step d acc"] config_step_block [of d acc] by simp
qed simp

lemma config_fold_mmds:
  "c_mmds_ref (fold config_step devs acc) =
     (case c_mmds_ref acc of
        Some m \<Rightarrow> Some m
      | None \<Rightarrow> (case mmds_nets devs of [] \<Rightarrow> None | x # _ \<Rightarrow> Some (ns_mmds (snd x))))"
proof (induction devs arbitrary: acc)
  case (Cons d devs)
  have "mmds_nets (d # devs) = mmds_nets [d] @ mmds_nets devs" by (rule mmds_nets_Cons)
  then show ?case using Cons [of "config_step d acc"] config_step_mmds(1) [of d acc]
    by (cases "c_mmds_ref acc"; cases "mmds_nets [d]") simp_all
qed (simp split: option.split)

lemma config_fold_nets:
  "c_net_with_mmds (fold config_step devs acc) =
     c_net_with_mmds acc @ map (\<lambda>x. net_id (fst x)) (mmds_nets devs)"
proof (induction devs arbitrary: acc)
  case (Cons d devs)
  have "mmds_nets (d # devs) = mmds_nets [d] @ mmds_nets devs" by (rule mmds_nets_Cons)
  then show ?case using Cons [of "config_step d acc"] config_step_mmds(2) [of d acc] by simp
qed simp

lemma full_config_devices_facts:
  "vc_drives (full_config devs v) = block_configs devs"
  "map_option mc_network_interfaces (vc_mmds_config (full_config devs v)) =
     (if mmds_nets devs = [] then None else Some (map (\<lambda>x. net_id (fst x)) (mmds_nets devs)))"
  "map_option mc_version (vc_mmds_config (full_config devs v)) =
     (if mmds_nets devs = [] then None else Some (mmds_version (ns_mmds (snd (hd (mmds_nets devs))))))"
  "get_mmds devs = (if mmds_nets devs = [] then None else Some (ns_mmds (snd (last (mmds_nets devs)))))"
proof -
  note folds = config_fold_block config_fold_mmds config_fold_nets config_init_def
  show "vc_drives (full_config devs v) = block_configs devs"
    by (simp add: full_config_def Let_def folds)
  show "map_option mc_network_interfaces (vc_mmds_config (full_config devs v)) =
     (if mmds_nets devs = [] then None else Some (map (\<lambda>x. net_id (fst x)) (mmds_nets devs)))"
    "map_option mc_version (vc_mmds_config (full_config devs v)) =
     (if mmds_nets devs = [] then None else Some (mmds_version (ns_mmds (snd (hd (mmds_nets devs))))))"
    by (cases "mmds_nets devs"; simp add: full_config_def Let_def folds)+
  show "get_mmds devs = (if mmds_nets devs = [] then None else Some (ns_mmds (snd (last (mmds_nets devs)))))"
    by (simp add: get_mmds_def get_mmds_last)
qed

text \<open>
  the configuration read back. The drives are the configurations of all block devices in
  order, the MMDS section names every network interface with an MMDS, in order, and describes
  the MMDS of the first of them, while \<open>get_mmds\<close> gives that of the last: the two agree exactly
  when the first and the last interface share their MMDS.
\<close>

theorem full_config_devices:
  "vc_drives (full_config devs v) = block_configs devs \<and>
   map_option mc_network_interfaces (vc_mmds_config (full_config devs v)) =
     (if mmds_nets devs = [] then None else Some (map (\<lambda>x. net_id (fst x)) (mmds_nets devs))) \<and>
   map_option mc_version (vc_mmds_config (full_config devs v)) =
     (if mmds_nets devs = [] then None else Some (mmds_version (ns_mmds (snd (hd (mmds_nets devs)))))) \<and>
   get_mmds devs = (if mmds_nets devs = [] then None else Some (ns_mmds (snd (last (mmds_nets devs)))))"
  by (intro conjI full_config_devices_facts)

text \<open>An update through the device manager leaves everything else of the monitor alone.\<close>

lemma with_device_try_frame:
  assumes "with_device_try A conv i f v = (r, v')"
  shows "v' = v\<lparr>device_manager := device_manager v'\<rparr>"
    and "find_device A (device_manager v) i = Err e \<Longrightarrow> r = Err (FindDeviceError e) \<and> v' = v"
  using assms
  by (auto simp: with_device_try_def with_virtio_device_def split: prod.splits sum.splits)

end
