(* ===== verification/Vm_Restore.thy ===== *)
theory Vm_Restore
  imports Netns Vmm
begin

text \<open>
  The restore operations of the benchmark: src/restore-motivation/src/ops/vm_restore, and the
  operations on the snapshot file and on the guest memory beside it (snapshot_load.rs,
  guest_memory.rs). Each operation has a preparation, which builds one context per iteration,
  and a measured part, a closure that takes the next context. The state of the closure is the
  pair of the prepared contexts and the completed ones. KVM, the snapshot reader and the
  builder of the monitor belong to crates that are not part of this repository: they are
  fields of a record; the monitor itself is the one of theory \<open>Vmm\<close>. File descriptors, KVM
  handles and event managers are numbers. The x86_64 build is modelled. Dropping a value that
  is no longer used has no modelled effect, except for namespaces.
\<close>

section \<open>Data and environment\<close>

record vm_info =
  vi_mem_size_mib :: nat
  vi_smt :: bool
  vi_cpu_template :: string
  vi_huge_pages :: string
  vi_boot_source :: string

record microvm_state =
  ms_vm_info :: vm_info
  ms_kvm_cap_modifiers :: "string list"
  ms_memory :: string
  ms_vm_state :: string
  ms_vcpu_states :: "vcpu_state list"
  ms_device_states :: "string \<times> device_states"

record vm_resources =
  mc_vcpu_count :: u8
  mc_mem_size_mib :: nat
  mc_smt :: bool
  mc_cpu_template :: "string option"
  mc_huge_pages :: string
  mc_boot_source :: string
  mc_rest :: string

record ('w, 'dm) vm_api =
  v_load :: "nat \<Rightarrow> 'w \<Rightarrow> (string + microvm_state) \<times> 'w"
  v_sanity_check :: "microvm_state \<Rightarrow> string + unit"
  v_snapshot_file :: "nat \<Rightarrow> string \<Rightarrow> bool \<Rightarrow> 'w \<Rightarrow> (string + nat) \<times> 'w"
  v_kvm_new :: "string list \<Rightarrow> 'w \<Rightarrow> (string + nat) \<times> 'w"
  v_vm_new :: "nat \<Rightarrow> 'w \<Rightarrow> (string + nat) \<times> 'w"
  v_create_vcpus :: "nat \<Rightarrow> u8 \<Rightarrow> 'w \<Rightarrow> (string + nat list \<times> nat) \<times> 'w"
  v_restore_memory_regions :: "nat \<Rightarrow> nat \<Rightarrow> string \<Rightarrow> 'w \<Rightarrow> (string + unit) \<times> 'w"
  v_tsc_scaling_required :: "nat \<Rightarrow> nat \<Rightarrow> 'w \<Rightarrow> (string + bool) \<times> 'w"
  v_set_tsc_khz :: "nat \<Rightarrow> nat \<Rightarrow> 'w \<Rightarrow> (string + unit) \<times> 'w"
  v_vcpu_restore_state :: "nat \<Rightarrow> vcpu_state \<Rightarrow> 'w \<Rightarrow> (string + unit) \<times> 'w"
  v_vm_restore_state :: "nat \<Rightarrow> string \<Rightarrow> bool \<Rightarrow> 'w \<Rightarrow> (string + unit) \<times> 'w"
  v_event_manager_new :: "'w \<Rightarrow> (string + nat) \<times> 'w"
  v_default_resources :: vm_resources
  v_default_info :: vm_run_state
  v_build_microvm :: "instance_info \<Rightarrow> nat \<Rightarrow> microvm_state \<Rightarrow> nat \<Rightarrow> vm_resources \<Rightarrow> 'w \<Rightarrow>
                        (string + 'dm vmm) \<times> 'w"
  v_lock_poisoned :: "'w \<Rightarrow> bool"
  v_restore_devices :: "nat \<Rightarrow> nat \<Rightarrow> nat \<Rightarrow> vm_resources \<Rightarrow> string \<Rightarrow> string \<times> device_states \<Rightarrow>
                          'w \<Rightarrow> (string + unit) \<times> 'w"
  v_restore_mmio :: "nat \<Rightarrow> nat \<Rightarrow> vm_resources \<Rightarrow> string \<Rightarrow> device_states \<Rightarrow> 'w \<Rightarrow> (string + unit) \<times> 'w"
  v_default_devices :: device_states
  v_vmm_env :: "('w, 'dm) vmm_env"

text \<open>A call of the interface, with the message its error is wrapped in.\<close>

definition call :: "('w \<Rightarrow> (string + 'b) \<times> 'w) \<Rightarrow> string \<Rightarrow> ('w netns_proc, 'b) io" where
  "call f msg = io_map_err (\<lambda>e. msg @ e) (on_host f)"

section \<open>Common steps\<close>

datatype snapshot_error = SnapOpen string | SnapLoad string

fun show_snapshot_error :: "snapshot_error \<Rightarrow> string" where
  "show_snapshot_error (SnapOpen err) = ''Failed to open snapshot file: '' @ err"
| "show_snapshot_error (SnapLoad err) = ''Failed to load snapshot state from file: '' @ err"

definition SNAPSHOT_PATH :: string where "SNAPSHOT_PATH = ''snapshots/agent_snapshot_file''"
definition MEM_FILE_PATH :: string where "MEM_FILE_PATH = ''snapshots/agent_mem_file''"

definition snapshot_state_from_file ::
  "'w netns_host \<Rightarrow> ('w, 'dm) vm_api \<Rightarrow> string \<Rightarrow> 'w netns_proc \<Rightarrow>
     (snapshot_error + microvm_state) \<times> 'w netns_proc" where
  "snapshot_state_from_file H V path p =
     (case open_file H path p of
        (Inl e, p1) \<Rightarrow> (Err (SnapOpen e), p1)
      | (Inr fd, p1) \<Rightarrow>
          (case on_host (v_load V fd) p1 of
             (Inl e, p2) \<Rightarrow> (Err (SnapLoad e), p2)
           | (Inr st, p2) \<Rightarrow> (Ok st, p2)))"

definition load_microvm_state ::
  "'w netns_host \<Rightarrow> ('w, 'dm) vm_api \<Rightarrow> ('w netns_proc, microvm_state) io" where
  "load_microvm_state H V p =
     (case snapshot_state_from_file H V SNAPSHOT_PATH p of
        (Inl e, p') \<Rightarrow>
          (Err (''snapshot load failed for '' @ SNAPSHOT_PATH @ '': '' @ show_snapshot_error e), p')
      | (Inr st, p') \<Rightarrow> (Ok st, p'))"

definition run_snapshot_load :: "'w netns_host \<Rightarrow> ('w, 'dm) vm_api \<Rightarrow> ('w netns_proc, unit) io" where
  "run_snapshot_load H V =
     io_bind (load_microvm_state H V) (\<lambda>st.
       io_lift (map_err (\<lambda>e. ''snapshot sanity check failed for '' @ SNAPSHOT_PATH @ '': '' @ e)
                  (v_sanity_check V st)))"

definition guest_memory_from_file ::
  "'w netns_host \<Rightarrow> ('w, 'dm) vm_api \<Rightarrow> string \<Rightarrow> string \<Rightarrow> bool \<Rightarrow> ('w netns_proc, nat) io" where
  "guest_memory_from_file H V path mem_state track =
     io_bind (io_map_err (\<lambda>e. ''failed to open guest memory file '' @ path @ '': '' @ e) (open_file H path))
       (\<lambda>fd. call (v_snapshot_file V fd mem_state track)
               (''failed to restore guest memory from '' @ path @ '': ''))"

datatype guest_memory_error = GmFile string | GmRestore string

fun show_guest_memory_error :: "guest_memory_error \<Rightarrow> string" where
  "show_guest_memory_error (GmFile err) = ''Failed to load guest memory: '' @ err"
| "show_guest_memory_error (GmRestore err) = ''Failed to restore guest memory: '' @ err"

text \<open>\<open>guest_memory::guest_memory_from_file\<close>, which keeps the kind of error.\<close>

definition gm_guest_memory_from_file ::
  "'w netns_host \<Rightarrow> ('w, 'dm) vm_api \<Rightarrow> string \<Rightarrow> string \<Rightarrow> bool \<Rightarrow> 'w netns_proc \<Rightarrow>
     (guest_memory_error + nat) \<times> 'w netns_proc" where
  "gm_guest_memory_from_file H V path mem_state track p =
     (case open_file H path p of
        (Inl e, p1) \<Rightarrow> (Err (GmFile e), p1)
      | (Inr fd, p1) \<Rightarrow>
          (case on_host (v_snapshot_file V fd mem_state track) p1 of
             (Inl e, p2) \<Rightarrow> (Err (GmRestore e), p2)
           | (Inr mem, p2) \<Rightarrow> (Ok mem, p2)))"

definition build_kvm :: "('w, 'dm) vm_api \<Rightarrow> string list \<Rightarrow> ('w netns_proc, nat) io" where
  "build_kvm V caps = call (v_kvm_new V caps) ''Kvm::new failed: ''"

definition vm_new :: "('w, 'dm) vm_api \<Rightarrow> nat \<Rightarrow> ('w netns_proc, nat) io" where
  "vm_new V kvm = call (v_vm_new V kvm) ''Vm::new failed: ''"

definition build_vm :: "('w, 'dm) vm_api \<Rightarrow> string list \<Rightarrow> ('w netns_proc, nat) io" where
  "build_vm V caps = io_bind (build_kvm V caps) (vm_new V)"

definition vcpu_count :: "microvm_state \<Rightarrow> u8 res" where
  "vcpu_count st =
     (let n = length (ms_vcpu_states st)
      in if n \<le> 255 then Ok (of_nat n) else Err (''vcpu count '' @ show_nat n @ '' exceeds u8::MAX''))"

definition bench_instance_info :: "('w, 'dm) vm_api \<Rightarrow> instance_info" where
  "bench_instance_info V =
     \<lparr>ii_id = ''bench'', ii_state = v_default_info V, ii_vmm_version = ''bench'',
      ii_app_name = ''fc-restore-bench''\<rparr>"

text \<open>\<open>usize::try_from\<close> of a \<open>u64\<close> does not fail on the 64-bit targets of the program.\<close>

definition vm_resources_from_state :: "('w, 'dm) vm_api \<Rightarrow> microvm_state \<Rightarrow> vm_resources res" where
  "vm_resources_from_state V st =
     rbind (vcpu_count st) (\<lambda>n.
       Ok ((v_default_resources V)
             \<lparr>mc_vcpu_count := n,
              mc_mem_size_mib := vi_mem_size_mib (ms_vm_info st),
              mc_smt := vi_smt (ms_vm_info st),
              mc_cpu_template := Some (vi_cpu_template (ms_vm_info st)),
              mc_huge_pages := vi_huge_pages (ms_vm_info st),
              mc_boot_source := vi_boot_source (ms_vm_info st)\<rparr>))"

definition event_manager :: "('w, 'dm) vm_api \<Rightarrow> ('w netns_proc, nat) io" where
  "event_manager V = call (v_event_manager_new V) ''EventManager::new failed: ''"

definition build_paused_vmm_from_snapshot ::
  "('w, 'dm) vm_api \<Rightarrow> microvm_state \<Rightarrow> nat \<Rightarrow> ('w netns_proc, 'dm vmm \<times> nat) io" where
  "build_paused_vmm_from_snapshot V st mem =
     io_bind (event_manager V) (\<lambda>em.
     io_bind (io_lift (vm_resources_from_state V st)) (\<lambda>res.
     io_bind (call (v_build_microvm V (bench_instance_info V) em st mem res)
                ''build_microvm_from_snapshot failed: '') (\<lambda>vmm.
     io_return (vmm, em))))"

fun io_for_each :: "('a \<Rightarrow> ('w, unit) io) \<Rightarrow> 'a list \<Rightarrow> ('w, unit) io" where
  "io_for_each f [] = io_return ()"
| "io_for_each f (x # xs) = io_bind (f x) (\<lambda>_. io_for_each f xs)"

definition scale_tsc :: "('w, 'dm) vm_api \<Rightarrow> nat list \<Rightarrow> microvm_state \<Rightarrow> ('w netns_proc, unit) io" where
  "scale_tsc V vcpus st =
     (case ms_vcpu_states st of
        [] \<Rightarrow> io_return ()
      | s # _ \<Rightarrow>
          (case tsc_khz s of
             None \<Rightarrow> io_return ()
           | Some khz \<Rightarrow>
               (case vcpus of
                  [] \<Rightarrow> io_return ()
                | first # _ \<Rightarrow>
                    io_bind (call (v_tsc_scaling_required V first khz)
                               ''KvmVcpu::is_tsc_scaling_required failed: '')
                      (\<lambda>required.
                        if required then
                          io_for_each (\<lambda>vcpu. call (v_set_tsc_khz V vcpu khz)
                                          ''KvmVcpu::set_tsc_khz failed: '') vcpus
                        else io_return ()))))"

definition restore_vcpu_states ::
  "('w, 'dm) vm_api \<Rightarrow> nat list \<Rightarrow> microvm_state \<Rightarrow> ('w netns_proc, unit) io" where
  "restore_vcpu_states V vcpus st =
     io_bind (scale_tsc V vcpus st) (\<lambda>_.
       io_for_each (\<lambda>(vcpu, s). call (v_vcpu_restore_state V vcpu s) ''KvmVcpu::restore_state failed: '')
         (zip vcpus (ms_vcpu_states st)))"

record device_restore_context =
  dr_vm :: nat
  dr_vcpus_exit_evt :: nat
  dr_microvm_state :: microvm_state
  dr_vm_resources :: vm_resources
  dr_event_manager :: nat

definition build_device_restore_context ::
  "('w, 'dm) vm_api \<Rightarrow> microvm_state \<Rightarrow> nat \<Rightarrow> ('w netns_proc, device_restore_context) io" where
  "build_device_restore_context V st mem =
     io_bind (build_kvm V (ms_kvm_cap_modifiers st)) (\<lambda>kvm.
     io_bind (vm_new V kvm) (\<lambda>vm.
     io_bind (io_lift (vcpu_count st)) (\<lambda>n.
     io_bind (call (v_create_vcpus V vm n) ''Vm::create_vcpus failed: '') (\<lambda>(vcpus, evt).
     io_bind (call (v_restore_memory_regions V vm mem (ms_memory st)) ''Vm::restore_memory_regions failed: '')
       (\<lambda>_.
     io_bind (io_map_err (\<lambda>e. ''restore_vcpu_states failed: '' @ e) (restore_vcpu_states V vcpus st)) (\<lambda>_.
     io_bind (call (v_vm_restore_state V vm (ms_vm_state st) False) ''Vm::restore_state failed: '') (\<lambda>_.
     io_bind (io_lift (vm_resources_from_state V st)) (\<lambda>res.
     io_bind (event_manager V) (\<lambda>em.
     io_return \<lparr>dr_vm = vm, dr_vcpus_exit_evt = evt, dr_microvm_state = st, dr_vm_resources = res,
                dr_event_manager = em\<rparr>)))))))))"

definition restore_context_devices ::
  "('w, 'dm) vm_api \<Rightarrow> device_restore_context \<Rightarrow> device_restore_kind \<Rightarrow> ('w netns_proc, unit) io" where
  "restore_context_devices V ctx kind =
     restore_devices_for_benchmark
       (\<lambda>ds. on_host (v_restore_devices V (dr_vm ctx) (dr_event_manager ctx) (dr_vcpus_exit_evt ctx)
                        (dr_vm_resources ctx) ''bench'' ds))
       (\<lambda>ds. on_host (v_restore_mmio V (dr_vm ctx) (dr_event_manager ctx) (dr_vm_resources ctx) ''bench'' ds))
       (v_default_devices V) (ms_device_states (dr_microvm_state ctx)) snd kind"

section \<open>Prepared contexts\<close>

text \<open>
  The loop \<open>for _ in 0..worker.iterations\<close> with \<open>push_back\<close>, left at the first error: the
  contexts built so far are dropped by \<open>drop_all\<close>.
\<close>

fun prepare_loop ::
  "('c list \<Rightarrow> 'w \<Rightarrow> 'w) \<Rightarrow> nat \<Rightarrow> ('w, 'c) io \<Rightarrow> 'c list \<Rightarrow> ('w, 'c list) io" where
  "prepare_loop drop_all 0 mk acc w = (Ok acc, w)"
| "prepare_loop drop_all (Suc n) mk acc w =
     (case mk w of
        (Inl e, w') \<Rightarrow> (Err e, drop_all acc w')
      | (Inr c, w') \<Rightarrow> prepare_loop drop_all n mk (acc @ [c]) w')"

text \<open>The closure: \<open>contexts.pop_front().ok_or_else(\<dots>)\<close>, the work, \<open>completed_contexts.push\<close>.\<close>

type_synonym 'c runner = "'c list \<times> 'c list"

definition run_next ::
  "string \<Rightarrow> ('c \<Rightarrow> 'w \<Rightarrow> unit res \<times> 'c option \<times> 'w) \<Rightarrow> 'c runner \<Rightarrow> 'w \<Rightarrow> unit res \<times> 'c runner \<times> 'w" where
  "run_next exhausted work st w =
     (case st of
        ([], finished) \<Rightarrow> (Err exhausted, ([], finished), w)
      | (c # cs, finished) \<Rightarrow>
          (case work c w of
             (r, kept, w') \<Rightarrow>
               (r, (cs, finished @ (case kept of Some c' \<Rightarrow> [c'] | None \<Rightarrow> [])), w')))"

section \<open>Operations without a namespace\<close>

definition keep_nothing :: "'c list \<Rightarrow> 'w \<Rightarrow> 'w" where
  "keep_nothing cs w = w"

text \<open>\<open>restore_kvm\<close>: no contexts, the closure can run any number of times.\<close>

definition prepare_kvm :: "'w netns_host \<Rightarrow> ('w, 'dm) vm_api \<Rightarrow> ('w netns_proc, string list) io" where
  "prepare_kvm H V = io_bind (load_microvm_state H V) (\<lambda>st. io_return (ms_kvm_cap_modifiers st))"

definition run_kvm :: "('w, 'dm) vm_api \<Rightarrow> string list \<Rightarrow> ('w netns_proc, unit) io" where
  "run_kvm V caps = io_bind (build_kvm V caps) (\<lambda>_. io_return ())"

text \<open>\<open>guest_memory\<close>\<close>

definition prepare_guest_memory ::
  "'w netns_host \<Rightarrow> ('w, 'dm) vm_api \<Rightarrow> ('w netns_proc, microvm_state) io" where
  "prepare_guest_memory H V = load_microvm_state H V"

definition run_guest_memory ::
  "'w netns_host \<Rightarrow> ('w, 'dm) vm_api \<Rightarrow> microvm_state \<Rightarrow> ('w netns_proc, unit) io" where
  "run_guest_memory H V st p =
     (case gm_guest_memory_from_file H V MEM_FILE_PATH (ms_memory st) False p of
        (Inl e, p') \<Rightarrow>
          (Err (''guest memory load failed for '' @ MEM_FILE_PATH @ '': '' @ show_guest_memory_error e), p')
      | (Inr _, p') \<Rightarrow> (Ok (), p'))"

text \<open>\<open>vm_new\<close>: the contexts are KVM handles.\<close>

definition prepare_vm_new ::
  "'w netns_host \<Rightarrow> ('w, 'dm) vm_api \<Rightarrow> worker_run_config \<Rightarrow> ('w netns_proc, nat list) io" where
  "prepare_vm_new H V worker =
     io_bind (load_microvm_state H V) (\<lambda>st.
       prepare_loop keep_nothing (wrc_iterations worker) (build_kvm V (ms_kvm_cap_modifiers st)) [])"

definition run_vm_new ::
  "('w, 'dm) vm_api \<Rightarrow> nat runner \<Rightarrow> 'w netns_proc \<Rightarrow> unit res \<times> nat runner \<times> 'w netns_proc" where
  "run_vm_new V =
     run_next ''no prepared KVM context left''
       (\<lambda>kvm p. case vm_new V kvm p of (Inl e, p') \<Rightarrow> (Err e, None, p') | (Inr _, p') \<Rightarrow> (Ok (), None, p'))"

text \<open>\<open>create_vcpus\<close>: the contexts are VMs, the vCPU count is shared.\<close>

definition prepare_create_vcpus ::
  "'w netns_host \<Rightarrow> ('w, 'dm) vm_api \<Rightarrow> worker_run_config \<Rightarrow> ('w netns_proc, u8 \<times> nat list) io" where
  "prepare_create_vcpus H V worker =
     io_bind (load_microvm_state H V) (\<lambda>st.
     io_bind (io_lift (vcpu_count st)) (\<lambda>n.
     io_bind (prepare_loop keep_nothing (wrc_iterations worker) (build_vm V (ms_kvm_cap_modifiers st)) [])
       (\<lambda>vms. io_return (n, vms))))"

definition run_create_vcpus ::
  "('w, 'dm) vm_api \<Rightarrow> u8 \<Rightarrow> nat runner \<Rightarrow> 'w netns_proc \<Rightarrow> unit res \<times> nat runner \<times> 'w netns_proc" where
  "run_create_vcpus V n =
     run_next ''no prepared VM context left''
       (\<lambda>vm p. case call (v_create_vcpus V vm n) ''Vm::create_vcpus failed: '' p of
                 (Inl e, p') \<Rightarrow> (Err e, None, p')
               | (Inr _, p') \<Rightarrow> (Ok (), None, p'))"

text \<open>\<open>restore_memory_regions\<close>\<close>

record memory_regions_context =
  mr_vm :: nat
  mr_guest_memory :: "nat option"
  mr_mem_state :: string

definition prepare_restore_memory_regions ::
  "'w netns_host \<Rightarrow> ('w, 'dm) vm_api \<Rightarrow> worker_run_config \<Rightarrow> ('w netns_proc, memory_regions_context list) io"
  where
  "prepare_restore_memory_regions H V worker =
     io_bind (load_microvm_state H V) (\<lambda>st.
       prepare_loop keep_nothing (wrc_iterations worker)
         (io_bind (build_vm V (ms_kvm_cap_modifiers st)) (\<lambda>vm.
          io_bind (guest_memory_from_file H V MEM_FILE_PATH (ms_memory st) False) (\<lambda>mem.
          io_return \<lparr>mr_vm = vm, mr_guest_memory = Some mem, mr_mem_state = ms_memory st\<rparr>))) [])"

definition run_restore_memory_regions ::
  "('w, 'dm) vm_api \<Rightarrow> memory_regions_context runner \<Rightarrow> 'w netns_proc \<Rightarrow>
     unit res \<times> memory_regions_context runner \<times> 'w netns_proc" where
  "run_restore_memory_regions V =
     run_next ''no prepared restore_memory_regions context left''
       (\<lambda>ctx p. case mr_guest_memory ctx of
          None \<Rightarrow> (Err ''restore_memory_regions context missing guest memory'', None, p)
        | Some mem \<Rightarrow>
            (case call (v_restore_memory_regions V (mr_vm ctx) mem (mr_mem_state ctx))
                    ''Vm::restore_memory_regions failed: '' p of
               (r, p') \<Rightarrow> (r, Some (ctx\<lparr>mr_guest_memory := None\<rparr>), p')))"

text \<open>\<open>restore_vcpu_states\<close>\<close>

record vcpu_states_context =
  vs_vm :: nat
  vs_vcpus :: "nat list"
  vs_microvm_state :: microvm_state

definition vm_with_memory ::
  "'w netns_host \<Rightarrow> ('w, 'dm) vm_api \<Rightarrow> string \<Rightarrow> microvm_state \<Rightarrow> ('w netns_proc, nat \<times> nat list) io" where
  "vm_with_memory H V during st =
     io_bind (io_lift (vcpu_count st)) (\<lambda>n.
     io_bind (guest_memory_from_file H V MEM_FILE_PATH (ms_memory st) False) (\<lambda>mem.
     io_bind (build_vm V (ms_kvm_cap_modifiers st)) (\<lambda>vm.
     io_bind (call (v_create_vcpus V vm n)
                (''Vm::create_vcpus failed during '' @ during @ '' prepare: '')) (\<lambda>(vcpus, evt).
     io_bind (call (v_restore_memory_regions V vm mem (ms_memory st))
                (''Vm::restore_memory_regions failed during '' @ during @ '' prepare: '')) (\<lambda>_.
     io_return (vm, vcpus))))))"

definition prepare_restore_vcpu_states ::
  "'w netns_host \<Rightarrow> ('w, 'dm) vm_api \<Rightarrow> worker_run_config \<Rightarrow> ('w netns_proc, vcpu_states_context list) io"
  where
  "prepare_restore_vcpu_states H V worker =
     prepare_loop keep_nothing (wrc_iterations worker)
       (io_bind (load_microvm_state H V) (\<lambda>st.
        io_bind (vm_with_memory H V ''restore_vcpu_states'' st) (\<lambda>(vm, vcpus).
        io_return \<lparr>vs_vm = vm, vs_vcpus = vcpus, vs_microvm_state = st\<rparr>))) []"

definition run_restore_vcpu_states ::
  "('w, 'dm) vm_api \<Rightarrow> vcpu_states_context runner \<Rightarrow> 'w netns_proc \<Rightarrow>
     unit res \<times> vcpu_states_context runner \<times> 'w netns_proc" where
  "run_restore_vcpu_states V =
     run_next ''no prepared restore_vcpu_states context left''
       (\<lambda>ctx p. case restore_vcpu_states V (vs_vcpus ctx) (vs_microvm_state ctx) p of
                  (r, p') \<Rightarrow> (r, Some ctx, p'))"

text \<open>\<open>restore_state\<close>\<close>

record restore_state_context =
  rs_vm :: nat
  rs_vm_state :: string

definition prepare_restore_state ::
  "'w netns_host \<Rightarrow> ('w, 'dm) vm_api \<Rightarrow> worker_run_config \<Rightarrow> ('w netns_proc, restore_state_context list) io"
  where
  "prepare_restore_state H V worker =
     prepare_loop keep_nothing (wrc_iterations worker)
       (io_bind (load_microvm_state H V) (\<lambda>st.
        io_bind (vm_with_memory H V ''restore_state'' st) (\<lambda>(vm, vcpus).
        io_bind (io_map_err (\<lambda>e. ''restore_vcpu_states failed during restore_state prepare: '' @ e)
                   (restore_vcpu_states V vcpus st)) (\<lambda>_.
        io_return \<lparr>rs_vm = vm, rs_vm_state = ms_vm_state st\<rparr>)))) []"

definition restore_vm_state ::
  "('w, 'dm) vm_api \<Rightarrow> restore_state_context \<Rightarrow> ('w netns_proc, unit) io" where
  "restore_vm_state V ctx =
     call (v_vm_restore_state V (rs_vm ctx) (rs_vm_state ctx) False) ''Vm::restore_state failed: ''"

definition run_restore_state ::
  "('w, 'dm) vm_api \<Rightarrow> restore_state_context runner \<Rightarrow> 'w netns_proc \<Rightarrow>
     unit res \<times> restore_state_context runner \<times> 'w netns_proc" where
  "run_restore_state V =
     run_next ''no prepared restore_state context left''
       (\<lambda>ctx p. case restore_vm_state V ctx p of (r, p') \<Rightarrow> (r, Some ctx, p'))"

text \<open>\<open>device_restore::prepare_kind\<close>\<close>

definition prepare_kind ::
  "'w netns_host \<Rightarrow> ('w, 'dm) vm_api \<Rightarrow> worker_run_config \<Rightarrow> ('w netns_proc, device_restore_context list) io"
  where
  "prepare_kind H V worker =
     prepare_loop keep_nothing (wrc_iterations worker)
       (io_bind (load_microvm_state H V) (\<lambda>st.
        io_bind (guest_memory_from_file H V MEM_FILE_PATH (ms_memory st) False) (\<lambda>mem.
        build_device_restore_context V st mem))) []"

definition run_kind ::
  "('w, 'dm) vm_api \<Rightarrow> device_restore_kind \<Rightarrow> device_restore_context runner \<Rightarrow> 'w netns_proc \<Rightarrow>
     unit res \<times> device_restore_context runner \<times> 'w netns_proc" where
  "run_kind V kind =
     run_next ''no prepared device_restore context left''
       (\<lambda>ctx p. case restore_context_devices V ctx kind p of (r, p') \<Rightarrow> (r, Some ctx, p'))"

end
