(* ===== verification/Vm_Restore_Netns.thy ===== *)
theory Vm_Restore_Netns
  imports Vm_Restore
begin

text \<open>
  The restore operations that run inside a network namespace: device_restore.rs with a
  namespace, kick_virtio.rs, resume_vcpus.rs and resume_vm.rs of
  src/restore-motivation/src/ops/vm_restore. Each context owns a namespace, which is entered
  for the measured part and left afterwards. The lock of the monitor is an
  \<open>Arc<Mutex<Vmm>>\<close> with one owner; whether it is poisoned is a field of the interface.
\<close>

section \<open>Preparation in a namespace\<close>

datatype netns_mode = NetnsMinimal | NetnsFull

definition prepare_netns :: "'w netns_host \<Rightarrow> netns_mode \<Rightarrow> ('w netns_proc, vm_netns_context) io" where
  "prepare_netns H mode = (case mode of NetnsMinimal \<Rightarrow> prepare_minimal H | NetnsFull \<Rightarrow> prepare_full H)"

text \<open>
  The body of the preparation loop: every early return drops the namespace. The outcome of
  \<open>leave\<close> is ignored.
\<close>

definition load_in_netns ::
  "'w netns_host \<Rightarrow> ('w, 'dm) vm_api \<Rightarrow> vm_netns_context \<Rightarrow> ('w netns_proc, microvm_state \<times> nat) io" where
  "load_in_netns H V ns =
     io_bind (enter H ns) (\<lambda>_.
     io_bind (load_microvm_state H V) (\<lambda>st.
     io_bind (guest_memory_from_file H V MEM_FILE_PATH (ms_memory st) False) (\<lambda>mem.
     io_return (st, mem))))"

definition build_in_netns ::
  "'w netns_host \<Rightarrow> ('w, 'dm) vm_api \<Rightarrow> netns_mode \<Rightarrow>
     (microvm_state \<Rightarrow> nat \<Rightarrow> ('w netns_proc, 'b) io) \<Rightarrow> ('w netns_proc, vm_netns_context \<times> 'b) io" where
  "build_in_netns H V mode mk p =
     (case prepare_netns H mode p of
        (Inl e, p1) \<Rightarrow> (Err e, p1)
      | (Inr ns, p1) \<Rightarrow>
          (case load_in_netns H V ns p1 of
             (Inl e, p2) \<Rightarrow> (Err e, drop_context H ns p2)
           | (Inr (st, mem), p2) \<Rightarrow>
               (case mk st mem p2 of
                  (r, p3) \<Rightarrow>
                    (let p4 = snd (leave H ns p3)
                     in case r of
                          Inl e \<Rightarrow> (Err e, drop_context H ns p4)
                        | Inr b \<Rightarrow> (Ok (ns, b), p4)))))"

definition drop_vmm_in :: "('w, 'dm) vm_api \<Rightarrow> 'dm vmm \<Rightarrow> 'w netns_proc \<Rightarrow> 'w netns_proc" where
  "drop_vmm_in V vmm p = p\<lparr>host_world := snd (drop_vmm (v_vmm_env V) vmm (host_world p))\<rparr>"

text \<open>A call of an operation of the monitor on the world of the host.\<close>

definition on_vmm ::
  "('w \<Rightarrow> (vmm_error + unit) \<times> 'dm vmm \<times> 'w) \<Rightarrow> 'w netns_proc \<Rightarrow> (vmm_error + unit) \<times> 'dm vmm \<times> 'w netns_proc"
  where
  "on_vmm f p = (case f (host_world p) of (r, v, w) \<Rightarrow> (r, v, p\<lparr>host_world := w\<rparr>))"

definition kick_in :: "('w, 'dm) vm_api \<Rightarrow> 'dm vmm \<Rightarrow> 'w netns_proc \<Rightarrow> 'dm vmm \<times> 'w netns_proc" where
  "kick_in V vmm p =
     (case kick_virtio_devices_for_resume (v_vmm_env V) vmm (host_world p) of
        (v, w) \<Rightarrow> (v, p\<lparr>host_world := w\<rparr>))"

fun show_vmm_error :: "vmm_error \<Rightarrow> string" where
  "show_vmm_error VcpuMessage = ''Failed to message the vCPUs.''"
| "show_vmm_error (FindDeviceError e) = ''Failed perform action on device: '' @ e"
| "show_vmm_error (BlockErr e) = ''Block: '' @ e"
| "show_vmm_error (BalloonErr e) = ''Balloon: '' @ e"
| "show_vmm_error (VirtioMemErr e) = ''Failed to create memory hotplug device: '' @ e"
| "show_vmm_error (I8042Error e) = ''I8042 error: '' @ e"

section \<open>Device restore in a namespace\<close>

record netns_device_context =
  nd_netns :: vm_netns_context
  nd_context :: device_restore_context

fun drop_all_netns :: "'w netns_host \<Rightarrow> netns_device_context list \<Rightarrow> 'w netns_proc \<Rightarrow> 'w netns_proc" where
  "drop_all_netns H [] p = p"
| "drop_all_netns H (c # cs) p = drop_all_netns H cs (drop_context H (nd_netns c) p)"

definition prepare_netns_kind ::
  "'w netns_host \<Rightarrow> ('w, 'dm) vm_api \<Rightarrow> netns_mode \<Rightarrow> worker_run_config \<Rightarrow>
     ('w netns_proc, netns_device_context list) io" where
  "prepare_netns_kind H V mode worker =
     prepare_loop (drop_all_netns H) (wrc_iterations worker)
       (io_bind (build_in_netns H V mode (build_device_restore_context V))
          (\<lambda>(ns, ctx). io_return \<lparr>nd_netns = ns, nd_context = ctx\<rparr>)) []"

definition netns_kind_work ::
  "'w netns_host \<Rightarrow> ('w, 'dm) vm_api \<Rightarrow> device_restore_kind \<Rightarrow> netns_device_context \<Rightarrow> 'w netns_proc \<Rightarrow>
     unit res \<times> netns_device_context option \<times> 'w netns_proc" where
  "netns_kind_work H V kind ctx p =
     (case enter H (nd_netns ctx) p of
        (Inl e, p1) \<Rightarrow> (Err e, Some ctx, p1)
      | (Inr _, p1) \<Rightarrow>
          (case restore_context_devices V (nd_context ctx) kind p1 of (r, p2) \<Rightarrow>
           case leave H (nd_netns ctx) p2 of (l, p3) \<Rightarrow> (merge_results r l, Some ctx, p3)))"

definition run_netns_kind ::
  "'w netns_host \<Rightarrow> ('w, 'dm) vm_api \<Rightarrow> device_restore_kind \<Rightarrow> netns_device_context runner \<Rightarrow> 'w netns_proc \<Rightarrow>
     unit res \<times> netns_device_context runner \<times> 'w netns_proc" where
  "run_netns_kind H V kind =
     run_next ''no prepared netns device_restore context left'' (netns_kind_work H V kind)"

section \<open>Kick and resume\<close>

text \<open>\<open>KickVirtioContext\<close> and \<open>ResumeVcpusContext\<close>\<close>

record 'dm kick_context =
  kx_netns :: vm_netns_context
  kx_vmm :: "'dm vmm"

fun drop_all_kick :: "'w netns_host \<Rightarrow> ('w, 'dm) vm_api \<Rightarrow> 'dm kick_context list \<Rightarrow> 'w netns_proc \<Rightarrow> 'w netns_proc"
  where
  "drop_all_kick H V [] p = p"
| "drop_all_kick H V (c # cs) p =
     drop_all_kick H V cs (drop_vmm_in V (kx_vmm c) (drop_context H (kx_netns c) p))"

definition prepare_kick_virtio ::
  "'w netns_host \<Rightarrow> ('w, 'dm) vm_api \<Rightarrow> netns_mode \<Rightarrow> worker_run_config \<Rightarrow> ('w netns_proc, 'dm kick_context list) io"
  where
  "prepare_kick_virtio H V mode worker =
     prepare_loop (drop_all_kick H V) (wrc_iterations worker)
       (io_bind (build_in_netns H V mode (build_paused_vmm_from_snapshot V))
          (\<lambda>(ns, vmm, em). io_return \<lparr>kx_netns = ns, kx_vmm = vmm\<rparr>)) []"

definition kick_virtio_work ::
  "'w netns_host \<Rightarrow> ('w, 'dm) vm_api \<Rightarrow> 'dm kick_context \<Rightarrow> 'w netns_proc \<Rightarrow>
     unit res \<times> 'dm kick_context option \<times> 'w netns_proc" where
  "kick_virtio_work H V ctx p =
     (case enter H (kx_netns ctx) p of
        (Inl e, p1) \<Rightarrow> (Err e, Some ctx, p1)
      | (Inr _, p1) \<Rightarrow>
          (if v_lock_poisoned V (host_world p1) then (Err ''VMM lock poisoned'', Some ctx, p1)
           else case kick_in V (kx_vmm ctx) p1 of (vmm', p2) \<Rightarrow>
                case leave H (kx_netns ctx) p2 of
                  (l, p3) \<Rightarrow> (l, Some (ctx\<lparr>kx_vmm := vmm'\<rparr>), p3)))"

definition run_kick_virtio ::
  "'w netns_host \<Rightarrow> ('w, 'dm) vm_api \<Rightarrow> 'dm kick_context runner \<Rightarrow> 'w netns_proc \<Rightarrow>
     unit res \<times> 'dm kick_context runner \<times> 'w netns_proc" where
  "run_kick_virtio H V = run_next ''no prepared kick_virtio context left'' (kick_virtio_work H V)"

text \<open>\<open>resume_vcpus\<close> kicks the devices during the preparation, outside the namespace.\<close>

definition build_kicked_context ::
  "'w netns_host \<Rightarrow> ('w, 'dm) vm_api \<Rightarrow> netns_mode \<Rightarrow> ('w netns_proc, 'dm kick_context) io" where
  "build_kicked_context H V mode p =
     (case build_in_netns H V mode (build_paused_vmm_from_snapshot V) p of
        (Inl e, p1) \<Rightarrow> (Err e, p1)
      | (Inr (ns, vmm, em), p1) \<Rightarrow>
          (if v_lock_poisoned V (host_world p1) then
             (Err ''VMM lock poisoned'', drop_context H ns (drop_vmm_in V vmm p1))
           else case kick_in V vmm p1 of
                  (vmm', p2) \<Rightarrow> (Ok \<lparr>kx_netns = ns, kx_vmm = vmm'\<rparr>, p2)))"

definition prepare_resume_vcpus ::
  "'w netns_host \<Rightarrow> ('w, 'dm) vm_api \<Rightarrow> netns_mode \<Rightarrow> worker_run_config \<Rightarrow> ('w netns_proc, 'dm kick_context list) io"
  where
  "prepare_resume_vcpus H V mode worker =
     prepare_loop (drop_all_kick H V) (wrc_iterations worker) (build_kicked_context H V mode) []"

definition resume_vcpus_work ::
  "'w netns_host \<Rightarrow> ('w, 'dm) vm_api \<Rightarrow> 'dm kick_context \<Rightarrow> 'w netns_proc \<Rightarrow>
     unit res \<times> 'dm kick_context option \<times> 'w netns_proc" where
  "resume_vcpus_work H V ctx p =
     (case enter H (kx_netns ctx) p of
        (Inl e, p1) \<Rightarrow> (Err e, Some ctx, p1)
      | (Inr _, p1) \<Rightarrow>
          (if v_lock_poisoned V (host_world p1) then (Err ''VMM lock poisoned'', Some ctx, p1)
           else case on_vmm (resume_vcpus_after_kick (v_vmm_env V) (kx_vmm ctx)) p1 of (r, vmm', p2) \<Rightarrow>
                case leave H (kx_netns ctx) p2 of (l, p3) \<Rightarrow>
                  (merge_results
                     (map_err (\<lambda>e. ''Vmm::resume_vcpus_after_kick failed: '' @ show_vmm_error e) r) l,
                   Some (ctx\<lparr>kx_vmm := vmm'\<rparr>), p3)))"

definition run_resume_vcpus ::
  "'w netns_host \<Rightarrow> ('w, 'dm) vm_api \<Rightarrow> 'dm kick_context runner \<Rightarrow> 'w netns_proc \<Rightarrow>
     unit res \<times> 'dm kick_context runner \<times> 'w netns_proc" where
  "run_resume_vcpus H V = run_next ''no prepared resume_vcpus context left'' (resume_vcpus_work H V)"

text \<open>\<open>ResumeVmContext\<close>\<close>

record 'dm vmm_context =
  vx_netns :: vm_netns_context
  vx_vmm :: "'dm vmm option"

fun drop_all_vmm :: "'w netns_host \<Rightarrow> ('w, 'dm) vm_api \<Rightarrow> 'dm vmm_context list \<Rightarrow> 'w netns_proc \<Rightarrow> 'w netns_proc"
  where
  "drop_all_vmm H V [] p = p"
| "drop_all_vmm H V (c # cs) p =
     drop_all_vmm H V cs
       (case vx_vmm c of
          Some vmm \<Rightarrow> drop_vmm_in V vmm (drop_context H (vx_netns c) p)
        | None \<Rightarrow> drop_context H (vx_netns c) p)"

definition build_vmm_context ::
  "'w netns_host \<Rightarrow> ('w, 'dm) vm_api \<Rightarrow> netns_mode \<Rightarrow> ('w netns_proc, 'dm vmm_context) io" where
  "build_vmm_context H V mode =
     io_bind (build_in_netns H V mode (build_paused_vmm_from_snapshot V))
       (\<lambda>(ns, vmm, em). io_return \<lparr>vx_netns = ns, vx_vmm = Some vmm\<rparr>)"

text \<open>
  \<open>resume_vm\<close>: the monitor is taken out of the context and put back only after a success; in
  every other case it is dropped with the closure's locals.
\<close>

definition prepare_resume_vm ::
  "'w netns_host \<Rightarrow> ('w, 'dm) vm_api \<Rightarrow> netns_mode \<Rightarrow> worker_run_config \<Rightarrow> ('w netns_proc, 'dm vmm_context list) io"
  where
  "prepare_resume_vm H V mode worker =
     prepare_loop (drop_all_vmm H V) (wrc_iterations worker) (build_vmm_context H V mode) []"

definition resume_vm_work ::
  "'w netns_host \<Rightarrow> ('w, 'dm) vm_api \<Rightarrow> 'dm vmm_context \<Rightarrow> 'w netns_proc \<Rightarrow>
     unit res \<times> 'dm vmm_context option \<times> 'w netns_proc" where
  "resume_vm_work H V ctx p =
     (case enter H (vx_netns ctx) p of
        (Inl e, p1) \<Rightarrow> (Err e, Some ctx, p1)
      | (Inr _, p1) \<Rightarrow>
          (case vx_vmm ctx of
             None \<Rightarrow> (Err ''resume_vm context missing VMM'', Some ctx, p1)
           | Some vmm \<Rightarrow>
               (let taken = ctx\<lparr>vx_vmm := None\<rparr> in
                if v_lock_poisoned V (host_world p1) then
                  (Err ''VMM lock poisoned'', Some taken, drop_vmm_in V vmm p1)
                else case on_vmm (resume_vm (v_vmm_env V) vmm) p1 of (r, vmm', p2) \<Rightarrow>
                     case leave H (vx_netns ctx) p2 of (l, p3) \<Rightarrow>
                       (let res = merge_results (map_err (\<lambda>e. ''Vmm::resume_vm failed: '' @ show_vmm_error e) r) l
                        in if is_ok r \<and> is_ok l then (res, Some (taken\<lparr>vx_vmm := Some vmm'\<rparr>), p3)
                           else (res, Some taken, drop_vmm_in V vmm' p3)))))"

definition run_resume_vm ::
  "'w netns_host \<Rightarrow> ('w, 'dm) vm_api \<Rightarrow> 'dm vmm_context runner \<Rightarrow> 'w netns_proc \<Rightarrow>
     unit res \<times> 'dm vmm_context runner \<times> 'w netns_proc" where
  "run_resume_vm H V = run_next ''no prepared resume_vm context left'' (resume_vm_work H V)"

end
