(* ===== verification/Vm_Restore_Props.thy ===== *)
theory Vm_Restore_Props
  imports Vm_Restore_Netns
begin

text \<open>
  Properties of the restore operations: one prepared context per iteration, the namespace is
  left after a measured operation, and the vCPUs are restored one by one from the snapshot.
\<close>

section \<open>Prepared contexts\<close>

text \<open>The worker's loop: the state and world after \<open>k\<close> calls, whatever they return.\<close>

primrec run_times ::
  "('c runner \<Rightarrow> 'w \<Rightarrow> unit res \<times> 'c runner \<times> 'w) \<Rightarrow> nat \<Rightarrow> 'c runner \<Rightarrow> 'w \<Rightarrow> 'c runner \<times> 'w" where
  "run_times run 0 st w = (st, w)"
| "run_times run (Suc k) st w = (case run_times run k st w of (st', w') \<Rightarrow> snd (run st' w'))"

text \<open>
  The contract between the preparation and the closure: the preparation makes one context per
  iteration, the closure takes one context per call and fails with a fixed message when none
  is left.
\<close>

locale prepared_runner =
  fixes prepare :: "worker_run_config \<Rightarrow> ('w, 'c list) io"
    and run :: "'c runner \<Rightarrow> 'w \<Rightarrow> unit res \<times> 'c runner \<times> 'w"
    and exhausted :: string
  assumes prepare_length: "prepare worker w = (Ok cs, w') \<Longrightarrow> length cs = wrc_iterations worker"
    and run_empty: "run ([], finished) w = (Err exhausted, ([], finished), w)"
    and run_takes: "fst (fst (snd (run (c # cs, finished) w))) = cs"
begin

lemma runs_contexts: "fst (fst (run_times run k (cs, finished) w)) = drop k cs"
proof (induction k)
  case 0
  then show ?case by simp
next
  case (Suc k)
  obtain cs' fin' w' where st: "run_times run k (cs, finished) w = ((cs', fin'), w')"
    by (metis prod.collapse)
  with Suc have cs': "cs' = drop k cs" by simp
  show ?case
  proof (cases cs')
    case Nil
    with st cs' show ?thesis by (simp add: run_empty)
  next
    case (Cons c rest)
    have "fst (fst (snd (run (cs', fin') w'))) = rest" unfolding Cons by (rule run_takes)
    moreover have "drop (Suc k) cs = tl (drop k cs)" by (simp add: drop_Suc tl_drop)
    ultimately show ?thesis using st cs' Cons by (metis fst_conv list.sel(3) run_times.simps(2) case_prod_conv)
  qed
qed

text \<open>The \<open>k\<close>-th call works on the \<open>k\<close>-th context; the call after the last one fails.\<close>

lemma kth_context:
  assumes "prepare worker w0 = (Ok cs, w1)" "k < wrc_iterations worker"
  shows "fst (fst (run_times run k (cs, []) w)) = cs ! k # drop (Suc k) cs"
  using assms runs_contexts [of k cs "[]" w] by (simp add: prepare_length Cons_nth_drop_Suc)

lemma context_per_iteration:
  assumes "prepare worker w0 = (Ok cs, w1)"
  shows "fst (fst (run_times run k (cs, []) w)) = drop k cs" "length cs = wrc_iterations worker"
    and "k < wrc_iterations worker \<Longrightarrow> fst (fst (run_times run k (cs, []) w)) \<noteq> []"
    and "wrc_iterations worker \<le> k \<Longrightarrow>
      (case run_times run k (cs, []) w of (st, w') \<Rightarrow> run st w' = (Err exhausted, st, w'))"
proof -
  show len: "length cs = wrc_iterations worker" using assms by (rule prepare_length)
  show rest: "fst (fst (run_times run k (cs, []) w)) = drop k cs" by (rule runs_contexts)
  show "k < wrc_iterations worker \<Longrightarrow> fst (fst (run_times run k (cs, []) w)) \<noteq> []" using rest len by simp
  show "case run_times run k (cs, []) w of (st, w') \<Rightarrow> run st w' = (Err exhausted, st, w')"
    if "wrc_iterations worker \<le> k"
  proof -
    obtain cs' fin w' where st: "run_times run k (cs, []) w = ((cs', fin), w')"
      by (cases "run_times run k (cs, []) w") (auto elim: prod.exhaust)
    with rest len that have "cs' = []" by simp
    with st show ?thesis by (simp add: run_empty)
  qed
qed

end

lemma prepare_loop_length:
  "prepare_loop d n mk acc w = (Ok cs, w') \<Longrightarrow> length cs = length acc + n"
  by (induction n arbitrary: acc w) (auto split: prod.splits sum.splits)

lemma run_next_empty: "run_next msg work ([], finished) w = (Err msg, ([], finished), w)"
  by (simp add: run_next_def)

lemma run_next_takes: "fst (fst (snd (run_next msg work (c # cs, finished) w))) = cs"
  by (simp add: run_next_def split: prod.split)

lemmas runner_laws = prepare_loop_length run_next_empty run_next_takes

interpretation vm_new_op:
  prepared_runner "prepare_vm_new H V" "run_vm_new V" "''no prepared KVM context left''" for H V
  by unfold_locales
    (auto simp: prepare_vm_new_def run_vm_new_def io_bind_Inr_iff runner_laws dest: prepare_loop_length)

interpretation memory_regions_op:
  prepared_runner "prepare_restore_memory_regions H V" "run_restore_memory_regions V"
    "''no prepared restore_memory_regions context left''" for H V
  by unfold_locales
    (auto simp: prepare_restore_memory_regions_def run_restore_memory_regions_def io_bind_Inr_iff
      runner_laws dest: prepare_loop_length)

interpretation vcpu_states_op:
  prepared_runner "prepare_restore_vcpu_states H V" "run_restore_vcpu_states V"
    "''no prepared restore_vcpu_states context left''" for H V
  by unfold_locales
    (auto simp: prepare_restore_vcpu_states_def run_restore_vcpu_states_def runner_laws
      dest: prepare_loop_length)

interpretation restore_state_op:
  prepared_runner "prepare_restore_state H V" "run_restore_state V"
    "''no prepared restore_state context left''" for H V
  by unfold_locales
    (auto simp: prepare_restore_state_def run_restore_state_def runner_laws dest: prepare_loop_length)

interpretation device_kind_op:
  prepared_runner "prepare_kind H V" "run_kind V kind" "''no prepared device_restore context left''"
  for H V kind
  by unfold_locales (auto simp: prepare_kind_def run_kind_def runner_laws dest: prepare_loop_length)

interpretation netns_kind_op:
  prepared_runner "prepare_netns_kind H V mode" "run_netns_kind H V kind"
    "''no prepared netns device_restore context left''" for H V mode kind
  by unfold_locales
    (auto simp: prepare_netns_kind_def run_netns_kind_def runner_laws dest: prepare_loop_length)

interpretation kick_virtio_op:
  prepared_runner "prepare_kick_virtio H V mode" "run_kick_virtio H V"
    "''no prepared kick_virtio context left''" for H V mode
  by unfold_locales
    (auto simp: prepare_kick_virtio_def run_kick_virtio_def runner_laws dest: prepare_loop_length)

interpretation resume_vcpus_op:
  prepared_runner "prepare_resume_vcpus H V mode" "run_resume_vcpus H V"
    "''no prepared resume_vcpus context left''" for H V mode
  by unfold_locales
    (auto simp: prepare_resume_vcpus_def run_resume_vcpus_def runner_laws dest: prepare_loop_length)

interpretation resume_vm_op:
  prepared_runner "prepare_resume_vm H V mode" "run_resume_vm H V"
    "''no prepared resume_vm context left''" for H V mode
  by unfold_locales
    (auto simp: prepare_resume_vm_def run_resume_vm_def runner_laws dest: prepare_loop_length)

interpretation create_vcpus_op:
  prepared_runner
    "\<lambda>worker. io_bind (prepare_create_vcpus H V worker) (\<lambda>x. io_return (snd x))" "run_create_vcpus V n"
    "''no prepared VM context left''" for H V n
  by unfold_locales
    (auto simp: prepare_create_vcpus_def run_create_vcpus_def io_bind_Inr_iff runner_laws
      dest: prepare_loop_length)

lemma context_per_measured_call_facts:
  "prepare_vm_new H V worker q = (Ok cs, q') \<Longrightarrow> k < wrc_iterations worker \<Longrightarrow>
     fst (fst (run_times (run_vm_new V) k (cs, []) p)) = cs ! k # drop (Suc k) cs"
  "prepare_restore_memory_regions H V worker q = (Ok ms, q') \<Longrightarrow> k < wrc_iterations worker \<Longrightarrow>
     fst (fst (run_times (run_restore_memory_regions V) k (ms, []) p)) = ms ! k # drop (Suc k) ms"
  "prepare_restore_vcpu_states H V worker q = (Ok vs, q') \<Longrightarrow> k < wrc_iterations worker \<Longrightarrow>
     fst (fst (run_times (run_restore_vcpu_states V) k (vs, []) p)) = vs ! k # drop (Suc k) vs"
  "prepare_restore_state H V worker q = (Ok rs, q') \<Longrightarrow> k < wrc_iterations worker \<Longrightarrow>
     fst (fst (run_times (run_restore_state V) k (rs, []) p)) = rs ! k # drop (Suc k) rs"
  "prepare_kind H V worker q = (Ok ds, q') \<Longrightarrow> k < wrc_iterations worker \<Longrightarrow>
     fst (fst (run_times (run_kind V kind) k (ds, []) p)) = ds ! k # drop (Suc k) ds"
  "prepare_netns_kind H V mode worker q = (Ok ns, q') \<Longrightarrow> k < wrc_iterations worker \<Longrightarrow>
     fst (fst (run_times (run_netns_kind H V kind) k (ns, []) p)) = ns ! k # drop (Suc k) ns"
  "prepare_kick_virtio H V mode worker q = (Ok ks, q') \<Longrightarrow> k < wrc_iterations worker \<Longrightarrow>
     fst (fst (run_times (run_kick_virtio H V) k (ks, []) p)) = ks ! k # drop (Suc k) ks"
  "prepare_resume_vcpus H V mode worker q = (Ok ks, q') \<Longrightarrow> k < wrc_iterations worker \<Longrightarrow>
     fst (fst (run_times (run_resume_vcpus H V) k (ks, []) p)) = ks ! k # drop (Suc k) ks"
  "prepare_resume_vm H V mode worker q = (Ok xs, q') \<Longrightarrow> k < wrc_iterations worker \<Longrightarrow>
     fst (fst (run_times (run_resume_vm H V) k (xs, []) p)) = xs ! k # drop (Suc k) xs"
  "prepare_resume_vm H V mode worker q = (Ok xs, q') \<Longrightarrow> wrc_iterations worker \<le> k \<Longrightarrow>
     (case run_times (run_resume_vm H V) k (xs, []) p of
        (st, p') \<Rightarrow> run_resume_vm H V st p' = (Err ''no prepared resume_vm context left'', st, p'))"
  by (fact vm_new_op.kth_context memory_regions_op.kth_context vcpu_states_op.kth_context
      restore_state_op.kth_context device_kind_op.kth_context netns_kind_op.kth_context
      kick_virtio_op.kth_context resume_vcpus_op.kth_context resume_vm_op.kth_context
      resume_vm_op.context_per_iteration(4))+

text \<open>
  one prepared context per measured operation. When the preparation of a worker succeeds,
  its \<open>k\<close>-th measured call, for every \<open>k\<close> below the number of iterations of the worker, works
  on the \<open>k\<close>-th prepared context, whatever the calls before it returned; no context is used
  twice, and only a call beyond the number of iterations reports that none is left.
\<close>

theorem context_per_measured_call:
  "(prepare_vm_new H V worker q = (Ok cs, q') \<and> k < wrc_iterations worker \<longrightarrow>
     fst (fst (run_times (run_vm_new V) k (cs, []) p)) = cs ! k # drop (Suc k) cs) \<and>
   (prepare_restore_memory_regions H V worker q = (Ok ms, q') \<and> k < wrc_iterations worker \<longrightarrow>
     fst (fst (run_times (run_restore_memory_regions V) k (ms, []) p)) = ms ! k # drop (Suc k) ms) \<and>
   (prepare_restore_vcpu_states H V worker q = (Ok vs, q') \<and> k < wrc_iterations worker \<longrightarrow>
     fst (fst (run_times (run_restore_vcpu_states V) k (vs, []) p)) = vs ! k # drop (Suc k) vs) \<and>
   (prepare_restore_state H V worker q = (Ok rs, q') \<and> k < wrc_iterations worker \<longrightarrow>
     fst (fst (run_times (run_restore_state V) k (rs, []) p)) = rs ! k # drop (Suc k) rs) \<and>
   (prepare_kind H V worker q = (Ok ds, q') \<and> k < wrc_iterations worker \<longrightarrow>
     fst (fst (run_times (run_kind V kind) k (ds, []) p)) = ds ! k # drop (Suc k) ds) \<and>
   (prepare_netns_kind H V mode worker q = (Ok ns, q') \<and> k < wrc_iterations worker \<longrightarrow>
     fst (fst (run_times (run_netns_kind H V kind) k (ns, []) p)) = ns ! k # drop (Suc k) ns) \<and>
   (prepare_kick_virtio H V mode worker q = (Ok ks, q') \<and> k < wrc_iterations worker \<longrightarrow>
     fst (fst (run_times (run_kick_virtio H V) k (ks, []) p)) = ks ! k # drop (Suc k) ks) \<and>
   (prepare_resume_vcpus H V mode worker q = (Ok ks, q') \<and> k < wrc_iterations worker \<longrightarrow>
     fst (fst (run_times (run_resume_vcpus H V) k (ks, []) p)) = ks ! k # drop (Suc k) ks) \<and>
   (prepare_resume_vm H V mode worker q = (Ok xs, q') \<and> k < wrc_iterations worker \<longrightarrow>
     fst (fst (run_times (run_resume_vm H V) k (xs, []) p)) = xs ! k # drop (Suc k) xs) \<and>
   (prepare_resume_vm H V mode worker q = (Ok xs, q') \<and> wrc_iterations worker \<le> k \<longrightarrow>
     (case run_times (run_resume_vm H V) k (xs, []) p of
        (st, p') \<Rightarrow> run_resume_vm H V st p' = (Err ''no prepared resume_vm context left'', st, p')))"
  by (intro conjI impI; elim conjE; rule context_per_measured_call_facts; assumption)

section \<open>Namespaces\<close>

text \<open>
  \<open>cur\<close> reads the network namespace of the thread from the world: a successful \<open>setns\<close> moves
  the thread to the namespace of its descriptor.
\<close>

definition tracks_netns :: "'w netns_host \<Rightarrow> ('w \<Rightarrow> nat) \<Rightarrow> bool" where
  "tracks_netns H cur = (\<forall>fd w w'. h_setns H fd w = (Ok (), w') \<longrightarrow> cur w' = fd)"

lemma leave_ok_netns:
  "tracks_netns H cur \<Longrightarrow> leave H ns p = (Ok (), p') \<Longrightarrow> cur (host_world p') = root_ns ns"
  by (auto simp: tracks_netns_def leave_def on_host_def split: prod.splits)

lemma enter_ok_netns:
  "tracks_netns H cur \<Longrightarrow> enter H ns p = (Ok (), p') \<Longrightarrow> cur (host_world p') = target_ns ns"
  by (auto simp: tracks_netns_def enter_def on_host_def split: prod.splits)

lemma measured_ops_leave_netns_facts:
  assumes "tracks_netns H cur"
  shows "netns_kind_work H V kind dctx p = (Ok (), kept, p') \<Longrightarrow>
      cur (host_world p') = root_ns (nd_netns dctx)"
    and "kick_virtio_work H V kctx p = (Ok (), kept', p') \<Longrightarrow> cur (host_world p') = root_ns (kx_netns kctx)"
    and "resume_vcpus_work H V kctx p = (Ok (), kept', p') \<Longrightarrow> cur (host_world p') = root_ns (kx_netns kctx)"
    and "resume_vm_work H V xctx p = (Ok (), kept'', p') \<Longrightarrow> cur (host_world p') = root_ns (vx_netns xctx)"
    and "enter H (kx_netns kctx) p = (Ok (), p1) \<Longrightarrow> v_lock_poisoned V (host_world p1) \<Longrightarrow>
      resume_vcpus_work H V kctx p = (Err ''VMM lock poisoned'', Some kctx, p1) \<and>
      kick_virtio_work H V kctx p = (Err ''VMM lock poisoned'', Some kctx, p1) \<and>
      cur (host_world p1) = target_ns (kx_netns kctx)"
proof -
  note leave_ok = leave_ok_netns [OF assms]
  show "netns_kind_work H V kind dctx p = (Ok (), kept, p') \<Longrightarrow>
      cur (host_world p') = root_ns (nd_netns dctx)"
    by (auto simp: netns_kind_work_def intro: leave_ok split: prod.splits sum.splits)
  show "kick_virtio_work H V kctx p = (Ok (), kept', p') \<Longrightarrow> cur (host_world p') = root_ns (kx_netns kctx)"
    by (auto simp: kick_virtio_work_def intro: leave_ok split: prod.splits sum.splits if_splits)
  show "resume_vcpus_work H V kctx p = (Ok (), kept', p') \<Longrightarrow> cur (host_world p') = root_ns (kx_netns kctx)"
    by (auto simp: resume_vcpus_work_def intro: leave_ok split: prod.splits sum.splits if_splits)
  show "resume_vm_work H V xctx p = (Ok (), kept'', p') \<Longrightarrow> cur (host_world p') = root_ns (vx_netns xctx)"
    by (auto simp: resume_vm_work_def Let_def is_ok_iff intro: leave_ok
        split: prod.splits sum.splits if_splits option.splits)
  show "enter H (kx_netns kctx) p = (Ok (), p1) \<Longrightarrow> v_lock_poisoned V (host_world p1) \<Longrightarrow>
      resume_vcpus_work H V kctx p = (Err ''VMM lock poisoned'', Some kctx, p1) \<and>
      kick_virtio_work H V kctx p = (Err ''VMM lock poisoned'', Some kctx, p1) \<and>
      cur (host_world p1) = target_ns (kx_netns kctx)"
    using enter_ok_netns [OF assms] by (simp add: resume_vcpus_work_def kick_virtio_work_def)
qed

text \<open>
  C40: a measured operation that succeeds has left its namespace. After device restore, kick,
  resume of the vCPUs and resume of the machine have returned \<open>Ok\<close>, the thread is back in the
  namespace it started from, so the next iteration starts in the same place. When the lock of
  the monitor is poisoned, kick and resume of the vCPUs return their error without leaving:
  the thread stays in the namespace of the context.
\<close>

theorem measured_ops_leave_netns:
  assumes "tracks_netns H cur"
  shows "(netns_kind_work H V kind dctx p = (Ok (), kept, p') \<longrightarrow>
      cur (host_world p') = root_ns (nd_netns dctx)) \<and>
    (kick_virtio_work H V kctx p = (Ok (), kept', p') \<longrightarrow> cur (host_world p') = root_ns (kx_netns kctx)) \<and>
    (resume_vcpus_work H V kctx p = (Ok (), kept', p') \<longrightarrow> cur (host_world p') = root_ns (kx_netns kctx)) \<and>
    (resume_vm_work H V xctx p = (Ok (), kept'', p') \<longrightarrow> cur (host_world p') = root_ns (vx_netns xctx)) \<and>
    (enter H (kx_netns kctx) p = (Ok (), p1) \<and> v_lock_poisoned V (host_world p1) \<longrightarrow>
      resume_vcpus_work H V kctx p = (Err ''VMM lock poisoned'', Some kctx, p1) \<and>
      kick_virtio_work H V kctx p = (Err ''VMM lock poisoned'', Some kctx, p1) \<and>
      cur (host_world p1) = target_ns (kx_netns kctx))"
  by (intro conjI; rule impI; (elim conjE)?; rule measured_ops_leave_netns_facts [OF assms]; assumption)

text \<open>A preparation that fails drops the namespaces it had set up.\<close>

lemma prepare_loop_failure:
  "prepare_loop d n mk acc w = (Err e, w') \<Longrightarrow>
     \<exists>built u. w' = d (acc @ built) u \<and> length built < n"
proof (induction n arbitrary: acc w)
  case (Suc n)
  show ?case
  proof (cases "mk w")
    case (Pair r w1)
    show ?thesis
    proof (cases r)
      case (Inl err)
      with Pair Suc.prems have "w' = d (acc @ []) w1" by auto
      then show ?thesis by (intro exI [of _ "[]"]) auto
    next
      case (Inr c)
      with Pair Suc.prems have "prepare_loop d n mk (acc @ [c]) w1 = (Err e, w')" by simp
      from Suc.IH [OF this] show ?thesis by (metis append.assoc append_Cons append_Nil length_Cons Suc_mono)
    qed
  qed
qed simp

lemma build_in_netns_failure:
  assumes "build_in_netns H V mode mk p = (Err e, p')"
  shows "prepare_netns H mode p = (Err e, p') \<or>
    (\<exists>ns p1 q. prepare_netns H mode p = (Ok ns, p1) \<and> p' = drop_context H ns q)"
  using assms by (auto simp: build_in_netns_def Let_def split: prod.splits sum.splits)

section \<open>Snapshot data\<close>

lemma vcpu_count_exact_facts:
  "vcpu_count st = Ok n \<longleftrightarrow> length (ms_vcpu_states st) \<le> 255 \<and> unat n = length (ms_vcpu_states st)"
  "is_ok (vm_resources_from_state V st) \<longleftrightarrow> length (ms_vcpu_states st) \<le> 255"
proof -
  have small: "unat (of_nat m :: u8) = m" if "m \<le> 255" for m
    using that by (simp add: unsigned_of_nat take_bit_nat_eq_self)
  show "vcpu_count st = Ok n \<longleftrightarrow> length (ms_vcpu_states st) \<le> 255 \<and> unat n = length (ms_vcpu_states st)"
    using small [of "length (ms_vcpu_states st)"]
    by (auto simp: vcpu_count_def Let_def word_unat_eq_iff)
  show "is_ok (vm_resources_from_state V st) \<longleftrightarrow> length (ms_vcpu_states st) \<le> 255"
    by (simp add: vm_resources_from_state_def vcpu_count_def Let_def)
qed

text \<open>
  the vCPU count of a snapshot is exact or refused: it is read as an 8-bit number exactly
  when the snapshot holds at most 255 vCPU states, and then it is their number; the resources
  for the machine are refused under the same condition.
\<close>

theorem vcpu_count_exact:
  "(vcpu_count st = Ok n \<longleftrightarrow> length (ms_vcpu_states st) \<le> 255 \<and> unat n = length (ms_vcpu_states st)) \<and>
   (is_ok (vm_resources_from_state V st) \<longleftrightarrow> length (ms_vcpu_states st) \<le> 255)"
  by (intro conjI vcpu_count_exact_facts)

section \<open>A concrete host\<close>

text \<open>The world is the namespace of the thread; every call succeeds.\<close>

definition plain_host :: "nat netns_host" where
  "plain_host =
     \<lparr> h_root = True, h_status = (\<lambda>_ w. (Ok (Some 0), w)), h_output = (\<lambda>_ w. (Ok (Some 0, []), w)),
       h_utf8_error = (\<lambda>_. []), h_open = (\<lambda>_ w. (Ok 5, w)), h_setns = (\<lambda>fd w. (Ok (), fd)),
       h_unix_nanos = (\<lambda>w. (0, w)) \<rparr>"

definition plain_state :: microvm_state where
  "plain_state =
     \<lparr> ms_vm_info = \<lparr>vi_mem_size_mib = 128, vi_smt = False, vi_cpu_template = [], vi_huge_pages = [],
                     vi_boot_source = []\<rparr>,
       ms_kvm_cap_modifiers = [], ms_memory = [], ms_vm_state = [],
       ms_vcpu_states = [\<lparr>tsc_khz = None, mpidr = 0, vcpu_data = []\<rparr>],
       ms_device_states = ([], \<lparr>ds_block_devices = [], ds_net_devices = [], ds_vsock_device = None,
          ds_balloon_device = None, ds_mmds = None, ds_entropy_device = None, ds_pmem_devices = [],
          ds_memory_device = None\<rparr>) \<rparr>"

definition plain_vmm :: "unit vmm" where
  "plain_vmm =
     \<lparr> instance_info_of = \<lparr>ii_id = [], ii_state = Paused, ii_vmm_version = [], ii_app_name = []\<rparr>,
       machine_config = [], boot_source_config = [], shutdown_exit_code = None,
       vcpus_handles = [], vcpus_exit_evt = 0, device_manager = () \<rparr>"

definition plain_api :: "(nat, unit) vm_api" where
  "plain_api =
     \<lparr> v_load = (\<lambda>_ w. (Ok plain_state, w)), v_sanity_check = (\<lambda>_. Ok ()),
       v_snapshot_file = (\<lambda>_ _ _ w. (Ok 0, w)), v_kvm_new = (\<lambda>_ w. (Ok 1, w)),
       v_vm_new = (\<lambda>_ w. (Ok 2, w)), v_create_vcpus = (\<lambda>_ _ w. (Ok ([3], 4), w)),
       v_restore_memory_regions = (\<lambda>_ _ _ w. (Ok (), w)),
       v_tsc_scaling_required = (\<lambda>_ _ w. (Ok False, w)), v_set_tsc_khz = (\<lambda>_ _ w. (Ok (), w)),
       v_vcpu_restore_state = (\<lambda>_ _ w. (Ok (), w)), v_vm_restore_state = (\<lambda>_ _ _ w. (Ok (), w)),
       v_event_manager_new = (\<lambda>w. (Ok 6, w)),
       v_default_resources = \<lparr>mc_vcpu_count = 0, mc_mem_size_mib = 0, mc_smt = False, mc_cpu_template = None,
          mc_huge_pages = [], mc_boot_source = [], mc_rest = []\<rparr>,
       v_default_info = NotStarted, v_build_microvm = (\<lambda>_ _ _ _ _ w. (Ok plain_vmm, w)),
       v_lock_poisoned = (\<lambda>_. False), v_restore_devices = (\<lambda>_ _ _ _ _ _ w. (Ok (), w)),
       v_restore_mmio = (\<lambda>_ _ _ _ _ w. (Ok (), w)),
       v_default_devices = snd (ms_device_states plain_state),
       v_vmm_env = \<lparr> e_send = (\<lambda>_ _ w. (Inr [], w)), e_raw_mode = (\<lambda>w. (Ok (), w)),
          e_non_block = (\<lambda>w. (Ok (), w)), e_start = (\<lambda>t w. (Ok t, w)), e_canon_mode = id,
          e_kick = (\<lambda>d w. (d, w)), e_ctrl_alt_del = (\<lambda>d. (Ok (), d)), e_save_devices = (\<lambda>d w. ([], d, w)),
          e_kvm_save = (\<lambda>_. []), e_vm_save = (\<lambda>_. Ok []) \<rparr> \<rparr>"

definition plain_proc :: "nat netns_proc" where
  "plain_proc = \<lparr>run_token_cell = Some ''a'', next_seq_shell = 0, next_seq_vm = 0, host_world = 1\<rparr>"

theorem context_per_measured_call_witness:
  "fst (fst (run_times (run_vm_new plain_api) 1 ([1, 1], []) plain_proc)) = [1]"
proof -
  have "prepare_vm_new plain_host plain_api \<lparr>wrc_thread_id = 0, wrc_iterations = 2\<rparr> plain_proc
      = (Ok [1, 1], plain_proc)"
    by (simp add: prepare_vm_new_def load_microvm_state_def snapshot_state_from_file_def open_file_def
        on_host_def plain_host_def plain_api_def io_bind_def build_kvm_def call_def io_map_err_def
        numeral_2_eq_2)
  with conjunct1 [OF context_per_measured_call [of plain_host plain_api
      "\<lparr>wrc_thread_id = 0, wrc_iterations = 2\<rparr>" plain_proc "[1, 1]" plain_proc 1 plain_proc]]
  show ?thesis by simp
qed

definition plain_ctx :: "unit kick_context" where
  "plain_ctx =
     \<lparr> kx_netns = \<lparr>vn_instance = instance_with ''a'' 0, root_ns = 1, target_ns = 9, vn_cleanup = Minimal\<rparr>,
       kx_vmm = plain_vmm \<rparr>"

theorem measured_ops_leave_netns_witness:
  "\<exists>kept p'. kick_virtio_work plain_host plain_api plain_ctx plain_proc = (Ok (), kept, p') \<and>
     host_world p' = 1"
proof -
  have "tracks_netns plain_host id" by (simp add: tracks_netns_def plain_host_def)
  moreover obtain kept p' where
    "kick_virtio_work plain_host plain_api plain_ctx plain_proc = (Ok (), kept, p')"
    by (simp add: kick_virtio_work_def enter_def leave_def on_host_def kick_in_def plain_host_def
        plain_api_def io_map_err_def kick_virtio_devices_for_resume_def)
  ultimately show ?thesis
    using measured_ops_leave_netns [where H = plain_host and V = plain_api and cur = id
        and kctx = plain_ctx and p = plain_proc and kept' = kept and p' = p']
    by (auto simp: plain_ctx_def)
qed

end
