(* ===== verification/Vm_Restore_Aarch64.thy ===== *)
theory Vm_Restore_Aarch64
  imports Vm_Restore_Props
begin

text \<open>
  The parts of src/restore-motivation/src/ops/vm_restore that are compiled for aarch64 only:
  restore_common.rs has no clock to scale there and computes the affinity values of the vCPUs, which
  \<open>Vm::restore_state\<close> takes as an argument of its own. That function of the monitor is the argument
  \<open>restore\<close> of the definitions.
\<close>

type_synonym 'w restore_fn = "nat \<Rightarrow> u64 list \<Rightarrow> string \<Rightarrow> 'w \<Rightarrow> (string + unit) \<times> 'w"

definition restore_vcpu_states_aarch64 ::
  "('w, 'dm) vm_api \<Rightarrow> nat list \<Rightarrow> microvm_state \<Rightarrow> ('w netns_proc, unit) io" where
  "restore_vcpu_states_aarch64 V vcpus st =
     io_for_each (\<lambda>(vcpu, s). call (v_vcpu_restore_state V vcpu s) ''KvmVcpu::restore_state failed: '')
       (zip vcpus (ms_vcpu_states st))"

text \<open>The benchmark's own copy of \<open>construct_kvm_mpidrs\<close>.\<close>

definition bench_kvm_mpidrs :: "vcpu_state list \<Rightarrow> u64 list" where
  "bench_kvm_mpidrs states =
     map (\<lambda>state. let cpu_affid = drop_bit 8 (and (mpidr state) 0xFF00000000) in
                  push_bit 32 (or cpu_affid (and (mpidr state) 0xFFFFFF))) states"

definition build_device_restore_context_aarch64 ::
  "('w, 'dm) vm_api \<Rightarrow> 'w restore_fn \<Rightarrow> microvm_state \<Rightarrow> nat \<Rightarrow> ('w netns_proc, device_restore_context) io"
  where
  "build_device_restore_context_aarch64 V restore st mem =
     io_bind (build_kvm V (ms_kvm_cap_modifiers st)) (\<lambda>kvm.
     io_bind (vm_new V kvm) (\<lambda>vm.
     io_bind (io_lift (vcpu_count st)) (\<lambda>n.
     io_bind (call (v_create_vcpus V vm n) ''Vm::create_vcpus failed: '') (\<lambda>(vcpus, evt).
     io_bind (call (v_restore_memory_regions V vm mem (ms_memory st)) ''Vm::restore_memory_regions failed: '')
       (\<lambda>_.
     io_bind (io_map_err (\<lambda>e. ''restore_vcpu_states failed: '' @ e)
                (restore_vcpu_states_aarch64 V vcpus st)) (\<lambda>_.
     io_bind (call (restore vm (bench_kvm_mpidrs (ms_vcpu_states st)) (ms_vm_state st))
                ''Vm::restore_state failed: '') (\<lambda>_.
     io_bind (io_lift (vm_resources_from_state V st)) (\<lambda>res.
     io_bind (event_manager V) (\<lambda>em.
     io_return \<lparr>dr_vm = vm, dr_vcpus_exit_evt = evt, dr_microvm_state = st, dr_vm_resources = res,
                dr_event_manager = em\<rparr>)))))))))"

record mpidr_state_context = restore_state_context +
  rs_mpidrs :: "u64 list"

definition prepare_restore_state_aarch64 ::
  "'w netns_host \<Rightarrow> ('w, 'dm) vm_api \<Rightarrow> worker_run_config \<Rightarrow> ('w netns_proc, mpidr_state_context list) io"
  where
  "prepare_restore_state_aarch64 H V worker =
     prepare_loop keep_nothing (wrc_iterations worker)
       (io_bind (load_microvm_state H V) (\<lambda>st.
        io_bind (vm_with_memory H V ''restore_state'' st) (\<lambda>(vm, vcpus).
        io_bind (io_map_err (\<lambda>e. ''restore_vcpu_states failed during restore_state prepare: '' @ e)
                   (restore_vcpu_states_aarch64 V vcpus st)) (\<lambda>_.
        io_return \<lparr>rs_vm = vm, rs_vm_state = ms_vm_state st,
                   rs_mpidrs = bench_kvm_mpidrs (ms_vcpu_states st)\<rparr>)))) []"

definition restore_vm_state_aarch64 ::
  "'w restore_fn \<Rightarrow> mpidr_state_context \<Rightarrow> ('w netns_proc, unit) io" where
  "restore_vm_state_aarch64 restore ctx =
     call (restore (rs_vm ctx) (rs_mpidrs ctx) (rs_vm_state ctx)) ''Vm::restore_state failed: ''"

definition run_restore_state_aarch64 ::
  "'w restore_fn \<Rightarrow> mpidr_state_context runner \<Rightarrow> 'w netns_proc \<Rightarrow>
     unit res \<times> mpidr_state_context runner \<times> 'w netns_proc" where
  "run_restore_state_aarch64 restore =
     run_next ''no prepared restore_state context left''
       (\<lambda>ctx p. case restore_vm_state_aarch64 restore ctx p of (r, p') \<Rightarrow> (r, Some ctx, p'))"

interpretation restore_state_aarch64_op:
  prepared_runner "prepare_restore_state_aarch64 H V" "run_restore_state_aarch64 restore"
    "''no prepared restore_state context left''" for H V restore
  by unfold_locales
    (auto simp: prepare_restore_state_aarch64_def run_restore_state_aarch64_def runner_laws
      dest: prepare_loop_length)

section \<open>The two architectures\<close>

lemma bench_kvm_mpidrs_eq: "bench_kvm_mpidrs states = construct_kvm_mpidrs states"
  by (simp add: bench_kvm_mpidrs_def construct_kvm_mpidrs_def kvm_mpidr_def Let_def)

lemma scale_tsc_none:
  "(\<forall>s \<in> set (ms_vcpu_states st). tsc_khz s = None) \<Longrightarrow> scale_tsc V vcpus st = io_return ()"
  by (simp add: scale_tsc_def split: list.split)

lemma restore_vcpu_states_arch:
  assumes "\<forall>s \<in> set (ms_vcpu_states st). tsc_khz s = None"
  shows "restore_vcpu_states V vcpus st = restore_vcpu_states_aarch64 V vcpus st"
  by (rule ext)
     (simp add: restore_vcpu_states_def restore_vcpu_states_aarch64_def scale_tsc_none [OF assms]
       io_bind_def io_return_def)

text \<open>
  the two architectures restore a machine in the same way. For a snapshot without clock
  frequencies, as aarch64 has them, the aarch64 context is built by the x86_64 steps, with the VM
  state restored together with the affinity values that the monitor itself computes from the snapshot.
\<close>

theorem restore_context_arch_independent:
  assumes "\<forall>s \<in> set (ms_vcpu_states st). tsc_khz s = None"
  shows "build_device_restore_context_aarch64 V restore st mem =
    build_device_restore_context
      (V\<lparr>v_vm_restore_state := (\<lambda>vm state _. restore vm (construct_kvm_mpidrs (ms_vcpu_states st)) state)\<rparr>)
      st mem"
proof -
  let ?V = "V\<lparr>v_vm_restore_state := (\<lambda>vm state _. restore vm (construct_kvm_mpidrs (ms_vcpu_states st)) state)\<rparr>"
  have "restore_vcpu_states ?V vcpus st = restore_vcpu_states_aarch64 V vcpus st" for vcpus
    using restore_vcpu_states_arch [OF assms, of ?V vcpus] by (simp add: restore_vcpu_states_aarch64_def)
  then show ?thesis
    by (simp add: build_device_restore_context_aarch64_def build_device_restore_context_def
        bench_kvm_mpidrs_eq build_kvm_def vm_new_def vm_resources_from_state_def event_manager_def)
qed

theorem restore_context_arch_independent_witness:
  "build_device_restore_context_aarch64 plain_api (\<lambda>vm mpidrs state w. (Ok (), w)) plain_state 5 =
    build_device_restore_context
      (plain_api\<lparr>v_vm_restore_state := (\<lambda>vm state _ w. (Ok (), w))\<rparr>) plain_state 5"
proof -
  have "\<forall>s \<in> set (ms_vcpu_states plain_state). tsc_khz s = None" by (simp add: plain_state_def)
  from restore_context_arch_independent [OF this, of plain_api "\<lambda>vm mpidrs state w. (Ok (), w)" 5]
  show ?thesis by simp
qed

end
