(* ===== verification/Create_Firecracker.thy ===== *)
theory Create_Firecracker
  imports Netns_Props Vm_Restore_Props
begin

text \<open>
  The operation \<open>create_firecracker\<close>, src/restore-motivation/src/ops/create_firecracker.rs: it
  starts a Firecracker process, waits until its API socket accepts a connection, and cleans
  up. Processes, files, sockets and sleeping belong to the host and are fields of a record.
\<close>

section \<open>Host\<close>

datatype io_kind =
    NotFound | ConnectionRefused | ConnectionAborted | TimedOut | WouldBlock | Interrupted | OtherKind

type_synonym os_error = "io_kind \<times> string"

record 'w proc_host =
  p_remove_file :: "string \<Rightarrow> 'w \<Rightarrow> (os_error + unit) \<times> 'w"
  p_spawn :: "string list \<Rightarrow> 'w \<Rightarrow> (string + nat) \<times> 'w"
  p_try_wait :: "nat \<Rightarrow> 'w \<Rightarrow> (string + string option) \<times> 'w"
  p_exists :: "string \<Rightarrow> 'w \<Rightarrow> bool \<times> 'w"
  p_connect :: "string \<Rightarrow> 'w \<Rightarrow> (os_error + unit) \<times> 'w"
  p_sleep :: "nat \<Rightarrow> 'w \<Rightarrow> 'w"
  p_kill :: "nat \<Rightarrow> 'w \<Rightarrow> (string + unit) \<times> 'w"
  p_wait :: "nat \<Rightarrow> 'w \<Rightarrow> (string + string) \<times> 'w"

section \<open>Steps\<close>

definition build_socket_path :: "nat \<Rightarrow> nat \<Rightarrow> string" where
  "build_socket_path tid iter = ''/tmp/firecracker-api/'' @ show_nat tid @ ''-'' @ show_nat iter @ ''.sock''"

definition remove_socket_if_exists :: "'w proc_host \<Rightarrow> string \<Rightarrow> ('w, unit) io" where
  "remove_socket_if_exists P path w =
     (case p_remove_file P path w of
        (Inr _, w') \<Rightarrow> (Ok (), w')
      | (Inl (kind, err), w') \<Rightarrow>
          (if kind = NotFound then (Ok (), w')
           else (Err (''failed to remove stale socket '' @ path @ '': '' @ err), w')))"

definition spawn_firecracker :: "'w proc_host \<Rightarrow> string \<Rightarrow> ('w, nat) io" where
  "spawn_firecracker P path =
     io_map_err (\<lambda>e. ''failed to spawn ./firecracker --api-sock '' @ path @ '': '' @ e)
       (p_spawn P [''./firecracker'', ''--api-sock'', path])"

definition is_retryable_socket_error :: "io_kind \<Rightarrow> bool" where
  "is_retryable_socket_error kind =
     (kind \<in> {NotFound, ConnectionRefused, ConnectionAborted, TimedOut, WouldBlock, Interrupted})"

definition ATTEMPTS :: nat where "ATTEMPTS = 100"
definition SLEEP_MS :: nat where "SLEEP_MS = 10"

text \<open>One attempt: a decision, or another attempt after sleeping.\<close>

datatype attempt = Decided "unit res" | Again

definition try_api_socket :: "'w proc_host \<Rightarrow> string \<Rightarrow> nat \<Rightarrow> 'w \<Rightarrow> attempt \<times> 'w" where
  "try_api_socket P path child w =
     (case p_try_wait P child w of
        (Inl e, w1) \<Rightarrow> (Decided (Err (''failed to poll firecracker process: '' @ e)), w1)
      | (Inr (Some status), w1) \<Rightarrow>
          (Decided (Err (''firecracker exited before api socket became ready: '' @ status)), w1)
      | (Inr None, w1) \<Rightarrow>
          (case p_exists P path w1 of
             (False, w2) \<Rightarrow> (Again, p_sleep P SLEEP_MS w2)
           | (True, w2) \<Rightarrow>
               (case p_connect P path w2 of
                  (Inr _, w3) \<Rightarrow> (Decided (Ok ()), w3)
                | (Inl (kind, err), w3) \<Rightarrow>
                    (if is_retryable_socket_error kind then (Again, p_sleep P SLEEP_MS w3)
                     else
                       (Decided (Err (''api socket '' @ path @ '' exists but cannot be connected: '' @ err)), w3)))))"

fun wait_loop :: "'w proc_host \<Rightarrow> string \<Rightarrow> nat \<Rightarrow> nat \<Rightarrow> ('w, unit) io" where
  "wait_loop P path child 0 w = (Err (''timed out waiting for firecracker api socket '' @ path), w)"
| "wait_loop P path child (Suc n) w =
     (case try_api_socket P path child w of
        (Decided r, w') \<Rightarrow> (r, w')
      | (Again, w') \<Rightarrow> wait_loop P path child n w')"

definition wait_for_api_socket :: "'w proc_host \<Rightarrow> string \<Rightarrow> nat \<Rightarrow> ('w, unit) io" where
  "wait_for_api_socket P path child = wait_loop P path child ATTEMPTS"

definition kill_if_running :: "'w proc_host \<Rightarrow> nat \<Rightarrow> 'w \<Rightarrow> string list \<times> 'w" where
  "kill_if_running P child w =
     (case p_try_wait P child w of
        (Inr (Some _), w1) \<Rightarrow> ([], w1)
      | (Inr None, w1) \<Rightarrow>
          (case p_kill P child w1 of
             (Inl e, w2) \<Rightarrow> ([''failed to kill firecracker process: '' @ e], w2)
           | (Inr _, w2) \<Rightarrow> ([], w2))
      | (Inl e, w1) \<Rightarrow> ([''failed to poll firecracker process before cleanup: '' @ e], w1))"

fun join_errors :: "string list \<Rightarrow> string" where
  "join_errors [] = []"
| "join_errors [x] = x"
| "join_errors (x # xs) = x @ ''; '' @ join_errors xs"

definition cleanup_child :: "'w proc_host \<Rightarrow> nat \<Rightarrow> string \<Rightarrow> ('w, unit) io" where
  "cleanup_child P child path w =
     (case kill_if_running P child w of (errs1, w1) \<Rightarrow>
      case p_wait P child w1 of (r2, w2) \<Rightarrow>
      case remove_socket_if_exists P path w2 of (r3, w3) \<Rightarrow>
      let errs = errs1
                 @ (case r2 of Inl e \<Rightarrow> [''failed to wait firecracker process exit: '' @ e] | Inr _ \<Rightarrow> [])
                 @ (case r3 of Inl e \<Rightarrow> [e] | Inr _ \<Rightarrow> [])
      in (if errs = [] then Ok () else Err (join_errors errs), w3))"

section \<open>The operation\<close>

datatype fc_netns_mode = FcNone | FcFull

record firecracker_context =
  fc_socket_path :: string
  fc_netns :: "vm_netns_context option"

definition start_and_clean :: "'w proc_host \<Rightarrow> string \<Rightarrow> ('w, unit) io" where
  "start_and_clean P path =
     io_bind (remove_socket_if_exists P path) (\<lambda>_.
     io_bind (spawn_firecracker P path) (\<lambda>child w.
       case wait_for_api_socket P path child w of (wait_result, w1) \<Rightarrow>
       case cleanup_child P child path w1 of (cleanup_result, w2) \<Rightarrow>
         (merge_results wait_result cleanup_result, w2)))"

definition drop_fc_netns :: "'w netns_host \<Rightarrow> vm_netns_context option \<Rightarrow> 'w netns_proc \<Rightarrow> 'w netns_proc" where
  "drop_fc_netns H ns p = (case ns of Some n \<Rightarrow> drop_context H n p | None \<Rightarrow> p)"

definition run_once ::
  "'w netns_host \<Rightarrow> 'w proc_host \<Rightarrow> firecracker_context \<Rightarrow> ('w netns_proc, unit) io" where
  "run_once H P ctx p =
     (case fc_netns ctx of
        None \<Rightarrow> on_host (start_and_clean P (fc_socket_path ctx)) p
      | Some ns \<Rightarrow>
          (case enter H ns p of
             (Inl e, p1) \<Rightarrow> (Err e, drop_context H ns p1)
           | (Inr _, p1) \<Rightarrow>
               (case on_host (start_and_clean P (fc_socket_path ctx)) p1 of (r, p2) \<Rightarrow>
                case leave H ns p2 of (l, p3) \<Rightarrow> (merge_results r l, drop_context H ns p3))))"

fun drop_all_fc :: "'w netns_host \<Rightarrow> firecracker_context list \<Rightarrow> 'w netns_proc \<Rightarrow> 'w netns_proc" where
  "drop_all_fc H [] p = p"
| "drop_all_fc H (c # cs) p = drop_all_fc H cs (drop_fc_netns H (fc_netns c) p)"

definition make_fc_context ::
  "'w netns_host \<Rightarrow> 'w proc_host \<Rightarrow> fc_netns_mode \<Rightarrow> nat \<Rightarrow> nat \<Rightarrow> ('w netns_proc, firecracker_context) io"
  where
  "make_fc_context H P mode tid iter =
     (let path = build_socket_path tid iter in
      io_bind (on_host (remove_socket_if_exists P path)) (\<lambda>_.
        (case mode of
           FcNone \<Rightarrow> io_return \<lparr>fc_socket_path = path, fc_netns = None\<rparr>
         | FcFull \<Rightarrow>
             io_bind (prepare_full H) (\<lambda>ns. io_return \<lparr>fc_socket_path = path, fc_netns = Some ns\<rparr>))))"

text \<open>The loop \<open>for iteration in 0..worker.iterations\<close>.\<close>

fun prepare_fc_loop ::
  "'w netns_host \<Rightarrow> 'w proc_host \<Rightarrow> fc_netns_mode \<Rightarrow> nat \<Rightarrow> nat list \<Rightarrow> firecracker_context list \<Rightarrow>
     ('w netns_proc, firecracker_context list) io" where
  "prepare_fc_loop H P mode tid [] acc p = (Ok acc, p)"
| "prepare_fc_loop H P mode tid (i # is) acc p =
     (case make_fc_context H P mode tid i p of
        (Inl e, p') \<Rightarrow> (Err e, drop_all_fc H acc p')
      | (Inr c, p') \<Rightarrow> prepare_fc_loop H P mode tid is (acc @ [c]) p')"

definition prepare_create_firecracker ::
  "'w netns_host \<Rightarrow> 'w proc_host \<Rightarrow> fc_netns_mode \<Rightarrow> worker_run_config \<Rightarrow>
     ('w netns_proc, firecracker_context list) io" where
  "prepare_create_firecracker H P mode worker =
     prepare_fc_loop H P mode (wrc_thread_id worker) [0..<wrc_iterations worker] []"

definition run_create_firecracker ::
  "'w netns_host \<Rightarrow> 'w proc_host \<Rightarrow> firecracker_context runner \<Rightarrow> 'w netns_proc \<Rightarrow>
     unit res \<times> firecracker_context runner \<times> 'w netns_proc" where
  "run_create_firecracker H P =
     run_next ''no prepared create_firecracker context left''
       (\<lambda>ctx p. case run_once H P ctx p of (r, p') \<Rightarrow> (r, None, p'))"

lemma prepare_fc_loop_length:
  "prepare_fc_loop H P mode tid is acc p = (Ok cs, p') \<Longrightarrow> length cs = length acc + length is"
  by (induction "is" arbitrary: acc p) (auto split: prod.splits sum.splits)

interpretation create_firecracker_op:
  prepared_runner "prepare_create_firecracker H P mode" "run_create_firecracker H P"
    "''no prepared create_firecracker context left''" for H P mode
  by unfold_locales
    (auto simp: prepare_create_firecracker_def run_create_firecracker_def run_next_empty run_next_takes
      dest: prepare_fc_loop_length)

section \<open>Waiting\<close>

text \<open>The world after \<open>k\<close> attempts that did not decide.\<close>

fun after_attempts :: "'w proc_host \<Rightarrow> string \<Rightarrow> nat \<Rightarrow> nat \<Rightarrow> 'w \<Rightarrow> 'w" where
  "after_attempts P path child 0 w = w"
| "after_attempts P path child (Suc k) w = after_attempts P path child k (snd (try_api_socket P path child w))"

definition attempt_at :: "'w proc_host \<Rightarrow> string \<Rightarrow> nat \<Rightarrow> 'w \<Rightarrow> nat \<Rightarrow> attempt" where
  "attempt_at P path child w k = fst (try_api_socket P path child (after_attempts P path child k w))"

lemma wait_loop_decided:
  "k < n \<Longrightarrow> attempt_at P path child w k = Decided r \<Longrightarrow> (\<And>j. j < k \<Longrightarrow> attempt_at P path child w j = Again) \<Longrightarrow>
     fst (wait_loop P path child n w) = r"
proof (induction n arbitrary: w k)
  case (Suc n)
  obtain a w1 where t: "try_api_socket P path child w = (a, w1)" by fastforce
  show ?case
  proof (cases k)
    case 0
    with Suc.prems(2) t show ?thesis by (simp add: attempt_at_def)
  next
    case (Suc k')
    have a: "a = Again" using Suc.prems(3) [of 0] Suc t by (simp add: attempt_at_def)
    have shift: "attempt_at P path child w (Suc j) = attempt_at P path child w1 j" for j
      by (simp add: attempt_at_def t)
    have "fst (wait_loop P path child n w1) = r"
    proof (rule Suc.IH [of k'])
      show "k' < n" using Suc.prems(1) Suc by simp
      show "attempt_at P path child w1 k' = Decided r" using Suc.prems(2) Suc shift by simp
      show "attempt_at P path child w1 j = Again" if "j < k'" for j
        using Suc.prems(3) [of "Suc j"] that Suc shift by simp
    qed
    with a t show ?thesis by simp
  qed
qed simp

lemma wait_loop_timeout:
  "(\<And>j. j < n \<Longrightarrow> attempt_at P path child w j = Again) \<Longrightarrow>
     wait_loop P path child n w
       = (Err (''timed out waiting for firecracker api socket '' @ path), after_attempts P path child n w)"
proof (induction n arbitrary: w)
  case (Suc n)
  obtain a w1 where t: "try_api_socket P path child w = (a, w1)" by fastforce
  have a: "a = Again" using Suc.prems [of 0] t by (simp add: attempt_at_def)
  have "attempt_at P path child w1 j = Again" if "j < n" for j
    using Suc.prems [of "Suc j"] that by (simp add: attempt_at_def t)
  from Suc.IH [OF this] a t show ?case by simp
qed simp

lemma decided_or_all:
  "(\<exists>k<n. \<exists>r. attempt_at P path child w k = Decided r \<and> (\<forall>j<k. attempt_at P path child w j = Again)) \<or>
   (\<forall>j<n. attempt_at P path child w j = Again)"
proof (induction n)
  case (Suc n)
  show ?case
  proof (cases "attempt_at P path child w n")
    case (Decided r)
    with Suc show ?thesis by (meson less_Suc_eq)
  next
    case Again
    with Suc show ?thesis by (metis less_Suc_eq)
  qed
qed simp

text \<open>
  waiting for the socket is bounded and decided by the first conclusive attempt. Among at
  most 100 attempts, the result is that of the first one that finds the process gone, the
  socket connectable, or a permanent error; if all 100 are inconclusive the wait times out.
\<close>

theorem wait_for_api_socket_decides:
  "(\<exists>k < ATTEMPTS. attempt_at P path child w k = Decided (fst (wait_for_api_socket P path child w)) \<and>
      (\<forall>j < k. attempt_at P path child w j = Again)) \<or>
   (\<forall>j < ATTEMPTS. attempt_at P path child w j = Again) \<and>
     fst (wait_for_api_socket P path child w) = Err (''timed out waiting for firecracker api socket '' @ path)"
proof (cases "\<forall>j < ATTEMPTS. attempt_at P path child w j = Again")
  case True
  then show ?thesis by (simp add: wait_for_api_socket_def wait_loop_timeout)
next
  case False
  with decided_or_all [of ATTEMPTS P path child w] obtain k r where k: "k < ATTEMPTS"
    "attempt_at P path child w k = Decided r" "\<And>j. j < k \<Longrightarrow> attempt_at P path child w j = Again"
    by blast
  from wait_loop_decided [OF k] have "fst (wait_for_api_socket P path child w) = r"
    by (simp add: wait_for_api_socket_def)
  with k show ?thesis by blast
qed

section \<open>Sockets and processes\<close>

text \<open>
  the sockets of a run do not collide: two contexts have the same socket path exactly when
  they belong to the same iteration of the same worker.
\<close>

theorem socket_paths_distinct:
  "build_socket_path t i = build_socket_path t' i' \<longleftrightarrow> t = t' \<and> i = i'"
proof
  assume "build_socket_path t i = build_socket_path t' i'"
  then have eq: "show_nat t @ CHR ''-'' # (show_nat i @ ''.sock'')
      = show_nat t' @ CHR ''-'' # (show_nat i' @ ''.sock'')"
    by (simp add: build_socket_path_def)
  have "CHR ''-'' \<notin> set (show_nat n)" for n by (rule show_nat_no_char) simp
  from append_delim_inject [OF this this eq] show "t = t' \<and> i = i'"
    by (auto intro: show_nat_inj)
qed simp

text \<open>
  What the host does to the set of children that have not been waited for: a started process
  is new, a successful \<open>wait\<close> removes the child, polling may remove it, and nothing else
  changes the set.
\<close>

definition tracks_children :: "'w proc_host \<Rightarrow> ('w \<Rightarrow> nat set) \<Rightarrow> bool" where
  "tracks_children P live =
     ((\<forall>c w pid w'. p_spawn P c w = (Ok pid, w') \<longrightarrow> pid \<notin> live w \<and> live w' = insert pid (live w)) \<and>
      (\<forall>c w e w'. p_spawn P c w = (Err e, w') \<longrightarrow> live w' = live w) \<and>
      (\<forall>pid w s w'. p_wait P pid w = (Ok s, w') \<longrightarrow> live w' = live w - {pid}) \<and>
      (\<forall>pid w. live w - {pid} \<subseteq> live (snd (p_try_wait P pid w)) \<and> live (snd (p_try_wait P pid w)) \<subseteq> live w) \<and>
      (\<forall>path w. live (snd (p_remove_file P path w)) = live w) \<and>
      (\<forall>path w. live (snd (p_exists P path w)) = live w) \<and>
      (\<forall>path w. live (snd (p_connect P path w)) = live w) \<and>
      (\<forall>n w. live (p_sleep P n w) = live w) \<and>
      (\<forall>pid w. live (snd (p_kill P pid w)) = live w))"

lemma tracks_spawn_wait:
  assumes "tracks_children P live"
  shows "p_spawn P c w = (Ok pid, w') \<Longrightarrow> pid \<notin> live w \<and> live w' = insert pid (live w)"
    and "p_spawn P c w = (Err e, w') \<Longrightarrow> live w' = live w"
    and "p_wait P pid w = (Ok s, w') \<Longrightarrow> live w' = live w - {pid}"
proof -
  note laws = assms [unfolded tracks_children_def]
  show "p_spawn P c w = (Ok pid, w') \<Longrightarrow> pid \<notin> live w \<and> live w' = insert pid (live w)"
    using conjunct1 [OF laws] by blast
  show "p_spawn P c w = (Err e, w') \<Longrightarrow> live w' = live w"
    using conjunct1 [OF conjunct2 [OF laws]] by blast
  show "p_wait P pid w = (Ok s, w') \<Longrightarrow> live w' = live w - {pid}"
    using conjunct1 [OF conjunct2 [OF conjunct2 [OF laws]]] by blast
qed

definition only_child :: "nat \<Rightarrow> nat set \<Rightarrow> nat set \<Rightarrow> bool" where
  "only_child child A B = (A - {child} \<subseteq> B \<and> B \<subseteq> A)"

lemma only_child_trans: "only_child c A B \<Longrightarrow> only_child c B C \<Longrightarrow> only_child c A C"
  by (auto simp: only_child_def)

lemma only_child_refl [simp]: "only_child c A A"
  by (simp add: only_child_def)

lemma tracks_try_wait:
  "tracks_children P live \<Longrightarrow> p_try_wait P pid w = (r, w') \<Longrightarrow> only_child pid (live w) (live w')"
  unfolding tracks_children_def only_child_def by (metis snd_conv)

lemma tracks_keep:
  assumes "tracks_children P live"
  shows "p_exists P path w = (b, w') \<Longrightarrow> live w' = live w"
    and "p_connect P path w = (c, w') \<Longrightarrow> live w' = live w"
    and "p_kill P pid w = (k, w') \<Longrightarrow> live w' = live w"
    and "p_remove_file P path w = (r, w') \<Longrightarrow> live w' = live w"
    and "live (p_sleep P n w) = live w"
  using assms unfolding tracks_children_def by (metis snd_conv)+

lemma tracks_attempt:
  assumes "tracks_children P live"
  shows "only_child child (live w) (live (snd (try_api_socket P path child w)))"
proof -
  obtain r1 w1 where w1: "p_try_wait P child w = (r1, w1)" by fastforce
  obtain b w2 where w2: "p_exists P path w1 = (b, w2)" by fastforce
  obtain c w3 where w3: "p_connect P path w2 = (c, w3)" by fastforce
  have "only_child child (live w) (live w1)" using assms w1 by (rule tracks_try_wait)
  moreover have "live w2 = live w1" "live w3 = live w1"
    using tracks_keep(1) [OF assms w2] tracks_keep(2) [OF assms w3] by simp_all
  ultimately show ?thesis
    using w1 w2 w3 tracks_keep(5) [OF assms]
    by (auto simp: try_api_socket_def split: sum.split option.split bool.split)
qed

lemma tracks_wait_loop:
  assumes "tracks_children P live"
  shows "only_child child (live w) (live (snd (wait_loop P path child n w)))"
proof (induction n arbitrary: w)
  case (Suc n)
  obtain a w1 where t: "try_api_socket P path child w = (a, w1)" by fastforce
  with tracks_attempt [OF assms, of child w path] have "only_child child (live w) (live w1)" by simp
  with Suc [of w1] t show ?case by (auto split: attempt.split intro: only_child_trans)
qed simp

lemma tracks_remove:
  "tracks_children P live \<Longrightarrow> live (snd (remove_socket_if_exists P path w)) = live w"
  using tracks_keep(4) [of P live path w]
  by (auto simp: remove_socket_if_exists_def split: prod.split sum.split)

lemma tracks_kill:
  assumes "tracks_children P live"
  shows "only_child child (live w) (live (snd (kill_if_running P child w)))"
proof -
  obtain r1 w1 where w1: "p_try_wait P child w = (r1, w1)" by fastforce
  obtain k w2 where w2: "p_kill P child w1 = (k, w2)" by fastforce
  show ?thesis
    using tracks_try_wait [OF assms w1] tracks_keep(3) [OF assms w2] w1 w2
    by (auto simp: kill_if_running_def split: sum.split option.split)
qed

lemma tracks_cleanup:
  assumes "tracks_children P live" "\<And>pid w. \<exists>s w'. p_wait P pid w = (Ok s, w')"
  shows "live (snd (cleanup_child P child path w)) = live w - {child}"
proof -
  obtain e1 w1 where w1: "kill_if_running P child w = (e1, w1)" by fastforce
  obtain s w2 where w2: "p_wait P child w1 = (Ok s, w2)" using assms(2) by blast
  obtain r3 w3 where w3: "remove_socket_if_exists P path w2 = (r3, w3)" by fastforce
  have "only_child child (live w) (live w1)" using tracks_kill [OF assms(1), of child w] w1 by simp
  moreover have "live w2 = live w1 - {child}"
    using assms(1) w2 by (rule tracks_spawn_wait(3))
  moreover have "live w3 = live w2" using tracks_remove [OF assms(1), of path w2] w3 by simp
  ultimately have "live w3 = live w - {child}" by (auto simp: only_child_def)
  then show ?thesis by (simp add: cleanup_child_def w1 w2 w3 Let_def)
qed


section \<open>A concrete host\<close>

text \<open>The world is the set of children; the started process never opens its socket.\<close>

definition stuck_host :: "nat list proc_host" where
  "stuck_host =
     \<lparr> p_remove_file = (\<lambda>_ w. (Inl (NotFound, []), w)), p_spawn = (\<lambda>_ w. (Ok (Suc (sum_list w)), Suc (sum_list w) # w)),
       p_try_wait = (\<lambda>_ w. (Ok None, w)), p_exists = (\<lambda>_ w. (False, w)), p_connect = (\<lambda>_ w. (Ok (), w)),
       p_sleep = (\<lambda>_ w. w), p_kill = (\<lambda>_ w. (Ok (), w)),
       p_wait = (\<lambda>pid w. (Ok [], filter (\<lambda>x. x \<noteq> pid) w)) \<rparr>"

lemma stuck_host_tracks: "tracks_children stuck_host set"
proof -
  have "x \<in> set w \<Longrightarrow> x \<le> sum_list w" for x and w :: "nat list" by (simp add: member_le_sum_list)
  then have "Suc (sum_list w) \<notin> set w" for w :: "nat list" by (metis Suc_n_not_le_n)
  then show ?thesis by (auto simp: tracks_children_def stuck_host_def)
qed


theorem wait_for_api_socket_decides_witness:
  "fst (wait_for_api_socket stuck_host ''s'' 3 []) = Err ''timed out waiting for firecracker api socket s''"
proof -
  have "attempt_at stuck_host ''s'' 3 [] k = Again" for k
    by (simp add: attempt_at_def try_api_socket_def stuck_host_def)
  with wait_for_api_socket_decides [of stuck_host "''s''" 3 "[]"] show ?thesis by simp
qed

end
