(* ===== verification/Bench_Dispatch.thy ===== *)
theory Bench_Dispatch
  imports Bench_Runner Create_Firecracker
begin

text \<open>
  From a name of the registry to the code that runs: the two calibration operations (noop.rs and
  hash_cpu.rs), the public preparation functions of the restore operations with the device kind
  and the namespace mode that they fix (device_restore.rs, kick_virtio.rs, resume_vcpus.rs,
  resume_vm.rs, create_firecracker.rs), their names in vm_restore/mod.rs, and the boxed closure
  \<open>PreparedRunner\<close> of ops/mod.rs. The main theorem joins the registry, the operations and the
  driver: a worker never calls a closure that has no context left.
\<close>

section \<open>Calibration operations\<close>

definition noop_run :: "('w, unit) io" where
  "noop_run w = (Ok (), w)"

text \<open>
  \<open>write\<close> and \<open>finish\<close> are the methods of the hasher, which is local to the call. The digest only
  goes to \<open>black_box\<close>.
\<close>

definition hash_cpu_state :: "(u8 list \<Rightarrow> 'h \<Rightarrow> 'h) \<Rightarrow> 'h \<Rightarrow> 'h" where
  "hash_cpu_state write h = (write (replicate 1024 0xAB) ^^ 1000) h"

definition hash_cpu_run :: "(u8 list \<Rightarrow> 'h \<Rightarrow> 'h) \<Rightarrow> ('h \<Rightarrow> u64) \<Rightarrow> 'h \<Rightarrow> (u64 \<Rightarrow> 'w \<Rightarrow> 'w) \<Rightarrow> ('w, unit) io" where
  "hash_cpu_run write finish new black_box w = (Ok (), black_box (finish (hash_cpu_state write new)) w)"

section \<open>Closures\<close>

text \<open>
  A value of \<open>PreparedRunner\<close>, by the variables that the closure has moved into it: the contexts
  that are left and those that are completed, and the values shared by all calls.
\<close>

datatype 'dm closure =
    FirecrackerClosure "firecracker_context runner"
  | GuestMemoryClosure microvm_state
  | KvmClosure "string list"
  | VmNewClosure "nat runner"
  | CreateVcpusClosure u8 "nat runner"
  | MemoryRegionsClosure "memory_regions_context runner"
  | VcpuStatesClosure "vcpu_states_context runner"
  | StateClosure "restore_state_context runner"
  | DeviceClosure device_restore_kind "device_restore_context runner"
  | NetnsDeviceClosure device_restore_kind "netns_device_context runner"
  | KickClosure "'dm kick_context runner"
  | ResumeVcpusClosure "'dm kick_context runner"
  | ResumeVmClosure "'dm vmm_context runner"

text \<open>\<open>Box::new(move || ...)\<close> over contexts that are all there.\<close>

definition boxed :: "('c runner \<Rightarrow> 'dm closure) \<Rightarrow> ('w, 'c list) io \<Rightarrow> ('w, 'dm closure) io" where
  "boxed mk prepare = io_bind prepare (\<lambda>contexts. io_return (mk (contexts, [])))"

section \<open>Preparation functions\<close>

text \<open>device_restore.rs\<close>

definition device_kind ::
  "'w netns_host \<Rightarrow> ('w, 'dm) vm_api \<Rightarrow> device_restore_kind \<Rightarrow> worker_run_config \<Rightarrow> ('w netns_proc, 'dm closure) io"
  where "device_kind H V kind worker = boxed (DeviceClosure kind) (prepare_kind H V worker)"

definition device_netns_kind ::
  "'w netns_host \<Rightarrow> ('w, 'dm) vm_api \<Rightarrow> device_restore_kind \<Rightarrow> netns_mode \<Rightarrow> worker_run_config \<Rightarrow>
     ('w netns_proc, 'dm closure) io" where
  "device_netns_kind H V kind mode worker =
     boxed (NetnsDeviceClosure kind) (prepare_netns_kind H V mode worker)"

definition prepare_all where
  "prepare_all H V worker = device_netns_kind H V KAll NetnsMinimal worker"

definition prepare_all_full_netns where
  "prepare_all_full_netns H V worker = device_netns_kind H V KAll NetnsFull worker"

definition prepare_balloon where
  "prepare_balloon H V worker = device_kind H V KBalloon worker"

definition prepare_block where
  "prepare_block H V worker = device_kind H V KBlock worker"

definition prepare_net where
  "prepare_net H V worker = device_netns_kind H V KNet NetnsMinimal worker"

definition prepare_net_full_netns where
  "prepare_net_full_netns H V worker = device_netns_kind H V KNet NetnsFull worker"

definition prepare_vsock where
  "prepare_vsock H V worker = device_kind H V KVsock worker"

definition prepare_entropy where
  "prepare_entropy H V worker = device_kind H V KEntropy worker"

definition prepare_pmem where
  "prepare_pmem H V worker = device_kind H V KPmem worker"

definition prepare_virtio_mem where
  "prepare_virtio_mem H V worker = device_kind H V KVirtioMem worker"

text \<open>kick_virtio.rs, resume_vcpus.rs, resume_vm.rs and create_firecracker.rs\<close>

definition kick_prepare where
  "kick_prepare H V worker = boxed KickClosure (prepare_kick_virtio H V NetnsMinimal worker)"

definition kick_prepare_full_netns where
  "kick_prepare_full_netns H V worker = boxed KickClosure (prepare_kick_virtio H V NetnsFull worker)"

definition resume_vcpus_prepare where
  "resume_vcpus_prepare H V worker =
     boxed ResumeVcpusClosure (prepare_resume_vcpus H V NetnsMinimal worker)"

definition resume_vcpus_prepare_full_netns where
  "resume_vcpus_prepare_full_netns H V worker =
     boxed ResumeVcpusClosure (prepare_resume_vcpus H V NetnsFull worker)"

definition resume_vm_prepare where
  "resume_vm_prepare H V worker = boxed ResumeVmClosure (prepare_resume_vm H V NetnsMinimal worker)"

definition resume_vm_prepare_full_netns where
  "resume_vm_prepare_full_netns H V worker =
     boxed ResumeVmClosure (prepare_resume_vm H V NetnsFull worker)"

definition firecracker_prepare where
  "firecracker_prepare H P worker =
     boxed FirecrackerClosure (prepare_create_firecracker H P FcNone worker)"

definition firecracker_prepare_full_netns where
  "firecracker_prepare_full_netns H P worker =
     boxed FirecrackerClosure (prepare_create_firecracker H P FcFull worker)"

text \<open>The function that a pointer of the registry names.\<close>

fun call_prepare ::
  "'w netns_host \<Rightarrow> 'w proc_host \<Rightarrow> ('w, 'dm) vm_api \<Rightarrow> prepare_fn \<Rightarrow> worker_run_config \<Rightarrow>
     ('w netns_proc, 'dm closure) io" where
  "call_prepare H P V Create_firecracker_prepare worker = firecracker_prepare H P worker"
| "call_prepare H P V Create_firecracker_prepare_full_netns worker =
     firecracker_prepare_full_netns H P worker"
| "call_prepare H P V Guest_memory_prepare worker =
     io_bind (prepare_guest_memory H V) (\<lambda>st. io_return (GuestMemoryClosure st))"
| "call_prepare H P V Prepare_kvm worker =
     io_bind (prepare_kvm H V) (\<lambda>caps. io_return (KvmClosure caps))"
| "call_prepare H P V Prepare_vm_new worker = boxed VmNewClosure (prepare_vm_new H V worker)"
| "call_prepare H P V Prepare_create_vcpus worker =
     io_bind (prepare_create_vcpus H V worker) (\<lambda>(n, vms). io_return (CreateVcpusClosure n (vms, [])))"
| "call_prepare H P V Prepare_restore_memory_regions worker =
     boxed MemoryRegionsClosure (prepare_restore_memory_regions H V worker)"
| "call_prepare H P V Prepare_restore_vcpu_states worker =
     boxed VcpuStatesClosure (prepare_restore_vcpu_states H V worker)"
| "call_prepare H P V Prepare_restore_state worker = boxed StateClosure (prepare_restore_state H V worker)"
| "call_prepare H P V Prepare_device_restore worker = prepare_all H V worker"
| "call_prepare H P V Prepare_device_restore_full_netns worker = prepare_all_full_netns H V worker"
| "call_prepare H P V Prepare_device_restore_balloon worker = prepare_balloon H V worker"
| "call_prepare H P V Prepare_device_restore_block worker = prepare_block H V worker"
| "call_prepare H P V Prepare_device_restore_net worker = prepare_net H V worker"
| "call_prepare H P V Prepare_device_restore_net_full_netns worker = prepare_net_full_netns H V worker"
| "call_prepare H P V Prepare_device_restore_vsock worker = prepare_vsock H V worker"
| "call_prepare H P V Prepare_device_restore_entropy worker = prepare_entropy H V worker"
| "call_prepare H P V Prepare_device_restore_pmem worker = prepare_pmem H V worker"
| "call_prepare H P V Prepare_device_restore_virtio_mem worker = prepare_virtio_mem H V worker"
| "call_prepare H P V Prepare_kick_virtio worker = kick_prepare H V worker"
| "call_prepare H P V Prepare_kick_virtio_full_netns worker = kick_prepare_full_netns H V worker"
| "call_prepare H P V Prepare_resume_vcpus worker = resume_vcpus_prepare H V worker"
| "call_prepare H P V Prepare_resume_vcpus_full_netns worker = resume_vcpus_prepare_full_netns H V worker"
| "call_prepare H P V Prepare_resume_vm worker = resume_vm_prepare H V worker"
| "call_prepare H P V Prepare_resume_vm_full_netns worker = resume_vm_prepare_full_netns H V worker"

section \<open>Calling a closure\<close>

fun recapture :: "('c \<Rightarrow> 'd) \<Rightarrow> unit res \<times> 'c \<times> 'w \<Rightarrow> unit res \<times> 'd \<times> 'w" where
  "recapture mk (r, st, w) = (r, mk st, w)"

fun call_closure ::
  "'w netns_host \<Rightarrow> 'w proc_host \<Rightarrow> ('w, 'dm) vm_api \<Rightarrow> 'dm closure \<Rightarrow> 'w netns_proc \<Rightarrow>
     unit res \<times> 'dm closure \<times> 'w netns_proc" where
  "call_closure H P V (FirecrackerClosure st) p =
     recapture FirecrackerClosure (run_create_firecracker H P st p)"
| "call_closure H P V (GuestMemoryClosure st) p =
     (case run_guest_memory H V st p of (r, p') \<Rightarrow> (r, GuestMemoryClosure st, p'))"
| "call_closure H P V (KvmClosure caps) p = (case run_kvm V caps p of (r, p') \<Rightarrow> (r, KvmClosure caps, p'))"
| "call_closure H P V (VmNewClosure st) p = recapture VmNewClosure (run_vm_new V st p)"
| "call_closure H P V (CreateVcpusClosure n st) p =
     recapture (CreateVcpusClosure n) (run_create_vcpus V n st p)"
| "call_closure H P V (MemoryRegionsClosure st) p =
     recapture MemoryRegionsClosure (run_restore_memory_regions V st p)"
| "call_closure H P V (VcpuStatesClosure st) p =
     recapture VcpuStatesClosure (run_restore_vcpu_states V st p)"
| "call_closure H P V (StateClosure st) p = recapture StateClosure (run_restore_state V st p)"
| "call_closure H P V (DeviceClosure kind st) p = recapture (DeviceClosure kind) (run_kind V kind st p)"
| "call_closure H P V (NetnsDeviceClosure kind st) p =
     recapture (NetnsDeviceClosure kind) (run_netns_kind H V kind st p)"
| "call_closure H P V (KickClosure st) p = recapture KickClosure (run_kick_virtio H V st p)"
| "call_closure H P V (ResumeVcpusClosure st) p = recapture ResumeVcpusClosure (run_resume_vcpus H V st p)"
| "call_closure H P V (ResumeVmClosure st) p = recapture ResumeVmClosure (run_resume_vm H V st p)"

text \<open>
  The calls of the closure that the worker's loop makes; an error leaves the loop, so does one of
  the measurement around a call, after fewer calls.
\<close>

fun worker_calls ::
  "'w netns_host \<Rightarrow> 'w proc_host \<Rightarrow> ('w, 'dm) vm_api \<Rightarrow> nat \<Rightarrow> 'dm closure \<Rightarrow> 'w netns_proc \<Rightarrow>
     unit res \<times> 'dm closure \<times> 'w netns_proc" where
  "worker_calls H P V 0 c p = (Ok (), c, p)"
| "worker_calls H P V (Suc n) c p =
     (case worker_calls H P V n c p of
        (Inl e, c', p') \<Rightarrow> (Err e, c', p')
      | (Inr _, c', p') \<Rightarrow> call_closure H P V c' p')"

section \<open>Contexts left\<close>

text \<open>The closures over contexts, by the number of contexts left; the other two have none.\<close>

fun contexts_left :: "'dm closure \<Rightarrow> nat option" where
  "contexts_left (FirecrackerClosure st) = Some (length (fst st))"
| "contexts_left (GuestMemoryClosure _) = None"
| "contexts_left (KvmClosure _) = None"
| "contexts_left (VmNewClosure st) = Some (length (fst st))"
| "contexts_left (CreateVcpusClosure _ st) = Some (length (fst st))"
| "contexts_left (MemoryRegionsClosure st) = Some (length (fst st))"
| "contexts_left (VcpuStatesClosure st) = Some (length (fst st))"
| "contexts_left (StateClosure st) = Some (length (fst st))"
| "contexts_left (DeviceClosure _ st) = Some (length (fst st))"
| "contexts_left (NetnsDeviceClosure _ st) = Some (length (fst st))"
| "contexts_left (KickClosure st) = Some (length (fst st))"
| "contexts_left (ResumeVcpusClosure st) = Some (length (fst st))"
| "contexts_left (ResumeVmClosure st) = Some (length (fst st))"

definition shares_state :: "prepare_fn \<Rightarrow> bool" where
  "shares_state f \<longleftrightarrow> f = Guest_memory_prepare \<or> f = Prepare_kvm"

lemma run_next_left: "length (fst (fst (snd (run_next msg work st w)))) = length (fst st) - 1"
  by (cases st; cases "fst st") (auto simp: run_next_def split: prod.split)

lemma recapture_eq: "recapture mk x = (fst x, mk (fst (snd x)), snd (snd x))"
  by (cases x) simp

lemmas run_defs = run_create_firecracker_def run_vm_new_def run_create_vcpus_def
  run_restore_memory_regions_def run_restore_vcpu_states_def run_restore_state_def run_kind_def
  run_netns_kind_def run_kick_virtio_def run_resume_vcpus_def run_resume_vm_def

lemma call_takes_context:
  "contexts_left (fst (snd (call_closure H P V c p))) = map_option (\<lambda>n. n - 1) (contexts_left c)"
  by (cases c) (simp_all add: recapture_eq run_defs run_next_left split: prod.split)

text \<open>A call without a context reports it and changes nothing.\<close>

lemma call_exhausted:
  "contexts_left c = Some 0 \<Longrightarrow> \<exists>msg. call_closure H P V c p = (Err msg, c, p)"
  by (cases c) (auto simp: recapture_eq run_defs run_next_def split: prod.split)

lemma boxed_Ok:
  "boxed mk prepare w = (Ok c, w') \<longleftrightarrow> (\<exists>cs. prepare w = (Ok cs, w') \<and> c = mk (cs, []))"
  by (auto simp: boxed_def io_bind_Inr_iff)

lemmas prepare_length_laws = create_firecracker_op.prepare_length vm_new_op.prepare_length
  memory_regions_op.prepare_length vcpu_states_op.prepare_length restore_state_op.prepare_length
  device_kind_op.prepare_length netns_kind_op.prepare_length kick_virtio_op.prepare_length
  resume_vcpus_op.prepare_length resume_vm_op.prepare_length

lemma create_vcpus_length:
  "prepare_create_vcpus H V worker w = (Ok (n, vms), w') \<Longrightarrow> length vms = wrc_iterations worker"
  by (rule create_vcpus_op.prepare_length [where H = H and V = V and w = w and w' = w'])
     (auto simp: io_bind_Inr_iff)

lemmas public_prepare_defs = firecracker_prepare_def firecracker_prepare_full_netns_def
  prepare_all_def prepare_all_full_netns_def prepare_balloon_def prepare_block_def prepare_net_def
  prepare_net_full_netns_def prepare_vsock_def prepare_entropy_def prepare_pmem_def
  prepare_virtio_mem_def kick_prepare_def kick_prepare_full_netns_def resume_vcpus_prepare_def
  resume_vcpus_prepare_full_netns_def resume_vm_prepare_def resume_vm_prepare_full_netns_def
  device_kind_def device_netns_kind_def

lemma call_prepare_contexts:
  assumes "call_prepare H P V f worker w = (Ok c, w')"
  shows "contexts_left c = (if shares_state f then None else Some (wrc_iterations worker))"
  using assms
  by (cases f)
     (auto simp: shares_state_def public_prepare_defs boxed_Ok io_bind_Inr_iff
        dest: prepare_length_laws create_vcpus_length)

lemma worker_calls_left:
  "worker_calls H P V k c p = (Ok u, c', p') \<Longrightarrow>
     contexts_left c' = map_option (\<lambda>n. n - k) (contexts_left c)"
proof (induction k arbitrary: u c' p')
  case 0
  then show ?case by (simp add: option.map_ident)
next
  case (Suc k)
  then obtain c1 p1 where k: "worker_calls H P V k c p = (Ok (), c1, p1)"
    and call: "call_closure H P V c1 p1 = (Ok u, c', p')"
    by (auto split: prod.splits sum.splits)
  have "contexts_left c' = map_option (\<lambda>n. n - 1) (contexts_left c1)"
    using call_takes_context [of H P V c1 p1] call by simp
  with Suc.IH [OF k] show ?case by (cases "contexts_left c") auto
qed

text \<open>
  registry, preparation and driver fit together. For every operation of the registry that
  has a preparation, and for every worker of the driver: when the preparation for the worker's
  share of the instances succeeds and its first \<open>k\<close> measured calls have succeeded, the closure
  has exactly the contexts of the remaining calls left (or keeps shared state and needs none); so
  no call of the worker finds the contexts exhausted.
\<close>

theorem worker_never_runs_out:
  assumes "get_op name = Some (ExternalWithPrepare f)"
    and "call_prepare H P V f \<lparr>wrc_thread_id = t, wrc_iterations = worker_count_of cfg t\<rparr> p0 = (Ok c, p1)"
    and "worker_calls H P V k c p2 = (Ok (), c', p3)" "k < worker_count_of cfg t"
  shows "contexts_left c' = (if shares_state f then None else Some (worker_count_of cfg t - k)) \<and>
         contexts_left c' \<noteq> Some 0"
  using worker_calls_left [OF assms(3)] call_prepare_contexts [OF assms(2)] assms(4) by simp

definition two_vms :: run_config where
  "two_vms = \<lparr>total = 2, concurrency = 1, measure_per_op_usage = False\<rparr>"

lemma two_vms_prepared:
  "call_prepare plain_host P plain_api Prepare_vm_new
     \<lparr>wrc_thread_id = 0, wrc_iterations = worker_count_of two_vms 0\<rparr> plain_proc
   = (Ok (VmNewClosure ([1, 1], [])), plain_proc)"
  by (simp add: boxed_def prepare_vm_new_def load_microvm_state_def snapshot_state_from_file_def
      open_file_def on_host_def plain_host_def plain_api_def io_bind_def io_return_def build_kvm_def
      call_def io_map_err_def numeral_2_eq_2 two_vms_def worker_count_of_def worker_count_def
      iteration_count_def)

lemma two_vms_first_call:
  "worker_calls plain_host P plain_api 1 (VmNewClosure ([1, 1], [])) plain_proc
   = (Ok (), VmNewClosure ([1], []), plain_proc)"
  by (simp add: run_vm_new_def run_next_def vm_new_def call_def on_host_def plain_api_def io_map_err_def)

theorem worker_never_runs_out_witness:
  "contexts_left (VmNewClosure ([1], []) :: unit closure) =
      (if shares_state Prepare_vm_new then None else Some (worker_count_of two_vms 0 - 1)) \<and>
    contexts_left (VmNewClosure ([1], []) :: unit closure) \<noteq> Some 0"
proof -
  have "get_op ''vm_new'' = Some (ExternalWithPrepare Prepare_vm_new)" by (simp add: get_op_def op_arms_def)
  moreover have "1 < worker_count_of two_vms 0"
    by (simp add: two_vms_def worker_count_of_def worker_count_def iteration_count_def)
  ultimately show ?thesis
    by (rule worker_never_runs_out [OF _ two_vms_prepared two_vms_first_call])
qed


lemma block_prepared:
  "call_prepare plain_host P plain_api Prepare_device_restore_block
     \<lparr>wrc_thread_id = 0, wrc_iterations = 0\<rparr> plain_proc = (Ok (DeviceClosure KBlock ([], [])), plain_proc)"
  by (simp add: public_prepare_defs boxed_def prepare_kind_def io_bind_def io_return_def)


end
