(* ===== verification/Bench_System.thy ===== *)
theory Bench_System
  imports Bench_Dispatch Bench_Runner_Props
begin

text \<open>
  The driver with preparation together with the operations it runs. In theory \<open>Bench_Runner\<close> the
  outcome of a preparation and of a measurement is an argument of the step; here the step computes it:
  the preparation is the function of the registry, a measurement is \<open>measure_operation\<close> around a call of
  the worker's closure, and the main thread reads the clock and the usage of the process. A whole
  preparation or measured call is one step on the world, so interleavings within them are not
  distinguished. Panics stay free choices.
\<close>

section \<open>The composed machine\<close>

record ('w, 'dm) system =
  driver :: rstate
  runners :: "nat \<Rightarrow> 'dm closure option"
  world :: "'w netns_proc"

definition sys_init :: "'w netns_proc \<Rightarrow> ('w, 'dm) system" where
  "sys_init p = \<lparr>driver = init_state, runners = (\<lambda>_. None), world = p\<rparr>"

text \<open>The world of a measured call is the closure of the worker with the world of the process.\<close>

definition beside :: "('w \<Rightarrow> 'b \<times> 'w) \<Rightarrow> 'c \<times> 'w \<Rightarrow> 'b \<times> 'c \<times> 'w" where
  "beside f x = (case x of (c, p) \<Rightarrow> (case f p of (r, p') \<Rightarrow> (r, c, p')))"

definition worker_env :: "'w bench_env \<Rightarrow> ('c \<times> 'w) bench_env" where
  "worker_env E =
     \<lparr>env_now = beside (env_now E), env_getrusage = (\<lambda>x who. beside (\<lambda>p. env_getrusage E p who) x)\<rparr>"

definition runner_call ::
  "'w netns_host \<Rightarrow> 'w proc_host \<Rightarrow> ('w, 'dm) vm_api \<Rightarrow> ('dm closure \<times> 'w netns_proc, unit) io" where
  "runner_call H P V x = (case x of (c, p) \<Rightarrow> call_closure H P V c p)"

fun prepared :: "'c res \<Rightarrow> unit res" where
  "prepared (Inl e) = Err e"
| "prepared (Inr _) = Ok ()"

definition sys_prepare ::
  "'w netns_host \<Rightarrow> 'w proc_host \<Rightarrow> ('w, 'dm) vm_api \<Rightarrow> prepare_fn \<Rightarrow> run_config \<Rightarrow> nat \<Rightarrow>
     ('w, 'dm) system \<Rightarrow> ('w, 'dm) system option" where
  "sys_prepare H P V f cfg t s =
     (case call_prepare H P V f \<lparr>wrc_thread_id = t, wrc_iterations = worker_count_of cfg t\<rparr> (world s) of
        (r, p') \<Rightarrow>
          map_option
            (\<lambda>d. s\<lparr>driver := d, world := p',
                   runners := (case r of Inl _ \<Rightarrow> runners s | Inr c \<Rightarrow> (runners s)(t := Some c))\<rparr>)
            (exec_step cfg (Prepare t (prepared r)) (driver s)))"

definition sys_measure ::
  "'w netns_host \<Rightarrow> 'w proc_host \<Rightarrow> ('w, 'dm) vm_api \<Rightarrow> 'w netns_proc bench_env \<Rightarrow> run_config \<Rightarrow> nat \<Rightarrow>
     ('w, 'dm) system \<Rightarrow> ('w, 'dm) system option" where
  "sys_measure H P V E cfg t s =
     (case (runners s t, run_origin (driver s)) of
        (Some c, Some origin) \<Rightarrow>
          (case measure_operation (worker_env E) origin (measure_per_op_usage cfg) (runner_call H P V)
                  (c, world s) of
             (r, c', p') \<Rightarrow>
               map_option (\<lambda>d. s\<lparr>driver := d, world := p', runners := (runners s)(t := Some c')\<rparr>)
                 (exec_step cfg (Measure t r) (driver s)))
      | _ \<Rightarrow> None)"

text \<open>While the main thread keeps waiting it reads neither usage nor clock, and no clock when the usage is refused.\<close>

definition sys_main_gate ::
  "'w netns_proc bench_env \<Rightarrow> run_config \<Rightarrow> ('w, 'dm) system \<Rightarrow> ('w, 'dm) system option" where
  "sys_main_gate E cfg s =
     (let d = driver s in
      if ready_workers d < worker_count cfg \<and> failure d = None then
        map_option (\<lambda>d'. s\<lparr>driver := d'\<rparr>) (exec_step cfg (MainGate (Err []) 0) d)
      else
        (case capture_current_process_usage E (world s) of (before, p1) \<Rightarrow>
         case (case before of Inl _ \<Rightarrow> (0, p1) | Inr _ \<Rightarrow> env_now E p1) of (now, p2) \<Rightarrow>
           map_option (\<lambda>d'. s\<lparr>driver := d', world := p2\<rparr>) (exec_step cfg (MainGate before now) d)))"

definition sys_main_finish ::
  "'w netns_proc bench_env \<Rightarrow> run_config \<Rightarrow> ('w, 'dm) system \<Rightarrow> ('w, 'dm) system option" where
  "sys_main_finish E cfg s =
     (let d = driver s in
      if finished_workers d < worker_count cfg then
        map_option (\<lambda>d'. s\<lparr>driver := d'\<rparr>) (exec_step cfg (MainFinish 0 (Err [])) d)
      else
        (case env_now E (world s) of (now, p1) \<Rightarrow>
         case capture_current_process_usage E p1 of (after, p2) \<Rightarrow>
           map_option (\<lambda>d'. s\<lparr>driver := d', world := p2\<rparr>) (exec_step cfg (MainFinish now after) d)))"

text \<open>The steps that only move the threads are those of the driver.\<close>

fun thread_only :: "action \<Rightarrow> bool" where
  "thread_only (Prepare _ _) = False"
| "thread_only (Measure _ _) = False"
| "thread_only (MainGate _ _) = False"
| "thread_only (MainFinish _ _) = False"
| "thread_only _ = True"

datatype sys_action = SysPrepare nat | SysMeasure nat | SysMainGate | SysMainFinish | SysThread action

fun sys_step ::
  "'w netns_host \<Rightarrow> 'w proc_host \<Rightarrow> ('w, 'dm) vm_api \<Rightarrow> 'w netns_proc bench_env \<Rightarrow> prepare_fn \<Rightarrow>
     run_config \<Rightarrow> sys_action \<Rightarrow> ('w, 'dm) system \<Rightarrow> ('w, 'dm) system option" where
  "sys_step H P V E f cfg (SysPrepare t) s = sys_prepare H P V f cfg t s"
| "sys_step H P V E f cfg (SysMeasure t) s = sys_measure H P V E cfg t s"
| "sys_step H P V E f cfg SysMainGate s = sys_main_gate E cfg s"
| "sys_step H P V E f cfg SysMainFinish s = sys_main_finish E cfg s"
| "sys_step H P V E f cfg (SysThread a) s =
     (if thread_only a then map_option (\<lambda>d. s\<lparr>driver := d\<rparr>) (exec_step cfg a (driver s)) else None)"

section \<open>The driver within the machine\<close>

lemma sys_step_driver:
  "sys_step H P V E f cfg a s = Some s' \<Longrightarrow> \<exists>b. exec_step cfg b (driver s) = Some (driver s')"
  by (cases a)
     (auto simp: sys_prepare_def sys_measure_def sys_main_gate_def sys_main_finish_def Let_def
        simp del: exec_step.simps split: prod.splits option.splits if_splits)

interpretation driver_part:
  machine_projection "sys_step H P V E f cfg" "sys_init p" "exec_step cfg" init_state driver
  for H P V E f cfg p
  by unfold_locales (simp add: sys_init_def, blast dest: sys_step_driver)

lemma sys_driver_reachable:
  "reaches (sys_step H P V E f cfg) (sys_init p) s \<Longrightarrow> reachable cfg (driver s)"
  unfolding reachable_def by (rule driver_part.part_reachable)

section \<open>Contexts\<close>

definition left_after :: "prepare_fn \<Rightarrow> run_config \<Rightarrow> nat \<Rightarrow> nat \<Rightarrow> nat option" where
  "left_after f cfg t i = (if shares_state f then None else Some (worker_count_of cfg t - i))"

text \<open>What the program counter of a worker says of its closure.\<close>

fun runner_inv :: "prepare_fn \<Rightarrow> run_config \<Rightarrow> nat \<Rightarrow> wpc \<Rightarrow> 'dm closure option \<Rightarrow> bool" where
  "runner_inv f cfg t (GateWait _) c = (map_option contexts_left c = Some (left_after f cfg t 0))"
| "runner_inv f cfg t (RunIter i _) c = (map_option contexts_left c = Some (left_after f cfg t i))"
| "runner_inv f cfg t (FinishWait _ _) c =
     (map_option contexts_left c = Some (left_after f cfg t (worker_count_of cfg t)))"
| "runner_inv f cfg t (Completed _) c =
     (map_option contexts_left c = Some (left_after f cfg t (worker_count_of cfg t)))"
| "runner_inv f cfg t _ c = True"

definition sys_inv :: "prepare_fn \<Rightarrow> run_config \<Rightarrow> ('w, 'dm) system \<Rightarrow> bool" where
  "sys_inv f cfg s \<longleftrightarrow>
     run_inv cfg (driver s) \<and>
     (\<forall>t < worker_count cfg. runner_inv f cfg t (wpcs (driver s) t) (runners s t))"

lemma beside_keeps: "beside f (c, p) = (r, c', p') \<Longrightarrow> c' = c"
  by (auto simp: beside_def split: prod.splits)

lemma worker_env_keeps:
  "capture (worker_env E) who (c, p) = (r, c', p') \<Longrightarrow> c' = c"
  "read_clock (worker_env E) (c, p) = (r', c', p') \<Longrightarrow> c' = c"
  by (auto simp: capture_def read_clock_def worker_env_def dest: beside_keeps split: prod.splits sum.splits)

lemma runner_call_takes:
  "runner_call H P V (c, p) = (r, c', p') \<Longrightarrow>
     contexts_left c' = map_option (\<lambda>n. n - 1) (contexts_left c)"
  using call_takes_context [of H P V c p] by (simp add: runner_call_def)

text \<open>A measurement that is recorded has called the closure exactly once.\<close>

lemma measured_call_takes:
  assumes "measure_operation (worker_env E) origin per_op (runner_call H P V) (c, p) = (Ok x, c', p')"
  shows "contexts_left c' = map_option (\<lambda>n. n - 1) (contexts_left c)"
  using assms
  by (auto simp: measure_operation_def measure_current_thread_def io_bind_Inr_iff io_return_def Let_def
      split: if_splits dest!: worker_env_keeps runner_call_takes)

text \<open>What a step of the driver may do to another program counter.\<close>

inductive pc_step :: "run_config \<Rightarrow> nat \<Rightarrow> wpc \<Rightarrow> wpc \<Rightarrow> bool" for cfg t where
  pc_same: "pc_step cfg t pc pc"
| pc_wake_gate: "pc_step cfg t (GateWait a) (GateWait b)"
| pc_enter: "pc_step cfg t (GateWait a) (RunIter 0 [])"
| pc_finish: "\<not> i < worker_count_of cfg t \<Longrightarrow> pc_step cfg t (RunIter i rs) (FinishWait b rs)"
| pc_finish_done: "\<not> i < worker_count_of cfg t \<Longrightarrow> pc_step cfg t (RunIter i rs) (Completed rs)"
| pc_wake_finish: "pc_step cfg t (FinishWait a rs) (FinishWait b rs)"
| pc_complete: "pc_step cfg t (FinishWait a rs) (Completed rs)"
| pc_stop: "(case pc' of PrepFailed _ \<Rightarrow> True | PrepPanicked \<Rightarrow> True | Aborted _ \<Rightarrow> True | RunFailed _ \<Rightarrow> True
      | RunPanicked \<Rightarrow> True | _ \<Rightarrow> False) \<Longrightarrow> pc_step cfg t pc pc'"

lemma pc_step_inv: "pc_step cfg t pc pc' \<Longrightarrow> runner_inv f cfg t pc c \<Longrightarrow> runner_inv f cfg t pc' c"
  by (induction rule: pc_step.induct) (auto simp: left_after_def split: wpc.splits)

lemma pc_step_wake: "pc_step cfg t pc (wake_gate pc)" "pc_step cfg t pc (wake_finish pc)"
  by (cases pc; auto intro: pc_step.intros)+

lemma gate_check_pc: "pc_step cfg t (GateWait b) (gate_check d)"
  by (auto simp: gate_check_def leave_gate_def intro: pc_step.intros split: option.split)

lemma finish_check_pc: "pc_step cfg t (FinishWait b rs) (finish_check d rs)"
  by (auto simp: finish_check_def intro: pc_step.intros)

lemma finish_check_arrive_pc:
  "\<not> i < worker_count_of cfg t \<Longrightarrow> pc_step cfg t (RunIter i rs) (finish_check d rs)"
  by (auto simp: finish_check_def intro: pc_step.intros)

lemmas pc_intros = pc_same pc_step_wake gate_check_pc finish_check_pc finish_check_arrive_pc

text \<open>A step of the driver that is neither a preparation nor a measurement of the worker.\<close>

fun own_work :: "nat \<Rightarrow> action \<Rightarrow> bool" where
  "own_work u (Prepare t _) = (t = u)"
| "own_work u (Measure t _) = (t = u)"
| "own_work u _ = False"

lemma thread_only_no_work: "thread_only a \<Longrightarrow> \<not> own_work u a"
  by (cases a) auto

lemma exec_step_pc:
  assumes "exec_step cfg a d = Some d'" "\<not> own_work u a"
  shows "pc_step cfg u (wpcs d u) (wpcs d' u)"
proof -
  have stop: "pc_step cfg u pc (PrepFailed e)" "pc_step cfg u pc PrepPanicked" "pc_step cfg u pc RunPanicked"
    "pc_step cfg u pc (RunFailed e)" for pc e
    by (auto intro: pc_stop)
  from assms show ?thesis
    by (cases a)
       (auto simp: prepare_done_def gate_recheck_def measure_step_def finish_arrive_def finish_recheck_def
          worker_panic_def main_gate_def main_finish_def main_join_def spurious_gate_def
          spurious_finish_def spurious_main_def Let_def
          intro: pc_intros stop pc_wake_gate pc_wake_finish
          split: if_splits sum.splits wpc.splits mpc.splits bool.splits option.splits prod.splits)
qed

lemma runner_inv_frame:
  assumes "exec_step cfg a d = Some d'" "\<not> own_work u a" "runner_inv f cfg u (wpcs d u) c"
  shows "runner_inv f cfg u (wpcs d' u) c"
  using exec_step_pc [OF assms(1,2)] assms(3) by (rule pc_step_inv)

lemma runner_inv_prepared:
  assumes "call_prepare H P V f \<lparr>wrc_thread_id = t, wrc_iterations = worker_count_of cfg t\<rparr> p = (r, p')"
    and "exec_step cfg (Prepare t (prepared r)) d = Some d'"
  shows "runner_inv f cfg t (wpcs d' t) (case r of Inl _ \<Rightarrow> c0 | Inr c \<Rightarrow> Some c)"
proof (cases r)
  case (Inl e)
  with assms(2) show ?thesis by (auto simp: prepare_done_def split: if_splits)
next
  case (Inr c)
  have left: "contexts_left c = left_after f cfg t 0"
    using call_prepare_contexts assms(1) Inr by (fastforce simp: left_after_def)
  have "pc_step cfg t (GateWait True) (wpcs d' t)"
    using assms(2) Inr by (auto simp: prepare_done_def Let_def intro: gate_check_pc split: if_splits)
  then have "runner_inv f cfg t (wpcs d' t) (Some c)" by (rule pc_step_inv) (simp add: left)
  with Inr show ?thesis by simp
qed

lemma runner_inv_measured:
  assumes "measure_operation (worker_env E) origin per_op (runner_call H P V) (c, p) = (r, c', p')"
    and "exec_step cfg (Measure t r) d = Some d'" "runner_inv f cfg t (wpcs d t) (Some c)"
  shows "runner_inv f cfg t (wpcs d' t) (Some c')"
proof (cases r)
  case (Inl e)
  with assms(2) show ?thesis by (auto simp: measure_step_def split: wpc.splits if_splits)
next
  case (Inr x)
  have "contexts_left c' = map_option (\<lambda>n. n - 1) (contexts_left c)"
    using measured_call_takes assms(1) Inr by blast
  with Inr assms(2,3) show ?thesis
    by (auto simp: measure_step_def left_after_def split: wpc.splits if_splits prod.splits)
qed

lemma sys_inv_step:
  assumes "sys_inv f cfg s" "sys_step H P V E f cfg a s = Some s'"
  shows "sys_inv f cfg s'"
proof -
  have R: "run_inv cfg (driver s')"
    using sys_step_driver [OF assms(2)] assms(1) exec_step_inv by (auto simp: sys_inv_def)
  have I: "runner_inv f cfg u (wpcs (driver s) u) (runners s u)" if "u < worker_count cfg" for u
    using assms(1) that by (simp add: sys_inv_def)
  have "runner_inv f cfg u (wpcs (driver s') u) (runners s' u)" if u: "u < worker_count cfg" for u
  proof (cases a)
    case (SysPrepare t)
    then obtain r p' d' where
      c: "call_prepare H P V f \<lparr>wrc_thread_id = t, wrc_iterations = worker_count_of cfg t\<rparr> (world s) = (r, p')"
      and d: "exec_step cfg (Prepare t (prepared r)) (driver s) = Some d'" and s': "driver s' = d'"
        "runners s' = (case r of Inl _ \<Rightarrow> runners s | Inr c \<Rightarrow> (runners s)(t := Some c))"
      using assms(2) by (auto simp: sys_prepare_def simp del: exec_step.simps split: prod.splits)
    show ?thesis
      using runner_inv_prepared [OF c d, of "runners s t"] runner_inv_frame [OF d _ I [OF u]] s'
      by (cases "u = t") (auto split: sum.splits)
  next
    case (SysMeasure t)
    then obtain c origin r c' p' d' where t: "runners s t = Some c"
      and m: "measure_operation (worker_env E) origin (measure_per_op_usage cfg) (runner_call H P V)
        (c, world s) = (r, c', p')"
      and d: "exec_step cfg (Measure t r) (driver s) = Some d'" and s': "driver s' = d'"
        "runners s' = (runners s)(t := Some c')"
      using assms(2)
      by (auto simp: sys_measure_def simp del: exec_step.simps split: prod.splits option.splits)
    show ?thesis
      using runner_inv_measured [OF m d] I [OF u] t runner_inv_frame [OF d _ I [OF u]] s'
      by (cases "u = t") auto
  next
    case SysMainGate
    then show ?thesis
      using assms(2) runner_inv_frame [OF _ _ I [OF u]]
      by (auto simp: sys_main_gate_def Let_def simp del: exec_step.simps split: prod.splits if_splits)
  next
    case SysMainFinish
    then show ?thesis
      using assms(2) runner_inv_frame [OF _ _ I [OF u]]
      by (auto simp: sys_main_finish_def Let_def simp del: exec_step.simps split: prod.splits if_splits)
  next
    case (SysThread b)
    then show ?thesis
      using assms(2) runner_inv_frame [OF _ thread_only_no_work I [OF u]]
      by (auto simp del: exec_step.simps split: if_splits)
  qed
  with R show ?thesis by (simp add: sys_inv_def)
qed

interpretation system_machine:
  machine_invariant "sys_step H P V E f cfg" "sys_init p" "sys_inv f cfg" for H P V E f cfg p
proof unfold_locales
  show "sys_inv f cfg (sys_init p)"
    using run_inv_init [of cfg] by (simp add: sys_inv_def sys_init_def init_state_def)
qed (rule sys_inv_step)

lemma sys_reachable_inv: "reaches (sys_step H P V E f cfg) (sys_init p) s \<Longrightarrow> sys_inv f cfg s"
  by (rule system_machine.invar_reachable)

lemma left_after_total:
  "left_after f cfg t (worker_count_of cfg t) = (if shares_state f then None else Some 0)"
  by (simp add: left_after_def)

text \<open>
  C4: in the composed machine a measured call always finds a context. Whenever a worker is about to
  measure, its closure is there and, unless the operation shares its prepared state, holds exactly the
  contexts of the iterations still to come, so none of the operations runs into the exhausted branch.
\<close>

theorem system_never_exhausted:
  assumes "reaches (sys_step H P V E f cfg) (sys_init p) s" "t < worker_count cfg"
    and "wpcs (driver s) t = RunIter i rs" "i < worker_count_of cfg t"
  shows "\<exists>c. runners s t = Some c \<and> contexts_left c \<noteq> Some 0 \<and>
    contexts_left c = (if shares_state f then None else Some (worker_count_of cfg t - i))"
proof -
  have "runner_inv f cfg t (wpcs (driver s) t) (runners s t)"
    using sys_reachable_inv [OF assms(1)] assms(2) by (simp add: sys_inv_def)
  then obtain c where "runners s t = Some c" "contexts_left c = left_after f cfg t i"
    using assms(3) by auto
  with assms(4) show ?thesis by (simp add: left_after_def)
qed

text \<open>
  C5: a run of the whole program that returns a report has measured the instances \<open>0, ..., total - 1\<close> in
  order, and every worker has used up its prepared contexts: no context is left over and none was asked
  for that had not been prepared.
\<close>

theorem system_run_uses_every_context:
  assumes "reaches (sys_step H P V E f cfg) (sys_init p) s" "main_pc (driver s) = MReturned (Ok out)"
    and "0 < worker_count cfg" "total cfg \<le> u64_max"
  shows "map instance_id (measurements out) = [0..<total cfg] \<and>
    (\<forall>t < worker_count cfg. \<exists>c. runners s t = Some c \<and>
       contexts_left c = (if shares_state f then None else Some 0))"
proof -
  have I: "sys_inv f cfg s" by (rule sys_reachable_inv) fact
  have R: "run_inv cfg (driver s)" using I by (simp add: sys_inv_def)
  then have "is_finished (wpcs (driver s) t)" if "t < worker_count cfg" for t
    using not_released_while_running [OF R that] assms(2) by (auto simp: run_inv_def)
  moreover have "runner_inv f cfg t (wpcs (driver s) t) (runners s t)" if "t < worker_count cfg" for t
    using I that by (simp add: sys_inv_def)
  ultimately have "\<exists>c. runners s t = Some c \<and> contexts_left c = (if shares_state f then None else Some 0)"
    if "t < worker_count cfg" for t
    using that by (cases "wpcs (driver s) t") (fastforce simp: left_after_total)+
  moreover have "map instance_id (measurements out) = [0..<total cfg]"
    using R assms(2) joined_ids_all [OF assms(3,4)] by (simp add: run_inv_def)
  ultimately show ?thesis by simp
qed

definition frozen_env :: "'w bench_env" where
  "frozen_env = \<lparr>env_now = (\<lambda>w. (0, w)),
     env_getrusage = (\<lambda>w _. (Ok \<lparr>ru_utime = \<lparr>tv_sec = 0, tv_usec = 0\<rparr>, ru_stime = \<lparr>tv_sec = 0, tv_usec = 0\<rparr>,
        ru_minflt = 0, ru_majflt = 0, ru_nvcsw = 0, ru_nivcsw = 0\<rparr>, w))\<rparr>"

definition two_vms_start :: "sys_action list" where
  "two_vms_start = [SysPrepare 0, SysMainGate, SysThread (GateRecheck 0), SysMeasure 0]"

definition two_vms_rest :: "sys_action list" where
  "two_vms_rest = [SysMeasure 0, SysThread (FinishArrive 0), SysMainFinish, SysThread (FinishRecheck 0),
     SysThread MainJoin, SysThread MainJoin]"

definition idle_proc :: "nat proc_host" where
  "idle_proc = \<lparr>p_remove_file = (\<lambda>_ w. (Ok (), w)), p_spawn = (\<lambda>_ w. (Ok 1, w)),
     p_try_wait = (\<lambda>_ w. (Ok None, w)), p_exists = (\<lambda>_ w. (True, w)), p_connect = (\<lambda>_ w. (Ok (), w)),
     p_sleep = (\<lambda>_ w. w), p_kill = (\<lambda>_ w. (Ok (), w)), p_wait = (\<lambda>_ w. (Ok [], w))\<rparr>"

definition two_vms_step :: "sys_action \<Rightarrow> (nat, unit) system \<Rightarrow> (nat, unit) system option" where
  "two_vms_step = sys_step plain_host idle_proc plain_api frozen_env Prepare_vm_new two_vms"

lemma two_vms_measure:
  "measure_operation (worker_env frozen_env) 0 False (runner_call plain_host idle_proc plain_api)
     (VmNewClosure (x # xs, ys), p) = (Ok (0, 0, usage_zero), VmNewClosure (xs, ys), p)"
  by (simp add: measure_operation_def worker_env_def frozen_env_def beside_def read_clock_def io_bind_def
      Let_def micros_between_def as_u64_def rust_arith u64_max_def runner_call_def run_vm_new_def run_next_def
      vm_new_def call_def on_host_def plain_api_def io_map_err_def io_return_def)

lemma two_vms_facts [simp]:
  "worker_count two_vms = 1" "worker_count_of two_vms 0 = 2" "worker_offset_of two_vms 0 = 0"
  "measure_per_op_usage two_vms = False"
  by (simp_all add: two_vms_def worker_count_def worker_count_of_def worker_offset_of_def iteration_count_def
      iteration_offset_def rust_arith)

lemma frozen_env_facts [simp]:
  "env_now frozen_env p = (0, p)"
  "capture_current_process_usage frozen_env p = (Ok (snap_example 0 0), p)"
  by (simp_all add: frozen_env_def capture_current_process_usage_def capture_def snapshot_of_rusage_def
      snap_example_def timeval_to_micros_def as_u64_def rust_arith u64_max_def)

lemmas sys_eval = two_vms_step_def two_vms_start_def two_vms_rest_def sys_init_def sys_prepare_def
  sys_measure_def sys_main_gate_def sys_main_finish_def two_vms_prepared [simplified] two_vms_measure
  init_state_def prepare_done_def gate_recheck_def gate_check_def leave_gate_def notify_gate_def
  notify_finish_def set_wpc_def main_gate_def measure_step_def finish_arrive_def finish_check_def
  finish_recheck_def main_finish_def main_join_def Let_def

lemma two_vms_started:
  "\<exists>s rs. exec_all two_vms_step two_vms_start (sys_init plain_proc) = Some s \<and>
     wpcs (driver s) 0 = RunIter 1 rs"
  by (simp add: sys_eval)

theorem system_never_exhausted_witness:
  "\<exists>s rs. exec_all two_vms_step two_vms_start (sys_init plain_proc) = Some s \<and>
     wpcs (driver s) 0 = RunIter 1 rs \<and>
     (\<exists>c. runners s 0 = Some c \<and> contexts_left c \<noteq> Some 0 \<and>
        contexts_left c =
          (if shares_state Prepare_vm_new then None else Some (worker_count_of two_vms 0 - 1)))"
proof -
  obtain s rs where s: "exec_all two_vms_step two_vms_start (sys_init plain_proc) = Some s"
    "wpcs (driver s) 0 = RunIter 1 rs" using two_vms_started by blast
  have r: "reaches two_vms_step (sys_init plain_proc) s" by (rule exec_all_reaches) (rule s(1))
  show ?thesis
    by (rule exI, rule exI, rule conjI [OF s(1) conjI [OF s(2)
          system_never_exhausted [OF r [unfolded two_vms_step_def] _ s(2)]]]) simp_all
qed

lemma two_vms_returns:
  "\<exists>s out. exec_all two_vms_step (two_vms_start @ two_vms_rest) (sys_init plain_proc) = Some s \<and>
     main_pc (driver s) = MReturned (Ok out)"
  by (simp add: sys_eval)

theorem system_run_uses_every_context_witness:
  "\<exists>s out. exec_all two_vms_step (two_vms_start @ two_vms_rest) (sys_init plain_proc) = Some s \<and>
     main_pc (driver s) = MReturned (Ok out) \<and>
     (map instance_id (measurements out) = [0..<total two_vms] \<and>
      (\<forall>t < worker_count two_vms. \<exists>c. runners s t = Some c \<and>
         contexts_left c = (if shares_state Prepare_vm_new then None else Some 0)))"
proof -
  obtain s out where s: "exec_all two_vms_step (two_vms_start @ two_vms_rest) (sys_init plain_proc) = Some s"
    "main_pc (driver s) = MReturned (Ok out)" using two_vms_returns by blast
  have r: "reaches two_vms_step (sys_init plain_proc) s" by (rule exec_all_reaches) (rule s(1))
  have "total two_vms \<le> u64_max" by (simp add: two_vms_def u64_max_def)
  then show ?thesis
    by - (rule exI, rule exI, rule conjI [OF s(1) conjI [OF s(2)
          system_run_uses_every_context [OF r [unfolded two_vms_step_def] s(2)]]], simp_all)
qed

end
