(* ===== verification/Uffd.thy ===== *)
theory Uffd
  imports Prelude "HOL-Library.Word"
begin

text \<open>
  The page fault handlers for snapshot memory,
  src/firecracker-build/fc-change-set/src/firecracker/examples/uffd: the mappings received from
  Firecracker and the service of one page fault (uffd_utils.rs), the loop over the events of a
  userfaultfd (on_demand_handler.rs), and the poll loop of the runtime. Addresses, sizes and
  offsets are 64-bit words with wrapping arithmetic, as in a release build. A panic is the
  value \<open>None\<close>. The userfaultfd, the socket, \<open>poll\<close> and the JSON parser are not part of this
  code: they are fields of a record over a world.
\<close>

unbundle bit_operations_syntax

section \<open>Data\<close>

record region =
  base_host_virt_addr :: u64
  r_size :: u64
  r_offset :: u64
  r_page_size :: u64

record uffd_handler =
  mem_regions :: "region list"
  page_size :: u64
  backing_buffer :: u64
  uffd :: nat

datatype copy_result =
    CopyOk u64
  | PartiallyCopied u64
  | CopyFailed int
  | CopyOther string

datatype uffd_event =
    Pagefault u64
  | Remove u64 u64
  | OtherEvent

record 'w uffd_host =
  u_copy :: "nat \<Rightarrow> u64 \<Rightarrow> u64 \<Rightarrow> u64 \<Rightarrow> 'w \<Rightarrow> copy_result \<times> 'w"
  u_unregister :: "nat \<Rightarrow> u64 \<Rightarrow> u64 \<Rightarrow> 'w \<Rightarrow> bool \<times> 'w"
  u_read_event :: "nat \<Rightarrow> 'w \<Rightarrow> (string + uffd_event option) \<times> 'w"
  u_recv_with_fd :: "'w \<Rightarrow> (string + string option \<times> nat option) \<times> 'w"
  u_json :: "string \<Rightarrow> region list option"
  u_sleep :: "nat \<Rightarrow> 'w \<Rightarrow> 'w"

section \<open>Mappings\<close>

definition contains :: "region \<Rightarrow> u64 \<Rightarrow> bool" where
  "contains r fault_page_addr =
     (base_host_virt_addr r \<le> fault_page_addr \<and> fault_page_addr < base_host_virt_addr r + r_size r)"

text \<open>
  \<open>try_get_mappings_and_file\<close>: the message with its optional descriptor; a body that is not
  UTF-8 panics, which the host reports as a missing body.
\<close>

definition try_get_mappings_and_file ::
  "'w uffd_host \<Rightarrow> 'w \<Rightarrow> (string + string \<times> nat option) option \<times> 'w" where
  "try_get_mappings_and_file U w =
     (case u_recv_with_fd U w of
        (Inl e, w') \<Rightarrow> (Some (Err e), w')
      | (Inr (None, fd), w') \<Rightarrow> (None, w')
      | (Inr (Some body, fd), w') \<Rightarrow> (Some (Ok (body, fd)), w'))"

fun get_mappings_loop :: "'w uffd_host \<Rightarrow> nat \<Rightarrow> 'w \<Rightarrow> (string \<times> nat) option \<times> 'w" where
  "get_mappings_loop U 0 w = (None, w)"
| "get_mappings_loop U (Suc n) w =
     (case try_get_mappings_and_file U w of
        (None, w') \<Rightarrow> (None, w')
      | (Some (Inr (body, Some fd)), w') \<Rightarrow> (Some (body, fd), w')
      | (Some _, w') \<Rightarrow> get_mappings_loop U n (u_sleep U 100 w'))"

definition get_mappings_and_file :: "'w uffd_host \<Rightarrow> 'w \<Rightarrow> (string \<times> nat) option \<times> 'w" where
  "get_mappings_and_file U = get_mappings_loop U 5"

definition is_power_of_two :: "u64 \<Rightarrow> bool" where
  "is_power_of_two x = (x \<noteq> 0 \<and> x AND (x - 1) = 0)"

definition from_unix_stream ::
  "'w uffd_host \<Rightarrow> u64 \<Rightarrow> u64 \<Rightarrow> 'w \<Rightarrow> uffd_handler option \<times> 'w" where
  "from_unix_stream U buffer bsize w =
     (case get_mappings_and_file U w of
        (None, w') \<Rightarrow> (None, w')
      | (Some (body, fd), w') \<Rightarrow>
          (case u_json U body of
             None \<Rightarrow> (None, w')
           | Some mappings \<Rightarrow>
               (let memsize = sum_list (map r_size mappings) in
                (case mappings of
                   [] \<Rightarrow> (None, w')
                 | first # _ \<Rightarrow>
                     (if memsize = bsize \<and> is_power_of_two (r_page_size first) then
                        (Some \<lparr>mem_regions = mappings, page_size = r_page_size first,
                               backing_buffer = buffer, uffd = fd\<rparr>, w')
                      else (None, w'))))))"

definition from_unix_stream_remote :: "'w uffd_host \<Rightarrow> 'w \<Rightarrow> uffd_handler option \<times> 'w" where
  "from_unix_stream_remote U w =
     (case get_mappings_and_file U w of
        (None, w') \<Rightarrow> (None, w')
      | (Some (body, fd), w') \<Rightarrow>
          (case u_json U body of
             None \<Rightarrow> (None, w')
           | Some [] \<Rightarrow> (None, w')
           | Some (first # rest) \<Rightarrow>
               (if is_power_of_two (r_page_size first) then
                  (Some \<lparr>mem_regions = first # rest, page_size = r_page_size first,
                         backing_buffer = 0, uffd = fd\<rparr>, w')
                else (None, w'))))"

section \<open>Page faults\<close>

definition page_base :: "u64 \<Rightarrow> u64 \<Rightarrow> u64" where
  "page_base ps addr = addr AND NOT (ps - 1)"

definition file_offset_for_addr :: "uffd_handler \<Rightarrow> u64 \<Rightarrow> (u64 \<times> u64) option" where
  "file_offset_for_addr h addr =
     (let dst = page_base (page_size h) addr in
      (case find (\<lambda>r. contains r dst) (mem_regions h) of
         None \<Rightarrow> None
       | Some r \<Rightarrow> Some (dst, r_offset r + (dst - base_host_virt_addr r))))"

definition EAGAIN_usize :: u64 where "EAGAIN_usize = of_int (- 11)"
definition EEXIST :: int where "EEXIST = 17"

fun copy_outcome :: "copy_result \<Rightarrow> bool option" where
  "copy_outcome (CopyOk value) = (if 0 < value then Some True else None)"
| "copy_outcome (PartiallyCopied n) = (if n = 0 \<or> n = EAGAIN_usize then Some False else None)"
| "copy_outcome (CopyFailed errno) = (if errno = EEXIST then Some True else None)"
| "copy_outcome (CopyOther e) = None"

definition copy_from_ptr ::
  "'w uffd_host \<Rightarrow> uffd_handler \<Rightarrow> u64 \<Rightarrow> u64 \<Rightarrow> u64 \<Rightarrow> 'w \<Rightarrow> bool option \<times> 'w" where
  "copy_from_ptr U h src dst len w =
     (case u_copy U (uffd h) src dst len w of (r, w') \<Rightarrow> (copy_outcome r, w'))"

definition populate_from_file ::
  "'w uffd_host \<Rightarrow> uffd_handler \<Rightarrow> region \<Rightarrow> u64 \<Rightarrow> u64 \<Rightarrow> 'w \<Rightarrow> bool option \<times> 'w" where
  "populate_from_file U h r dst len =
     (let offset = dst - base_host_virt_addr r;
          src = backing_buffer h + r_offset r + offset
      in copy_from_ptr U h src dst len)"

definition serve_pf :: "'w uffd_host \<Rightarrow> uffd_handler \<Rightarrow> u64 \<Rightarrow> u64 \<Rightarrow> 'w \<Rightarrow> bool option \<times> 'w" where
  "serve_pf U h addr len w =
     (let dst = page_base (page_size h) addr in
      (case find (\<lambda>r. contains r dst) (mem_regions h) of
         None \<Rightarrow> (None, w)
       | Some r \<Rightarrow> populate_from_file U h r dst len w))"

definition is_multiple_of :: "u64 \<Rightarrow> u64 \<Rightarrow> bool" where
  "is_multiple_of x n = (if n = 0 then x = 0 else x mod n = 0)"

definition unregister_range ::
  "'w uffd_host \<Rightarrow> uffd_handler \<Rightarrow> u64 \<Rightarrow> u64 \<Rightarrow> 'w \<Rightarrow> unit option \<times> 'w" where
  "unregister_range U h start stop w =
     (if is_multiple_of start (page_size h) \<and> is_multiple_of stop (page_size h) \<and> start < stop then
        (case u_unregister U (uffd h) start (stop - start) w of
           (ok, w') \<Rightarrow> (if ok then Some () else None, w'))
      else (None, w))"

section \<open>The event loop\<close>

text \<open>
  What a handler does to a page fault: \<open>serve_pf\<close> with the page size here, the remote variant in
  theory \<open>Uffd_Remote\<close>. Both handlers have the same loop. Here and in the loops the outer option
  is \<open>None\<close> when the code does not return.
\<close>

type_synonym ('c, 'w) server = "u64 \<Rightarrow> 'c \<Rightarrow> 'w \<Rightarrow> (bool option \<times> 'c \<times> 'w) option"

text \<open>The \<open>for\<close> loop over the events of a round: the deferred events and the copied pages.\<close>

fun handle_events ::
  "'w uffd_host \<Rightarrow> uffd_handler \<Rightarrow> ('c, 'w) server \<Rightarrow> uffd_event list \<Rightarrow> uffd_event list \<Rightarrow> u64 \<Rightarrow> 'c \<Rightarrow> 'w \<Rightarrow>
     ((uffd_event list \<times> u64 \<times> 'c) option \<times> 'w) option" where
  "handle_events U h serve [] deferred copied c w = Some (Some (deferred, copied, c), w)"
| "handle_events U h serve (ev # evs) deferred copied c w =
     (case ev of
        Pagefault addr \<Rightarrow>
          (case serve addr c w of
             None \<Rightarrow> None
           | Some (None, c', w') \<Rightarrow> Some (None, w')
           | Some (Some True, c', w') \<Rightarrow> handle_events U h serve evs deferred (copied + 1) c' w'
           | Some (Some False, c', w') \<Rightarrow> handle_events U h serve evs (deferred @ [ev]) copied c' w')
      | Remove start stop \<Rightarrow>
          (case unregister_range U h start stop w of
             (None, w') \<Rightarrow> Some (None, w')
           | (Some _, w') \<Rightarrow> handle_events U h serve evs deferred copied c w')
      | OtherEvent \<Rightarrow> Some (None, w))"

text \<open>
  \<open>while let Some(event) = read_event()\<close>: the loop ends only when the queue is empty.
\<close>

partial_function (option) read_events ::
  "'w uffd_host \<Rightarrow> uffd_handler \<Rightarrow> uffd_event list \<Rightarrow> 'w \<Rightarrow> (uffd_event list option \<times> 'w) option" where
  "read_events U h acc w =
     (case u_read_event U (uffd h) w of
        (Inl e, w') \<Rightarrow> Some (None, w')
      | (Inr None, w') \<Rightarrow> Some (Some acc, w')
      | (Inr (Some ev), w') \<Rightarrow> read_events U h (acc @ [ev]) w')"

partial_function (option) dispatch_loop ::
  "'w uffd_host \<Rightarrow> uffd_handler \<Rightarrow> ('c, 'w) server \<Rightarrow> uffd_event list \<Rightarrow> u64 \<Rightarrow> 'c \<Rightarrow> 'w \<Rightarrow>
     ((u64 \<times> 'c) option \<times> 'w) option" where
  "dispatch_loop U h serve deferred copied c w =
     (case read_events U h deferred w of
        None \<Rightarrow> None
      | Some (None, w1) \<Rightarrow> Some (None, w1)
      | Some (Some evs, w1) \<Rightarrow>
          (case handle_events U h serve evs [] copied c w1 of
             None \<Rightarrow> None
           | Some (None, w2) \<Rightarrow> Some (None, w2)
           | Some (Some (deferred', copied', c'), w2) \<Rightarrow>
               (if deferred' = [] then Some (Some (copied', c'), w2)
                else dispatch_loop U h serve deferred' copied' c' w2)))"

definition serve_local :: "'w uffd_host \<Rightarrow> uffd_handler \<Rightarrow> (unit, 'w) server" where
  "serve_local U h addr c w = (case serve_pf U h addr (page_size h) w of (r, w') \<Rightarrow> Some (r, c, w'))"

definition on_demand_dispatch ::
  "'w uffd_host \<Rightarrow> uffd_handler \<Rightarrow> u64 \<Rightarrow> 'w \<Rightarrow> ((u64 \<times> unit) option \<times> 'w) option" where
  "on_demand_dispatch U h copied w = dispatch_loop U h (serve_local U h) [] copied () w"

section \<open>Page arithmetic\<close>

lemma and_not_mask: "(a :: u64) AND NOT (mask k) = push_bit k (drop_bit k a)"
  by (rule bit_word_eqI) (auto simp: bit_simps)

lemma unat_exp: "k < 64 \<Longrightarrow> unat ((2 :: u64) ^ k) = 2 ^ k"
  using unsigned_of_nat [where 'b = 64 and 'a = nat, of "2 ^ k"] by simp

lemma unat_page_base:
  assumes "k < 64"
  shows "unat (page_base (2 ^ k) a) = unat a div 2 ^ k * 2 ^ k"
proof -
  have le: "unat a div 2 ^ k * 2 ^ k \<le> unat a" by (simp add: div_times_less_eq_dividend)
  have "page_base (2 ^ k) a = push_bit k (drop_bit k a)"
    by (simp add: page_base_def and_not_mask flip: mask_eq_exp_minus_1)
  then have "unat (page_base (2 ^ k) a) = take_bit (LENGTH(64)) (push_bit k (drop_bit k (unat a)))"
    using take_bit_nat_eq_self [OF unsigned_less [of a]]
    by (simp only: unsigned_push_bit_eq unsigned_drop_bit_eq)
  also have "\<dots> = take_bit 64 (unat a div 2 ^ k * 2 ^ k)"
    by (simp add: push_bit_eq_mult drop_bit_eq_div)
  also have "\<dots> = unat a div 2 ^ k * 2 ^ k"
    using le_less_trans [OF le unsigned_less [of a]] by (intro take_bit_nat_eq_self) simp
  finally show ?thesis .
qed

end
