(* ===== verification/Uffd_Props.thy ===== *)
theory Uffd_Props
  imports Uffd "HOL-Library.Sublist"
begin

text \<open>
  Properties of the page fault handlers: a fault is served from the right place of the memory
  file, and a round over the events loses no page fault.
\<close>

section \<open>Translation of fault addresses\<close>

text \<open>
  Mappings as Firecracker sends them: page-aligned regions of the address space that do not
  overlap and do not reach its end.
\<close>

definition in_region :: "region \<Rightarrow> u64 \<Rightarrow> bool" where
  "in_region r a =
     (unat (base_host_virt_addr r) \<le> unat a \<and>
      unat a < unat (base_host_virt_addr r) + unat (r_size r))"

definition regions_wf :: "nat \<Rightarrow> region list \<Rightarrow> bool" where
  "regions_wf k rs =
     ((\<forall>r \<in> set rs. unat (base_host_virt_addr r) + unat (r_size r) < 2 ^ 64 \<and>
                    2 ^ k dvd unat (base_host_virt_addr r)) \<and>
      (\<forall>r \<in> set rs. \<forall>r' \<in> set rs. \<forall>a. in_region r a \<and> in_region r' a \<longrightarrow> r = r'))"

lemma contains_in_region:
  assumes "unat (base_host_virt_addr r) + unat (r_size r) < 2 ^ 64"
  shows "contains r a \<longleftrightarrow> in_region r a"
proof -
  have "unat (base_host_virt_addr r + r_size r) = unat (base_host_virt_addr r) + unat (r_size r)"
    using assms by (intro unat_add_no_overflow) simp
  then show ?thesis by (simp add: contains_def in_region_def word_le_nat_alt word_less_nat_alt)
qed

lemma page_base_bounds:
  assumes "k < 64"
  shows "unat (page_base (2 ^ k) a) \<le> unat a" "unat a < unat (page_base (2 ^ k) a) + 2 ^ k"
proof -
  show "unat (page_base (2 ^ k) a) \<le> unat a"
    using assms by (simp add: unat_page_base div_times_less_eq_dividend)
  have "unat a mod 2 ^ k < 2 ^ k" by simp
  moreover have "unat a = unat a div 2 ^ k * 2 ^ k + unat a mod 2 ^ k" by (simp only: div_mult_mod_eq)
  ultimately show "unat a < unat (page_base (2 ^ k) a) + 2 ^ k"
    unfolding unat_page_base [OF assms] by linarith
qed

lemma page_base_in_region:
  assumes "k < 64" "2 ^ k dvd unat (base_host_virt_addr r)" "in_region r a"
  shows "in_region r (page_base (2 ^ k) a)"
proof -
  obtain q where q: "unat (base_host_virt_addr r) = 2 ^ k * q" using assms(2) by (rule dvdE)
  have "2 ^ k * q \<le> unat a" using assms(3) q by (simp add: in_region_def)
  then have "q \<le> unat a div 2 ^ k" by (simp add: less_eq_div_iff_mult_less_eq mult.commute)
  then have "unat (base_host_virt_addr r) \<le> unat (page_base (2 ^ k) a)"
    unfolding unat_page_base [OF assms(1)] q by (simp add: mult.commute)
  with assms(3) page_base_bounds(1) [OF assms(1), of a] show ?thesis by (simp add: in_region_def)
qed

lemma find_unique:
  assumes "x \<in> set xs" "P x" "\<And>y. y \<in> set xs \<Longrightarrow> P y \<Longrightarrow> y = x"
  shows "find P xs = Some x"
  using assms
proof (induction xs)
  case (Cons y ys)
  show ?case
  proof (cases "P y")
    case True
    then have "y = x" using Cons.prems(3) [of y] by simp
    with True show ?thesis by simp
  next
    case False
    then have "x \<in> set ys" using Cons.prems(1,2) by auto
    then have "find P ys = Some x"
      using Cons.prems(2)
    proof (rule Cons.IH)
      fix z
      assume "z \<in> set ys" "P z"
      then show "z = x" by (intro Cons.prems(3)) simp_all
    qed
    with False show ?thesis by simp
  qed
qed simp

lemma find_region:
  assumes "regions_wf k rs" "k < 64" "r \<in> set rs" "in_region r a"
  shows "find (\<lambda>r. contains r (page_base (2 ^ k) a)) rs = Some r"
proof (rule find_unique [OF assms(3)])
  have wf: "unat (base_host_virt_addr x) + unat (r_size x) < 2 ^ 64"
    "2 ^ k dvd unat (base_host_virt_addr x)" if "x \<in> set rs" for x
    using assms(1) that unfolding regions_wf_def by blast+
  have dst: "in_region r (page_base (2 ^ k) a)"
    using wf(2) [OF assms(3)] assms(2,4) by (intro page_base_in_region)
  then show "contains r (page_base (2 ^ k) a)" using wf(1) [OF assms(3)] contains_in_region by blast
  fix y
  assume y: "y \<in> set rs" "contains y (page_base (2 ^ k) a)"
  then have "in_region y (page_base (2 ^ k) a)" using wf(1) contains_in_region by blast
  with dst y(1) assms(1,3) show "y = r" unfolding regions_wf_def by blast
qed

text \<open>
  C29: a page fault is served from the right place. For well-formed mappings and a page size
  that is a power of two, a fault at any address of a region is resolved to the page that
  contains the address and to the offset of that page in the memory file: the distance of the
  page from the base of the region is added to the offset of the region; the local handler
  copies exactly from there.
\<close>

theorem fault_served_from_file_offset:
  assumes "page_size h = 2 ^ k" "k < 64" "regions_wf k (mem_regions h)"
    and "r \<in> set (mem_regions h)" "in_region r addr"
  shows "file_offset_for_addr h addr =
      Some (page_base (2 ^ k) addr, r_offset r + (page_base (2 ^ k) addr - base_host_virt_addr r)) \<and>
    unat (page_base (2 ^ k) addr) \<le> unat addr \<and> unat addr < unat (page_base (2 ^ k) addr) + 2 ^ k \<and>
    serve_pf U h addr len w =
      copy_from_ptr U h (backing_buffer h + r_offset r + (page_base (2 ^ k) addr - base_host_virt_addr r))
        (page_base (2 ^ k) addr) len w"
  using find_region [OF assms(3,2,4,5)] page_base_bounds [OF assms(2), of addr]
  by (simp add: file_offset_for_addr_def serve_pf_def populate_from_file_def assms(1) Let_def)

section \<open>Outcomes of a copy\<close>

lemma copy_from_ptr_outcome:
  "fst (copy_from_ptr U h src dst len w) = Some b \<longleftrightarrow>
     (case fst (u_copy U (uffd h) src dst len w) of
        CopyOk n \<Rightarrow> b \<and> 0 < n
      | PartiallyCopied n \<Rightarrow> \<not> b \<and> (n = 0 \<or> n = EAGAIN_usize)
      | CopyFailed e \<Rightarrow> b \<and> e = EEXIST
      | CopyOther _ \<Rightarrow> False)"
  by (auto simp: copy_from_ptr_def split: prod.split copy_result.split)

section \<open>Rounds of events\<close>

fun is_pagefault :: "uffd_event \<Rightarrow> bool" where
  "is_pagefault (Pagefault _) = True"
| "is_pagefault _ = False"

lemma handle_events_account:
  assumes "handle_events U h serve evs deferred copied c w = Some (Some (deferred', copied', c'), w')"
  shows "\<exists>new. deferred' = deferred @ new \<and> subseq new (filter is_pagefault evs) \<and>
    copied' + of_nat (length new) = copied + of_nat (length (filter is_pagefault evs))"
  using assms
proof (induction evs arbitrary: deferred copied c w)
  case Nil
  then show ?case by simp
next
  case (Cons ev evs)
  show ?case
  proof (cases ev)
    case (Pagefault addr)
    from Cons.prems Pagefault obtain b c1 w1 where s: "serve addr c w = Some (b, c1, w1)"
      by (cases "serve addr c w") auto
    with Cons.prems Pagefault obtain ok where ok: "b = Some ok"
      by (cases b) auto
    show ?thesis
    proof (cases ok)
      case True
      with Cons.prems Pagefault s ok
      have "handle_events U h serve evs deferred (copied + 1) c1 w1 = Some (Some (deferred', copied', c'), w')"
        by simp
      from Cons.IH [OF this] obtain new where "deferred' = deferred @ new"
        "subseq new (filter is_pagefault evs)"
        "copied' + of_nat (length new) = copied + 1 + of_nat (length (filter is_pagefault evs))" by blast
      then show ?thesis using Pagefault by (intro exI [of _ new]) (auto simp: algebra_simps)
    next
      case False
      with Cons.prems Pagefault s ok
      have "handle_events U h serve evs (deferred @ [ev]) copied c1 w1 = Some (Some (deferred', copied', c'), w')"
        by simp
      from Cons.IH [OF this] obtain new where "deferred' = (deferred @ [ev]) @ new"
        "subseq new (filter is_pagefault evs)"
        "copied' + of_nat (length new) = copied + of_nat (length (filter is_pagefault evs))" by blast
      then show ?thesis using Pagefault by (intro exI [of _ "ev # new"]) (auto simp: algebra_simps)
    qed
  next
    case (Remove start stop)
    with Cons show ?thesis by (auto split: prod.splits option.splits)
  next
    case OtherEvent
    with Cons.prems show ?thesis by simp
  qed
qed

text \<open>
  no page fault is lost in a round. After a round over the events, every page fault has
  either been counted as copied or is deferred to the next round, in the order of arrival;
  nothing else is deferred. The handler returns to polling only when nothing is deferred.
\<close>

theorem event_round_accounting:
  assumes "handle_events U h serve evs [] copied c w = Some (Some (deferred, copied', c'), w')"
  shows "subseq deferred (filter is_pagefault evs) \<and>
    copied' + of_nat (length deferred) = copied + of_nat (length (filter is_pagefault evs))"
  using handle_events_account [OF assms] by auto

text \<open>When every copy succeeds, nothing is deferred and one round is enough.\<close>

lemma handle_events_all_served:
  assumes "\<And>addr c w. \<exists>c' w'. serve addr c w = Some (Some True, c', w')"
    and "handle_events U h serve evs [] copied c w = Some (Some (deferred, copied', c'), w')"
  shows "deferred = []"
proof -
  have "deferred = d0" if "handle_events U h serve evs d0 k c w = Some (Some (deferred, copied', c'), w')"
    for evs d0 k c w
    using that
  proof (induction evs arbitrary: k c w)
    case (Cons ev evs)
    show ?case
    proof (cases ev)
      case (Pagefault addr)
      obtain c1 w1 where "serve addr c w = Some (Some True, c1, w1)" using assms(1) by blast
      with Cons Pagefault show ?thesis by simp
    next
      case (Remove start stop)
      with Cons show ?thesis by (auto split: prod.splits option.splits)
    next
      case OtherEvent
      with Cons.prems show ?thesis by simp
    qed
  qed simp
  from this [OF assms(2)] show ?thesis .
qed

section \<open>What a page server keeps\<close>

text \<open>
  The contract of the service of a page fault: it keeps an invariant of the state it captures. The
  loop over the events then keeps it too, however often events are deferred.
\<close>

locale page_server =
  fixes serve :: "('c, 'w) server" and inv :: "'c \<Rightarrow> bool"
  assumes serve_inv: "inv c \<Longrightarrow> serve addr c w = Some (Some b, c', w') \<Longrightarrow> inv c'"
begin

lemma handle_events_inv:
  assumes "handle_events U h serve evs deferred copied c w = Some (Some (d', n', c'), w')" "inv c"
  shows "inv c'"
  using assms
proof (induction evs arbitrary: deferred copied c w)
  case (Cons ev evs)
  show ?case
  proof (cases ev)
    case (Pagefault addr)
    with Cons.prems(1) obtain b c1 w1 where s: "serve addr c w = Some (Some b, c1, w1)"
      by (auto split: option.splits bool.splits)
    with Cons.prems(1) Pagefault
    have "\<exists>d n. handle_events U h serve evs d n c1 w1 = Some (Some (d', n', c'), w')"
      by (cases b) auto
    with Cons.IH serve_inv [OF Cons.prems(2) s] show ?thesis by blast
  next
    case (Remove start stop)
    with Cons show ?thesis by (auto split: prod.splits option.splits)
  next
    case OtherEvent
    with Cons.prems show ?thesis by simp
  qed
qed simp

lemma dispatch_loop_inv:
  assumes "dispatch_loop U h serve deferred copied c w = Some r" "inv c"
    and "r = (Some (copied', c'), w')"
  shows "inv c'"
proof -
  have "s = serve \<longrightarrow> inv c \<longrightarrow> (\<forall>copied' c' w'. r = (Some (copied', c'), w') \<longrightarrow> inv c')"
    if "dispatch_loop U h s deferred copied c w = Some r" for U h s deferred copied c w r
    using that
  proof (induction rule: dispatch_loop.raw_induct [rotated, consumes 1, case_names step])
    case (step loop U h s deferred copied c w r)
    show ?case
    proof (intro impI allI)
      fix copied' c' w'
      assume s: "s = serve" and inv: "inv c" and r: "r = (Some (copied', c'), w')"
      from step(2) r s obtain evs w1 d n c1 w2
        where h: "handle_events U h serve evs [] copied c w1 = Some (Some (d, n, c1), w2)"
          and rest: "(if d = [] then Some (Some (n, c1), w2) else loop U h serve d n c1 w2) = Some r"
        by (auto split: option.splits prod.splits)
      from handle_events_inv [OF h inv] have "inv c1" .
      with rest r step(1) [of U h serve d n c1 w2 r] show "inv c'" by (cases "d = []") auto
    qed
  qed
  from this [OF assms(1)] assms(2,3) show ?thesis by blast
qed

end

interpretation local_server: page_server "serve_local U h" "\<lambda>_. True"
  by unfold_locales simp

section \<open>A concrete handler\<close>

definition demo_region :: region where
  "demo_region = \<lparr>base_host_virt_addr = 0x10000, r_size = 0x4000, r_offset = 0x8000, r_page_size = 4096\<rparr>"

definition demo_handler :: uffd_handler where
  "demo_handler = \<lparr>mem_regions = [demo_region], page_size = 4096, backing_buffer = 0x100000, uffd = 3\<rparr>"

definition eager_uffd :: "u64 list uffd_host" where
  "eager_uffd =
     \<lparr> u_copy = (\<lambda>_ src dst len w. (if src \<in> set w then PartiallyCopied 0 else CopyOk len, src # w)),
       u_unregister = (\<lambda>_ _ _ w. (True, w)), u_read_event = (\<lambda>_ w. (Inr None, w)),
       u_recv_with_fd = (\<lambda>w. (Inl [], w)), u_json = (\<lambda>_. None), u_sleep = (\<lambda>_ w. w) \<rparr>"

theorem fault_served_from_file_offset_witness:
  "file_offset_for_addr demo_handler 0x12345 = Some (0x12000, 0xA000)"
proof -
  have "regions_wf 12 (mem_regions demo_handler)"
    by (simp add: regions_wf_def demo_handler_def demo_region_def)
  moreover have "in_region demo_region 0x12345" by (simp add: in_region_def demo_region_def)
  moreover have "page_base 4096 0x12345 = (0x12000 :: u64)" by (simp add: page_base_def)
  ultimately show ?thesis
    using fault_served_from_file_offset [of demo_handler 12 demo_region "0x12345" eager_uffd 4096 "[]"]
    by (simp add: demo_handler_def demo_region_def)
qed

theorem event_round_accounting_witness:
  "\<exists>d n w'. handle_events eager_uffd demo_handler (serve_local eager_uffd demo_handler)
       [Pagefault 0x10000, Pagefault 0x10008, Pagefault 0x11000] [] 0 () [] = Some (Some (d, n, ()), w') \<and>
     n + of_nat (length d) = 3"
proof -
  have pb: "page_base 4096 0x10000 = (0x10000 :: u64)" "page_base 4096 0x10008 = (0x10000 :: u64)"
    "page_base 4096 0x11000 = (0x11000 :: u64)" by (simp_all add: page_base_def)
  obtain d n w' where "handle_events eager_uffd demo_handler (serve_local eager_uffd demo_handler)
       [Pagefault 0x10000, Pagefault 0x10008, Pagefault 0x11000] [] 0 () [] = Some (Some (d, n, ()), w')"
    by (simp add: serve_local_def serve_pf_def demo_handler_def demo_region_def eager_uffd_def pb
        contains_def populate_from_file_def copy_from_ptr_def Let_def)
  with event_round_accounting [OF this] show ?thesis by auto
qed

end
