(* ===== verification/Uffd_Runtime.thy ===== *)
theory Uffd_Runtime
  imports Uffd
begin

text \<open>
  The poll loop of the page fault handlers, \<open>Runtime::run\<close> of uffd_utils.rs: the stream on which
  Firecracker sends its userfaultfds, the descriptors that have been received, and the callback
  that serves the events of a ready descriptor. \<open>poll\<close> and the shutdown flag are fields of a
  record over the world of the host. As before \<open>None\<close> in the first component is a panic, and the
  outer \<open>None\<close> a loop that does not return.
\<close>

section \<open>The runtime\<close>

record pollfd =
  fd :: nat
  re_in :: bool
  re_hup :: bool

datatype backing_memory = FileBacking (memory: u64) (msize: u64) | RemoteBacking

record runtime =
  stream :: nat
  backing :: backing_memory
  uffds :: "nat \<Rightarrow> uffd_handler option"

record 'w poll_host =
  p_poll :: "pollfd list \<Rightarrow> 'w \<Rightarrow> (int + nat \<times> pollfd list) \<times> 'w"
  p_shutdown :: "'w \<Rightarrow> bool"
  p_mmap :: "u64 \<Rightarrow> nat \<Rightarrow> 'w \<Rightarrow> u64 option \<times> 'w"
  p_file_len :: "nat \<Rightarrow> 'w \<Rightarrow> u64 option"

definition EINTR :: int where "EINTR = 4"

definition new_runtime :: "'w poll_host \<Rightarrow> nat \<Rightarrow> nat \<Rightarrow> 'w \<Rightarrow> runtime option \<times> 'w" where
  "new_runtime K strm backing_file w =
     (case p_file_len K backing_file w of
        None \<Rightarrow> (None, w)
      | Some n \<Rightarrow>
          (case p_mmap K n backing_file w of
             (None, w') \<Rightarrow> (None, w')
           | (Some m, w') \<Rightarrow>
               (Some \<lparr>stream = strm, backing = FileBacking m n, uffds = Map.empty\<rparr>, w')))"

definition new_remote :: "nat \<Rightarrow> runtime" where
  "new_remote strm = \<lparr>stream = strm, backing = RemoteBacking, uffds = Map.empty\<rparr>"

definition receive_handler :: "'w uffd_host \<Rightarrow> backing_memory \<Rightarrow> 'w \<Rightarrow> uffd_handler option \<times> 'w" where
  "receive_handler U b w =
     (case b of
        FileBacking m n \<Rightarrow> from_unix_stream U m n w
      | RemoteBacking \<Rightarrow> from_unix_stream_remote U w)"

definition new_pollfd :: "nat \<Rightarrow> pollfd" where
  "new_pollfd f = \<lparr>fd = f, re_in = False, re_hup = False\<rparr>"

text \<open>The callback: the handler, the state it captures and the world.\<close>

type_synonym ('c, 'w) dispatch = "uffd_handler \<Rightarrow> 'c \<Rightarrow> 'w \<Rightarrow> ('c option \<times> 'w) option"

text \<open>One ready descriptor: the runtime, the descriptors to push, and what the callback captured.\<close>

definition serve_ready ::
  "'w uffd_host \<Rightarrow> ('c, 'w) dispatch \<Rightarrow> nat \<Rightarrow> runtime \<times> pollfd list \<times> 'c \<Rightarrow> 'w \<Rightarrow>
     ((runtime \<times> pollfd list \<times> 'c) option \<times> 'w) option" where
  "serve_ready U dispatch f s w =
     (case s of (rt, pushed, c) \<Rightarrow>
        if f = stream rt then
          (case receive_handler U (backing rt) w of
             (None, w') \<Rightarrow> Some (None, w')
           | (Some h, w') \<Rightarrow>
               Some (Some (rt\<lparr>uffds := (uffds rt)(uffd h \<mapsto> h)\<rparr>, pushed @ [new_pollfd (uffd h)], c), w'))
        else
          (case uffds rt f of
             None \<Rightarrow> Some (None, w)
           | Some h \<Rightarrow>
               (case dispatch h c w of
                  None \<Rightarrow> None
                | Some (None, w') \<Rightarrow> Some (None, w')
                | Some (Some c', w') \<Rightarrow> Some (Some (rt, pushed, c'), w'))))"

text \<open>
  The \<open>for\<close> loop over the descriptors that were polled. Its range is fixed before the first
  iteration and the loop only appends, so it runs over the descriptors as \<open>poll\<close> left them.
\<close>

fun ready_loop ::
  "'w uffd_host \<Rightarrow> ('c, 'w) dispatch \<Rightarrow> pollfd list \<Rightarrow> nat \<Rightarrow> runtime \<times> pollfd list \<times> 'c \<Rightarrow> 'w \<Rightarrow>
     ((runtime \<times> pollfd list \<times> 'c) option \<times> 'w) option" where
  "ready_loop U dispatch [] nready s w = Some (Some s, w)"
| "ready_loop U dispatch (p # ps) nready s w =
     (if nready = 0 then Some (Some s, w)
      else if re_in p then
        (case serve_ready U dispatch (fd p) s w of
           None \<Rightarrow> None
         | Some (None, w') \<Rightarrow> Some (None, w')
         | Some (Some s', w') \<Rightarrow> ready_loop U dispatch ps (nready - 1) s' w')
      else ready_loop U dispatch ps nready s w)"

partial_function (option) run_loop ::
  "'w uffd_host \<Rightarrow> 'w poll_host \<Rightarrow> ('c, 'w) dispatch \<Rightarrow> pollfd list \<Rightarrow> runtime \<Rightarrow> 'c \<Rightarrow> 'w \<Rightarrow>
     ((runtime \<times> 'c) option \<times> 'w) option" where
  "run_loop U K dispatch pollfds rt c w =
     (case p_poll K pollfds w of
        (Inl errno, w1) \<Rightarrow>
          (if errno = EINTR \<and> p_shutdown K w1 then Some (Some (rt, c), w1) else Some (None, w1))
      | (Inr (nready, polled), w1) \<Rightarrow>
          (case ready_loop U dispatch polled nready (rt, [], c) w1 of
             None \<Rightarrow> None
           | Some (None, w2) \<Rightarrow> Some (None, w2)
           | Some (Some (rt', pushed, c'), w2) \<Rightarrow>
               (if p_shutdown K w2 then Some (Some (rt', c'), w2)
                else run_loop U K dispatch (filter (\<lambda>p. \<not> re_hup p) (polled @ pushed)) rt' c' w2)))"

definition run ::
  "'w uffd_host \<Rightarrow> 'w poll_host \<Rightarrow> ('c, 'w) dispatch \<Rightarrow> runtime \<Rightarrow> 'c \<Rightarrow> 'w \<Rightarrow>
     ((runtime \<times> 'c) option \<times> 'w) option" where
  "run U K dispatch rt = run_loop U K dispatch [new_pollfd (stream rt)] rt"

text \<open>The page fault handler for a local memory file: the callback counts the copied pages.\<close>

definition local_dispatch :: "'w uffd_host \<Rightarrow> (u64, 'w) dispatch" where
  "local_dispatch U h copied w =
     (case on_demand_dispatch U h copied w of
        None \<Rightarrow> None
      | Some (None, w') \<Rightarrow> Some (None, w')
      | Some (Some (copied', _), w') \<Rightarrow> Some (Some copied', w'))"

section \<open>The invariant of the poll loop\<close>

text \<open>Every polled descriptor is the stream or has a handler.\<close>

definition polled_ok :: "runtime \<Rightarrow> pollfd list \<Rightarrow> bool" where
  "polled_ok rt ps = (\<forall>p \<in> set ps. fd p = stream rt \<or> uffds rt (fd p) \<noteq> None)"

text \<open>
  The contract of \<open>poll\<close>: it changes only the returned events, and counts the descriptors that
  have any.
\<close>

definition poll_contract :: "'w poll_host \<Rightarrow> bool" where
  "poll_contract K =
     (\<forall>ps w n ps' w'. p_poll K ps w = (Inr (n, ps'), w') \<longrightarrow>
        map fd ps' = map fd ps \<and> n = length (filter (\<lambda>p. re_in p \<or> re_hup p) ps'))"

lemma polled_ok_fds: "map fd ps' = map fd ps \<Longrightarrow> polled_ok rt ps \<Longrightarrow> polled_ok rt ps'"
proof -
  assume fds: "map fd ps' = map fd ps" and ok: "polled_ok rt ps"
  have "fd ` set ps' = fd ` set ps" using arg_cong [OF fds, of set] by simp
  with ok show ?thesis unfolding polled_ok_def by (metis (no_types, opaque_lifting) imageE imageI)
qed

lemma polled_ok_filter: "polled_ok rt ps \<Longrightarrow> polled_ok rt (filter Q ps)"
  by (simp add: polled_ok_def)

lemma serve_ready_keeps:
  assumes "serve_ready U dispatch f (rt, pushed, c) w = Some (Some (rt', pushed', c'), w')"
    and "polled_ok rt (ps @ pushed)"
  shows "polled_ok rt' (ps @ pushed')" "stream rt' = stream rt" "backing rt' = backing rt"
  using assms
  by (auto simp: serve_ready_def polled_ok_def new_pollfd_def
      split: if_splits prod.splits option.splits)

lemma ready_loop_keeps:
  assumes "ready_loop U dispatch ps n (rt, pushed, c) w = Some (Some (rt', pushed', c'), w')"
    and "polled_ok rt (qs @ pushed)"
  shows "polled_ok rt' (qs @ pushed') \<and> backing rt' = backing rt"
  using assms
proof (induction ps arbitrary: n rt pushed c w)
  case (Cons p ps)
  show ?case
  proof (cases "n = 0 \<or> \<not> re_in p")
    case True
    with Cons show ?thesis by (auto split: if_splits)
  next
    case False
    with Cons.prems(1) obtain rt1 pushed1 c1 w1
      where s: "serve_ready U dispatch (fd p) (rt, pushed, c) w = Some (Some (rt1, pushed1, c1), w1)"
        and l: "ready_loop U dispatch ps (n - 1) (rt1, pushed1, c1) w1 = Some (Some (rt', pushed', c'), w')"
      by (auto split: option.splits prod.splits)
    from Cons.IH [OF l serve_ready_keeps(1) [OF s Cons.prems(2)]] serve_ready_keeps(3) [OF s Cons.prems(2)]
    show ?thesis by simp
  qed
qed simp

text \<open>
  What the runtime relies on: the hand-over of a userfaultfd succeeds, and the callback does not
  panic on a handler.
\<close>

definition host_sound ::
  "'w uffd_host \<Rightarrow> 'w poll_host \<Rightarrow> ('c, 'w) dispatch \<Rightarrow> backing_memory \<Rightarrow> bool" where
  "host_sound U K dispatch b =
     (poll_contract K \<and>
      (\<forall>ps w e w'. p_poll K ps w = (Inl e, w') \<longrightarrow> e = EINTR \<and> p_shutdown K w') \<and>
      (\<forall>w. fst (receive_handler U b w) \<noteq> None) \<and>
      (\<forall>h c w w'. dispatch h c w \<noteq> Some (None, w')))"

lemma host_sound_poll:
  "host_sound U K dispatch b \<Longrightarrow> p_poll K ps w = (Inl e, w') \<Longrightarrow> e = EINTR \<and> p_shutdown K w'"
  unfolding host_sound_def by (elim conjE allE impE) (assumption | intro conjI)+

lemma ready_loop_no_panic:
  assumes "host_sound U K dispatch (backing rt)"
    and "polled_ok rt (ps @ pushed)"
  shows "ready_loop U dispatch ps n (rt, pushed, c) w \<noteq> Some (None, w')"
  using assms
proof (induction ps arbitrary: n rt pushed c w)
  case (Cons p ps)
  have ok: "polled_ok rt (ps @ pushed)" using Cons.prems(2) by (simp add: polled_ok_def)
  have ih: "ready_loop U dispatch ps n (rt, pushed, c) w \<noteq> Some (None, w')" for n
    using Cons.IH [OF Cons.prems(1) ok] .
  have recv: "receive_handler U (backing rt) w \<noteq> (None, v)" for v
    using Cons.prems(1) by (metis fst_conv host_sound_def)
  have disp: "dispatch h c w \<noteq> Some (None, v)" for h v using Cons.prems(1) by (simp add: host_sound_def)
  have here: "fd p = stream rt \<or> uffds rt (fd p) \<noteq> None" using Cons.prems(2) by (simp add: polled_ok_def)
  have step: "serve_ready U dispatch (fd p) (rt, pushed, c) w \<noteq> Some (None, v)" for v
    using recv disp here by (auto simp: serve_ready_def split: option.splits prod.splits)
  have next_: "ready_loop U dispatch ps m (rt1, pushed1, c1) w1 \<noteq> Some (None, w')"
    if s: "serve_ready U dispatch (fd p) (rt, pushed, c) w = Some (Some (rt1, pushed1, c1), w1)"
    for m rt1 pushed1 c1 w1
    using Cons.IH [of rt1 pushed1] Cons.prems(1) serve_ready_keeps [OF s ok] by simp
  show ?case using ih step next_ by (auto split: option.splits prod.splits)
qed simp

lemma run_loop_no_panic:
  assumes "run_loop U K dispatch ps rt c w = Some r" "host_sound U K dispatch (backing rt)"
    and "polled_ok rt ps"
  shows "fst r \<noteq> None"
  using assms
proof (induction rule: run_loop.raw_induct [rotated, consumes 1, case_names step])
  case (step run_loop U K dispatch ps rt c w r)
  show ?case
  proof (cases "fst (p_poll K ps w)")
    case (Inl e)
    then obtain w1 where p: "p_poll K ps w = (Inl e, w1)" by (metis prod.collapse)
    then have "e = EINTR \<and> p_shutdown K w1" by (rule host_sound_poll [OF step(3)])
    with step(2) p show ?thesis by auto
  next
    case (Inr x)
    then obtain n ps' w1 where p: "p_poll K ps w = (Inr (n, ps'), w1)" by (metis prod.collapse)
    then have "map fd ps' = map fd ps" 
      using step(3) unfolding host_sound_def poll_contract_def by blast
    then have ok: "polled_ok rt (ps' @ [])" using step(4) by (simp add: polled_ok_fds)
    have "ready_loop U dispatch ps' n (rt, [], c) w1 \<noteq> Some (None, v)" for v
      using ready_loop_no_panic [OF step(3) ok] .
    with step(2) p obtain rt' pushed c' w2
      where l: "ready_loop U dispatch ps' n (rt, [], c) w1 = Some (Some (rt', pushed, c'), w2)"
        and r: "(if p_shutdown K w2 then Some (Some (rt', c'), w2)
           else run_loop U K dispatch (filter (\<lambda>p. \<not> re_hup p) (ps' @ pushed)) rt' c' w2) = Some r"
      by (auto split: option.splits prod.splits)
    have keeps: "polled_ok rt' (ps' @ pushed)" "backing rt' = backing rt"
      using ready_loop_keeps [OF l ok] by simp_all
    then have "polled_ok rt' (filter (\<lambda>p. \<not> re_hup p) (ps' @ pushed))" by (intro polled_ok_filter)
    with step(1) [of U K dispatch _ rt'] step(3) keeps(2) r show ?thesis
      by (cases "p_shutdown K w2") auto
  qed
qed

text \<open>
  The loop stops as soon as it has served as many descriptors as \<open>poll\<close> reported. The reference
  is the loop that visits all of them.
\<close>

fun ready_all ::
  "'w uffd_host \<Rightarrow> ('c, 'w) dispatch \<Rightarrow> nat list \<Rightarrow> runtime \<times> pollfd list \<times> 'c \<Rightarrow> 'w \<Rightarrow>
     ((runtime \<times> pollfd list \<times> 'c) option \<times> 'w) option" where
  "ready_all U dispatch [] s w = Some (Some s, w)"
| "ready_all U dispatch (f # fs) s w =
     (case serve_ready U dispatch f s w of
        None \<Rightarrow> None
      | Some (None, w') \<Rightarrow> Some (None, w')
      | Some (Some s', w') \<Rightarrow> ready_all U dispatch fs s' w')"

lemma ready_loop_all:
  assumes "length (filter re_in ps) \<le> n"
  shows "ready_loop U dispatch ps n s w = ready_all U dispatch (map fd (filter re_in ps)) s w"
  using assms
proof (induction ps arbitrary: n s w)
  case (Cons p ps)
  show ?case
  proof (cases "re_in p")
    case True
    then have "length (filter re_in ps) \<le> n - 1" "n \<noteq> 0" using Cons.prems by auto
    with True Cons.IH show ?thesis by (simp split: option.split prod.split)
  next
    case False
    moreover have "ready_loop U dispatch ps 0 s w = Some (Some s, w)" by (cases ps) simp_all
    ultimately show ?thesis using Cons by auto
  qed
qed simp

lemma get_mappings_loop_no_fd:
  assumes "\<And>w. \<exists>body w'. u_recv_with_fd U w = (Inr (body, None), w')"
  shows "fst (get_mappings_loop U n w) = None"
proof (induction n arbitrary: w)
  case (Suc n)
  obtain body w' where r: "u_recv_with_fd U w = (Inr (body, None), w')" using assms by blast
  with Suc show ?case by (cases body) (simp_all add: try_get_mappings_and_file_def)
qed simp

lemma closed_stream_run:
  assumes "\<And>w. \<exists>body w'. u_recv_with_fd U w = (Inr (body, None), w')"
    and "p_poll K [new_pollfd (stream rt)] w =
      (Inr (1, [\<lparr>fd = stream rt, re_in = True, re_hup = True\<rparr>]), w1)"
  shows "\<exists>w'. run U K dispatch rt c w = Some (None, w')"
proof -
  have "fst (get_mappings_and_file U w1) = None"
    using get_mappings_loop_no_fd [OF assms(1)] by (simp add: get_mappings_and_file_def)
  then obtain w2 where "get_mappings_and_file U w1 = (None, w2)" by (metis prod.collapse)
  then have "receive_handler U (backing rt) w1 = (None, w2)"
    by (simp add: receive_handler_def from_unix_stream_def from_unix_stream_remote_def
        split: backing_memory.split)
  then show ?thesis
    unfolding run_def by (subst run_loop.simps) (simp add: assms(2) serve_ready_def)
qed

section \<open>Properties\<close>


text \<open>
  stopping early loses no descriptor. With the count that \<open>poll\<close> returns, the loop serves every
  descriptor that has input, each once and in the order of the table: hang-ups without input only
  make the count larger.
\<close>

theorem ready_loop_serves_all:
  assumes "poll_contract K" "p_poll K pollfds w = (Inr (nready, polled), w')"
  shows "ready_loop U dispatch polled nready s w' =
      ready_all U dispatch (map fd (filter re_in polled)) s w' \<and>
    map fd polled = map fd pollfds"
proof -
  have "nready = length (filter (\<lambda>p. re_in p \<or> re_hup p) polled)" "map fd polled = map fd pollfds"
    using assms unfolding poll_contract_def by blast+
  moreover have "length (filter re_in polled) \<le> length (filter (\<lambda>p. re_in p \<or> re_hup p) polled)"
    by (induction polled) auto
  ultimately show ?thesis by (simp add: ready_loop_all)
qed

text \<open>
  a closed connection ends the handler. When Firecracker closes the stream, \<open>poll\<close> reports
  input together with the hang-up, and what is then read carries no descriptor: the loop tries
  five times to receive a userfaultfd and panics, before it can drop the stream from the polled
  descriptors.
\<close>

theorem closed_stream_panics:
  assumes "\<And>w. \<exists>body w'. u_recv_with_fd U w = (Inr (body, None), w')"
    and "p_poll K [new_pollfd (stream rt)] w =
      (Inr (1, [\<lparr>fd = stream rt, re_in = True, re_hup = True\<rparr>]), w1)"
  shows "\<exists>w'. run U K dispatch rt c w = Some (None, w')"
  by (rule closed_stream_run [OF assms])

section \<open>Concrete hosts\<close>

text \<open>
  A host on which one userfaultfd is handed over and then a shutdown is requested: the world is
  the number of polls.
\<close>

definition quiet_uffd :: "nat uffd_host" where
  "quiet_uffd =
     \<lparr> u_copy = (\<lambda>_ _ _ len w. (CopyOk len, w)),
       u_unregister = (\<lambda>_ _ _ w. (True, w)), u_read_event = (\<lambda>_ w. (Inr None, w)),
       u_recv_with_fd = (\<lambda>w. (Inr (Some [], Some 7), w)),
       u_json = (\<lambda>_. Some [\<lparr>base_host_virt_addr = 0, r_size = 4096, r_offset = 0, r_page_size = 4096\<rparr>]),
       u_sleep = (\<lambda>_ w. w) \<rparr>"

definition hung_up_uffd :: "nat uffd_host" where
  "hung_up_uffd = quiet_uffd\<lparr>u_recv_with_fd := \<lambda>w. (Inr (Some [], None), w)\<rparr>"

definition two_polls :: "nat poll_host" where
  "two_polls =
     \<lparr> p_poll = (\<lambda>ps w. (if w < 2 then Inr (length ps, map (\<lambda>p. p\<lparr>re_in := True, re_hup := w = 1\<rparr>) ps)
                         else Inl EINTR, Suc w)),
       p_shutdown = (\<lambda>w. 2 < w), p_mmap = (\<lambda>_ _ w. (Some 0, w)), p_file_len = (\<lambda>_ _. Some 4096) \<rparr>"

definition count_dispatch :: "(nat, nat) dispatch" where
  "count_dispatch h c w = Some (Some (Suc c), w)"

lemma two_polls_contract: "poll_contract two_polls"
  by (auto simp: poll_contract_def two_polls_def comp_def filter_map)

lemma quiet_sound: "host_sound quiet_uffd two_polls count_dispatch RemoteBacking"
proof -
  have "fst (receive_handler quiet_uffd RemoteBacking w) \<noteq> None" for w
    using get_mappings_loop.simps(2) [of quiet_uffd 4 w]
    by (simp add: receive_handler_def from_unix_stream_remote_def get_mappings_and_file_def
        try_get_mappings_and_file_def is_power_of_two_def quiet_uffd_def)
  then show ?thesis
    by (simp add: host_sound_def two_polls_contract)
      (auto simp: two_polls_def count_dispatch_def split: if_splits)
qed


theorem ready_loop_serves_all_witness:
  "ready_loop quiet_uffd count_dispatch
     [\<lparr>fd = 3, re_in = True, re_hup = False\<rparr>] 1 (new_remote 3, [], 0) 1 =
   ready_all quiet_uffd count_dispatch [3] (new_remote 3, [], 0) 1"
  using ready_loop_serves_all [OF two_polls_contract, of "[new_pollfd 3]" 0 1 
      "[\<lparr>fd = 3, re_in = True, re_hup = False\<rparr>]" 1 quiet_uffd count_dispatch "(new_remote 3, [], 0)"]
  by (simp add: two_polls_def new_pollfd_def)

lemma hung_up_facts:
  "\<exists>body w'. u_recv_with_fd hung_up_uffd w = (Inr (body, None), w')"
  "p_poll two_polls [new_pollfd (stream (new_remote 3))] 1 =
      (Inr (1, [\<lparr>fd = stream (new_remote 3), re_in = True, re_hup = True\<rparr>]), 2)"
  by (simp_all add: hung_up_uffd_def two_polls_def new_pollfd_def new_remote_def)

theorem closed_stream_panics_witness:
  "\<exists>w'. run hung_up_uffd two_polls count_dispatch (new_remote 3) 0 1 = Some (None, w')"
by (rule closed_stream_panics [OF hung_up_facts])

end
