(* ===== verification/Uffd_Remote.thy ===== *)
theory Uffd_Remote
  imports Uffd_Props Uffd_Runtime
begin

text \<open>
  The page fault handler for a remote memory blob,
  src/firecracker-build/fc-change-set/src/firecracker/examples/uffd/remote_range_handler.rs: the
  URL, the HTTP client that fetches ranges of the blob over one kept connection, the cache of
  chunks and the service of a page fault. The TCP stream is a record of functions over the world.
  Texts are lists of ASCII characters.
\<close>

section \<open>Strings\<close>

fun split_once :: "char \<Rightarrow> string \<Rightarrow> (string \<times> string) option" where
  "split_once d [] = None"
| "split_once d (c # cs) =
     (if c = d then Some ([], cs)
      else (case split_once d cs of None \<Rightarrow> None | Some (a, b) \<Rightarrow> Some (c # a, b)))"

definition rsplit_once :: "char \<Rightarrow> string \<Rightarrow> (string \<times> string) option" where
  "rsplit_once d s = (case split_once d (rev s) of None \<Rightarrow> None | Some (a, b) \<Rightarrow> Some (rev b, rev a))"

fun strip_prefix :: "string \<Rightarrow> string \<Rightarrow> string option" where
  "strip_prefix [] s = Some s"
| "strip_prefix (p # ps) [] = None"
| "strip_prefix (p # ps) (c # cs) = (if p = c then strip_prefix ps cs else None)"

definition is_whitespace :: "char \<Rightarrow> bool" where
  "is_whitespace c = (of_char c = (32 :: nat) \<or> (9 \<le> (of_char c :: nat) \<and> (of_char c :: nat) \<le> 13))"

definition trim :: "string \<Rightarrow> string" where
  "trim s = rev (dropWhile is_whitespace (rev (dropWhile is_whitespace s)))"

definition ascii_lower :: "char \<Rightarrow> char" where
  "ascii_lower c =
     (if 65 \<le> (of_char c :: nat) \<and> (of_char c :: nat) \<le> 90 then char_of (of_char c + (32 :: nat)) else c)"

fun split_whitespace :: "string \<Rightarrow> string \<Rightarrow> string list" where
  "split_whitespace word [] = (if word = [] then [] else [word])"
| "split_whitespace word (c # cs) =
     (if is_whitespace c then (if word = [] then [] else [word]) @ split_whitespace [] cs
      else split_whitespace (word @ [c]) cs)"

definition crlf :: string where
  "crlf = [char_of (13 :: nat), char_of (10 :: nat)]"

section \<open>The URL\<close>

record http_url =
  u_host :: string
  u_port :: nat
  u_path :: string
  host_header :: string

definition parse_url :: "string \<Rightarrow> http_url option" where
  "parse_url url =
     (case strip_prefix ''http://'' url of
        None \<Rightarrow> None
      | Some rest \<Rightarrow>
          (let (authority, path) =
             (case split_once (CHR ''/'') rest of
                Some (authority, path) \<Rightarrow> (authority, ''/'' @ path)
              | None \<Rightarrow> (rest, ''/''))
           in (case rsplit_once (CHR '':'') authority of
                 Some (host, port) \<Rightarrow>
                   (case parse_uint 65535 port of
                      None \<Rightarrow> None
                    | Some p \<Rightarrow>
                        Some \<lparr>u_host = host, u_port = p, u_path = path, host_header = authority\<rparr>)
               | None \<Rightarrow>
                   Some \<lparr>u_host = authority, u_port = 80, u_path = path, host_header = authority\<rparr>)))"

section \<open>The client\<close>

record http_client =
  url :: http_url
  reader :: "nat option"

record 'w net_host =
  n_connect :: "string \<Rightarrow> nat \<Rightarrow> 'w \<Rightarrow> nat res \<times> 'w"
  n_set_nodelay :: "nat \<Rightarrow> 'w \<Rightarrow> unit res \<times> 'w"
  n_write :: "nat \<Rightarrow> string \<Rightarrow> 'w \<Rightarrow> unit res \<times> 'w"
  n_flush :: "nat \<Rightarrow> 'w \<Rightarrow> unit res \<times> 'w"
  n_read_line :: "nat \<Rightarrow> 'w \<Rightarrow> string res \<times> 'w"
  n_read_exact :: "nat \<Rightarrow> nat \<Rightarrow> 'w \<Rightarrow> u8 list res \<times> 'w"
  n_copy_bytes :: "nat \<Rightarrow> u8 list \<Rightarrow> u64 \<Rightarrow> 'w \<Rightarrow> copy_result \<times> 'w"

definition new_client :: "string \<Rightarrow> http_client option" where
  "new_client s = map_option (\<lambda>u. \<lparr>url = u, reader = None\<rparr>) (parse_url s)"

definition connect :: "'w net_host \<Rightarrow> http_client \<Rightarrow> ('w, nat) io" where
  "connect N cl =
     io_bind (n_connect N (u_host (url cl)) (u_port (url cl)))
       (\<lambda>c. io_bind (n_set_nodelay N c) (\<lambda>_. io_return c))"

definition range_request :: "http_url \<Rightarrow> u64 \<Rightarrow> u64 \<Rightarrow> string" where
  "range_request u offset end_off =
     ''GET '' @ u_path u @ '' HTTP/1.1'' @ crlf @ ''Host: '' @ host_header u @ crlf
       @ ''Range: bytes='' @ show_nat (unat offset) @ ''-'' @ show_nat (unat end_off) @ crlf
       @ ''Connection: keep-alive'' @ crlf @ crlf"

definition status_of :: "string \<Rightarrow> nat option" where
  "status_of status_line =
     (case split_whitespace [] status_line of
        _ # value # _ \<Rightarrow> parse_uint 65535 value
      | _ \<Rightarrow> None)"

text \<open>
  The loop over the header lines ends only at an empty line; at the end of the stream
  \<open>read_line\<close> succeeds with an empty text.
\<close>

partial_function (option) header_loop ::
  "'w net_host \<Rightarrow> nat \<Rightarrow> nat option \<Rightarrow> 'w \<Rightarrow> (nat option res \<times> 'w) option" where
  "header_loop N c content_len w =
     (case n_read_line N c w of
        (Inl e, w') \<Rightarrow> Some (Err e, w')
      | (Inr line, w') \<Rightarrow>
          (if line = crlf \<or> line = [char_of (10 :: nat)] then Some (Ok content_len, w')
           else
             (case strip_prefix ''content-length:'' (map ascii_lower line) of
                None \<Rightarrow> header_loop N c content_len w'
              | Some value \<Rightarrow>
                  (case parse_uint u64_max (trim value) of
                     None \<Rightarrow> Some (Err ''bad Content-Length'', w')
                   | Some n \<Rightarrow> header_loop N c (Some n) w'))))"

definition send_request :: "'w net_host \<Rightarrow> http_client \<Rightarrow> nat \<Rightarrow> u64 \<Rightarrow> u64 \<Rightarrow> ('w, nat) io" where
  "send_request N cl c offset len =
     io_bind (n_write N c (range_request (url cl) offset (offset + len - 1)))
       (\<lambda>_. io_bind (n_flush N c)
         (\<lambda>_. io_bind (n_read_line N c)
           (\<lambda>status_line. io_lift (ok_or ''bad HTTP status line'' (status_of status_line)))))"

fun debug_option :: "nat option \<Rightarrow> string" where
  "debug_option None = ''None''"
| "debug_option (Some n) = ''Some('' @ show_nat n @ '')''"

definition read_response ::
  "'w net_host \<Rightarrow> nat \<Rightarrow> nat \<Rightarrow> u64 \<Rightarrow> 'w \<Rightarrow> (u8 list res \<times> 'w) option" where
  "read_response N c status len w =
     (case header_loop N c None w of
        None \<Rightarrow> None
      | Some (Inl e, w') \<Rightarrow> Some (Err e, w')
      | Some (Inr content_len, w') \<Rightarrow>
          (if status \<noteq> 206 then
             Some (Err (''expected HTTP 206 for Range request, got '' @ show_nat status), w')
           else if content_len \<noteq> Some (unat len) then
             Some (Err (''expected '' @ show_nat (unat len) @ '' response bytes, got ''
               @ debug_option content_len), w')
           else Some (n_read_exact N c (unat len) w')))"

definition fetch_range_once ::
  "'w net_host \<Rightarrow> http_client \<Rightarrow> u64 \<Rightarrow> u64 \<Rightarrow> 'w \<Rightarrow> (u8 list res \<times> http_client \<times> 'w) option" where
  "fetch_range_once N cl offset len w =
     (case (case reader cl of Some c \<Rightarrow> (Ok c, w) | None \<Rightarrow> connect N cl w) of
        (Inl e, w1) \<Rightarrow> Some (Err e, cl, w1)
      | (Inr c, w1) \<Rightarrow>
          (let cl' = cl\<lparr>reader := Some c\<rparr> in
           (case send_request N cl' c offset len w1 of
              (Inl e, w2) \<Rightarrow> Some (Err e, cl', w2)
            | (Inr status, w2) \<Rightarrow>
                (case read_response N c status len w2 of
                   None \<Rightarrow> None
                 | Some (r, w3) \<Rightarrow> Some (r, cl', w3)))))"

definition fetch_range ::
  "'w net_host \<Rightarrow> http_client \<Rightarrow> u64 \<Rightarrow> u64 \<Rightarrow> 'w \<Rightarrow> (u8 list res \<times> http_client \<times> 'w) option" where
  "fetch_range N cl offset len w =
     (case fetch_range_once N cl offset len w of
        None \<Rightarrow> None
      | Some (Inr data, cl', w') \<Rightarrow> Some (Ok data, cl', w')
      | Some (Inl _, cl', w') \<Rightarrow> fetch_range_once N (cl'\<lparr>reader := None\<rparr>) offset len w')"

section \<open>Service of a page fault\<close>

definition FETCH_CHUNK_SIZE :: u64 where "FETCH_CHUNK_SIZE = 4 * 1024"

type_synonym chunk_cache = "u64 \<Rightarrow> u8 list option"

definition remote_size :: "region list \<Rightarrow> u64 option" where
  "remote_size rs =
     (case map (\<lambda>r. r_offset r + r_size r) rs of [] \<Rightarrow> None | x # xs \<Rightarrow> Some (foldl max x xs))"

definition copy_from_slice :: "'w net_host \<Rightarrow> uffd_handler \<Rightarrow> u64 \<Rightarrow> u8 list \<Rightarrow> 'w \<Rightarrow> bool option \<times> 'w" where
  "copy_from_slice N h dst bytes w =
     (case n_copy_bytes N (uffd h) bytes dst w of (r, w') \<Rightarrow> (copy_outcome r, w'))"

definition chunk_slice :: "u8 list \<Rightarrow> nat \<Rightarrow> nat \<Rightarrow> u8 list option" where
  "chunk_slice chunk lo hi =
     (if lo \<le> hi \<and> hi \<le> length chunk then Some (take (hi - lo) (drop lo chunk)) else None)"

definition chunk_in_cache ::
  "'w net_host \<Rightarrow> u64 \<Rightarrow> u64 \<Rightarrow> http_client \<times> chunk_cache \<Rightarrow> 'w \<Rightarrow>
     ((u8 list \<times> http_client \<times> chunk_cache) option \<times> 'w) option" where
  "chunk_in_cache N chunk_base chunk_len s w =
     (case s of (cl, cache) \<Rightarrow>
        (case cache chunk_base of
           Some chunk \<Rightarrow> Some (Some (chunk, cl, cache), w)
         | None \<Rightarrow>
             (case fetch_range N cl chunk_base chunk_len w of
                None \<Rightarrow> None
              | Some (Inl e, cl', w') \<Rightarrow> Some (None, w')
              | Some (Inr data, cl', w') \<Rightarrow> Some (Some (data, cl', cache(chunk_base \<mapsto> data)), w'))))"

definition serve_remote_pf ::
  "'w net_host \<Rightarrow> uffd_handler \<Rightarrow> u64 \<Rightarrow> http_client \<times> chunk_cache \<Rightarrow> 'w \<Rightarrow>
     (bool option \<times> (http_client \<times> chunk_cache) \<times> 'w) option" where
  "serve_remote_pf N h addr s w =
     (case file_offset_for_addr h addr of
        None \<Rightarrow> Some (None, s, w)
      | Some (dst, file_offset) \<Rightarrow>
          (case remote_size (mem_regions h) of
             None \<Rightarrow> Some (None, s, w)
           | Some rsize \<Rightarrow>
               (let chunk_base = file_offset AND NOT (FETCH_CHUNK_SIZE - 1);
                    chunk_len = min (rsize - chunk_base) FETCH_CHUNK_SIZE;
                    page_offset = file_offset - chunk_base
                in (case chunk_in_cache N chunk_base chunk_len s w of
                      None \<Rightarrow> None
                    | Some (None, w') \<Rightarrow> Some (None, s, w')
                    | Some (Some (chunk, s'), w') \<Rightarrow>
                        (case chunk_slice chunk (unat page_offset) (unat (page_offset + page_size h)) of
                           None \<Rightarrow> Some (None, s', w')
                         | Some bytes \<Rightarrow>
                             (case copy_from_slice N h dst bytes w' of (r, w'') \<Rightarrow> Some (r, s', w'')))))))"

text \<open>The callback of the remote handler: the loop of the local one with the remote service.\<close>

definition remote_dispatch ::
  "'w uffd_host \<Rightarrow> 'w net_host \<Rightarrow> (u64 \<times> http_client \<times> chunk_cache, 'w) dispatch" where
  "remote_dispatch U N h c w =
     (case c of (copied, s) \<Rightarrow>
        (case dispatch_loop U h (serve_remote_pf N h) [] copied s w of
           None \<Rightarrow> None
         | Some (None, w') \<Rightarrow> Some (None, w')
         | Some (Some c', w') \<Rightarrow> Some (Some c', w')))"

end
