(* ===== verification/Uffd_Remote_Props.thy ===== *)
theory Uffd_Remote_Props
  imports Uffd_Remote
begin

text \<open>
  Properties of the remote page fault handler: the bytes it serves are those of the remote blob,
  whatever is in the cache; URLs; and two ways in which it does not serve a fault.
\<close>

section \<open>URLs\<close>

lemma split_once_append: "d \<notin> set a \<Longrightarrow> split_once d (a @ d # b) = Some (a, b)"
  by (induction a) auto

lemma split_once_None: "d \<notin> set s \<Longrightarrow> split_once d s = None"
  by (induction s) auto

lemma rsplit_once_append: "d \<notin> set b \<Longrightarrow> rsplit_once d (a @ d # b) = Some (a, b)"
  using split_once_append [of d "rev b" "rev a"] by (simp add: rsplit_once_def)

lemma strip_prefix_append [simp]: "strip_prefix p (p @ s) = Some s"
  by (induction p) auto

lemma strip_prefix_iff: "strip_prefix p s = Some r \<longleftrightarrow> s = p @ r"
  by (induction p s rule: strip_prefix.induct) auto

text \<open>
  URLs are read back. A URL built from a host, a port and a path is taken apart into them; the
  host may contain colons, as an IPv6 address does. Without a port it is 80, and a port that does
  not fit 16 bits is refused.
\<close>

theorem parse_url_roundtrip:
  assumes "CHR ''/'' \<notin> set host"
  shows "parse_url (''http://'' @ host @ '':'' @ show_nat port @ ''/'' @ path) =
      (if port \<le> 65535
       then Some \<lparr>u_host = host, u_port = port, u_path = ''/'' @ path, host_header = host @ '':'' @ show_nat port\<rparr>
       else None) \<and>
    (CHR '':'' \<notin> set host \<longrightarrow>
      parse_url (''http://'' @ host @ ''/'' @ path) =
        Some \<lparr>u_host = host, u_port = 80, u_path = ''/'' @ path, host_header = host\<rparr>)"
proof -
  have digits: "CHR ''/'' \<notin> set (show_nat port)" "CHR '':'' \<notin> set (show_nat port)"
    by (rule show_nat_no_char, simp)+
  have slash: "split_once (CHR ''/'') (host @ '':'' @ show_nat port @ ''/'' @ path) =
      Some (host @ '':'' @ show_nat port, path)"
    using split_once_append [of "CHR ''/''" "host @ '':'' @ show_nat port" path] assms digits by simp
  have colon: "rsplit_once (CHR '':'') (host @ '':'' @ show_nat port) = Some (host, show_nat port)"
    using rsplit_once_append [OF digits(2), of host] by simp
  have range: "parse_uint 65535 (show_nat port) = (if port \<le> 65535 then Some port else None)"
    using parse_uint_show [of port 65535] parse_uint_show_big [of 65535 port] by simp
  have 1: "parse_url (''http://'' @ host @ '':'' @ show_nat port @ ''/'' @ path) =
      (if port \<le> 65535
       then Some \<lparr>u_host = host, u_port = port, u_path = ''/'' @ path, host_header = host @ '':'' @ show_nat port\<rparr>
       else None)"
    using slash colon range
    by (simp only: parse_url_def strip_prefix_append option.case prod.case Let_def) simp
  have 2: "parse_url (''http://'' @ host @ ''/'' @ path) =
      Some \<lparr>u_host = host, u_port = 80, u_path = ''/'' @ path, host_header = host\<rparr>"
    if "CHR '':'' \<notin> set host"
    using split_once_append [OF assms, of path] that split_once_None [of "CHR '':''" "rev host"]
    by (simp only: parse_url_def strip_prefix_append option.case prod.case Let_def) (simp add: rsplit_once_def)
  show ?thesis using 1 2 by blast
qed

section \<open>The blob\<close>

definition blob_slice :: "u8 list \<Rightarrow> nat \<Rightarrow> nat \<Rightarrow> u8 list" where
  "blob_slice blob off n = take n (drop off blob)"

text \<open>
  A server of the blob: what follows an accepted range request on a connection, when its status is
  206 (Partial Content) and its length the requested one, are the bytes of that range.
\<close>

definition range_server :: "'w net_host \<Rightarrow> http_url \<Rightarrow> u8 list \<Rightarrow> bool" where
  "range_server N u blob =
     (\<forall>c off len w w1 w2 line w3 w4 data w5.
        unat off + unat len \<le> length blob \<and>
        n_write N c (range_request u off (off + len - 1)) w = (Ok (), w1) \<and>
        n_flush N c w1 = (Ok (), w2) \<and>
        n_read_line N c w2 = (Ok line, w3) \<and> status_of line = Some 206 \<and>
        header_loop N c None w3 = Some (Ok (Some (unat len)), w4) \<and>
        n_read_exact N c (unat len) w4 = (Ok data, w5) \<longrightarrow>
        data = blob_slice blob (unat off) (unat len))"

definition cache_ok :: "u8 list \<Rightarrow> chunk_cache \<Rightarrow> bool" where
  "cache_ok blob cache =
     (\<forall>base chunk. cache base = Some chunk \<longrightarrow>
        chunk = blob_slice blob (unat base) (min 4096 (length blob - unat base)))"

text \<open>The regions cover the blob in whole pages and reach its end.\<close>

definition blob_layout :: "nat \<Rightarrow> region list \<Rightarrow> u8 list \<Rightarrow> bool" where
  "blob_layout k rs blob =
     (length blob < 2 ^ 64 \<and>
      (\<forall>r \<in> set rs. 2 ^ k dvd unat (r_offset r) \<and> 2 ^ k dvd unat (r_size r) \<and>
                     unat (r_offset r) + unat (r_size r) \<le> length blob) \<and>
      (\<exists>r \<in> set rs. unat (r_offset r) + unat (r_size r) = length blob))"

text \<open>What a successful fetch has seen: the request, a status of 206, the length and the bytes.\<close>

lemma fetch_range_once_trace:
  assumes "fetch_range_once N cl off len w = Some (Ok data, cl', w')"
  obtains c w1 w2 w3 line w4 w5
  where "n_write N c (range_request (url cl) off (off + len - 1)) w1 = (Ok (), w2)"
    and "n_flush N c w2 = (Ok (), w3)" and "n_read_line N c w3 = (Ok line, w4)"
    and "status_of line = Some 206" and "header_loop N c None w4 = Some (Ok (Some (unat len)), w5)"
    and "n_read_exact N c (unat len) w5 = (Ok data, w')"
proof -
  from assms obtain c w1 status w4
    where s: "send_request N (cl\<lparr>reader := Some c\<rparr>) c off len w1 = (Ok status, w4)"
      and r: "read_response N c status len w4 = Some (Ok data, w')"
    by (auto simp: fetch_range_once_def Let_def split: prod.splits sum.splits option.splits)
  from s obtain w2 w3 line
    where req: "n_write N c (range_request (url cl) off (off + len - 1)) w1 = (Ok (), w2)"
      "n_flush N c w2 = (Ok (), w3)" "n_read_line N c w3 = (Ok line, w4)" "status_of line = Some status"
    by (auto simp: send_request_def io_bind_Inr_iff)
  from r obtain w5
    where "status = 206" "header_loop N c None w4 = Some (Ok (Some (unat len)), w5)"
      "n_read_exact N c (unat len) w5 = (Ok data, w')"
    by (auto simp: read_response_def split: prod.splits sum.splits option.splits if_splits)
  with req that show ?thesis by blast
qed

lemma fetch_range_once_url: "fetch_range_once N cl off len w = Some (r, cl', w') \<Longrightarrow> url cl' = url cl"
  by (auto simp: fetch_range_once_def Let_def split: prod.splits sum.splits option.splits)

lemma fetch_range_from_once:
  assumes "fetch_range N cl off len w = Some (Ok data, cl', w')"
  obtains cl1 w1 where "fetch_range_once N cl1 off len w1 = Some (Ok data, cl', w')" "url cl1 = url cl"
proof -
  from assms obtain r cl1 w1 where f: "fetch_range_once N cl off len w = Some (r, cl1, w1)"
    by (auto simp: fetch_range_def split: option.splits)
  show ?thesis
  proof (cases r)
    case (Inr d)
    with f assms that show ?thesis by (simp add: fetch_range_def)
  next
    case (Inl e)
    with f assms that [of "cl1\<lparr>reader := None\<rparr>" w1] fetch_range_once_url [OF f] show ?thesis
      by (simp add: fetch_range_def)
  qed
qed

lemma fetch_range_blob:
  assumes "range_server N (url cl) blob" "unat off + unat len \<le> length blob"
    and "fetch_range N cl off len w = Some (Ok data, cl', w')"
  shows "data = blob_slice blob (unat off) (unat len) \<and> url cl' = url cl"
proof -
  obtain cl1 w1 where f: "fetch_range_once N cl1 off len w1 = Some (Ok data, cl', w')" "url cl1 = url cl"
    using fetch_range_from_once [OF assms(3)] .
  have "data = blob_slice blob (unat off) (unat len)"
    using f(1) assms(1,2) unfolding f(2) [symmetric] range_server_def
    by (elim fetch_range_once_trace) blast
  with f fetch_range_once_url [OF f(1)] show ?thesis by simp
qed

lemma foldl_max:
  "foldl max (x :: 'a::linorder) xs \<in> set (x # xs) \<and> (\<forall>y \<in> set (x # xs). y \<le> foldl max x xs)"
proof (induction xs arbitrary: x)
  case (Cons a xs)
  from Cons [of "max x a"] show ?case by (auto simp: max_def split: if_splits)
qed simp

lemma remote_size_blob:
  assumes "blob_layout k rs blob"
  shows "\<exists>n. remote_size rs = Some n \<and> unat n = length blob"
proof -
  have sz: "unat (r_offset r + r_size r) = unat (r_offset r) + unat (r_size r)" if "r \<in> set rs" for r
    using assms that unfolding blob_layout_def by (intro unat_add_no_overflow) (auto intro: le_less_trans)
  obtain r0 where r0: "r0 \<in> set rs" "unat (r_offset r0) + unat (r_size r0) = length blob"
    using assms unfolding blob_layout_def by blast
  then obtain x xs where xs: "map (\<lambda>r. r_offset r + r_size r) rs = x # xs"
    by (cases rs) auto
  define m where "m = foldl max x xs"
  have set_xs: "set (x # xs) = (\<lambda>r. r_offset r + r_size r) ` set rs" using arg_cong [OF xs, of set] by simp
  have "m \<in> set (x # xs)" "\<forall>y \<in> set (x # xs). y \<le> m" using foldl_max unfolding m_def by auto
  then obtain r where r: "r \<in> set rs" "m = r_offset r + r_size r"
    and ub: "r_offset r0 + r_size r0 \<le> m"
    unfolding set_xs using r0(1) by blast
  have "unat m \<le> length blob" using r sz assms unfolding blob_layout_def by auto
  moreover have "length blob \<le> unat m" using ub r0 sz by (simp add: word_le_nat_alt)
  ultimately show ?thesis using xs by (simp add: remote_size_def m_def)
qed

section \<open>Chunks\<close>

lemma chunk_in_cache_blob:
  assumes "range_server N (url cl) blob" "cache_ok blob cache"
    and "unat base + unat len \<le> length blob" "unat len = min 4096 (length blob - unat base)"
    and "chunk_in_cache N base len (cl, cache) w = Some (Some (chunk, cl', cache'), w')"
  shows "chunk = blob_slice blob (unat base) (unat len)" "cache_ok blob cache'" "url cl' = url cl"
proof -
  have "chunk = blob_slice blob (unat base) (unat len) \<and> cache_ok blob cache' \<and> url cl' = url cl"
  proof (cases "cache base")
    case (Some d)
    with assms(2,4,5) show ?thesis by (auto simp: chunk_in_cache_def cache_ok_def)
  next
    case None
    with assms(5) have f: "fetch_range N cl base len w = Some (Ok chunk, cl', w')"
      and c: "cache' = cache(base \<mapsto> chunk)"
      by (auto simp: chunk_in_cache_def split: option.splits sum.splits)
    from fetch_range_blob [OF assms(1,3) f] assms(2,4) c show ?thesis by (simp add: cache_ok_def)
  qed
  then show "chunk = blob_slice blob (unat base) (unat len)" "cache_ok blob cache'" "url cl' = url cl"
    by simp_all
qed

lemma page_in_chunk:
  fixes f :: nat
  assumes "k \<le> m" "2 ^ k dvd f"
  shows "f mod 2 ^ m + 2 ^ k \<le> 2 ^ m"
proof -
  have "(2 :: nat) ^ k dvd 2 ^ m" using assms(1) by (rule le_imp_power_dvd)
  then obtain q where q: "(2 :: nat) ^ m = 2 ^ k * q" by (rule dvdE)
  have "2 ^ k dvd f mod 2 ^ m" using assms by (simp add: dvd_mod le_imp_power_dvd)
  then obtain j where j: "f mod 2 ^ m = 2 ^ k * j" by (rule dvdE)
  have lt: "f mod 2 ^ m < 2 ^ m" by simp
  have "j < q" using lt [unfolded j, unfolded q] by simp
  then have "Suc j * 2 ^ k \<le> q * 2 ^ k" by (intro mult_right_mono) simp_all
  then show ?thesis unfolding j unfolding q by (simp add: mult.commute)
qed

lemma chunk_slice_blob:
  assumes "lo + n \<le> len" "base + len \<le> length blob"
  shows "chunk_slice (blob_slice blob base len) lo (lo + n) = Some (blob_slice blob (base + lo) n)"
  using assms by (simp add: chunk_slice_def blob_slice_def take_drop min_def add.commute)

text \<open>The place of a fault in the blob, as a natural number.\<close>

definition blob_offset :: "nat \<Rightarrow> region \<Rightarrow> u64 \<Rightarrow> nat" where
  "blob_offset k r addr =
     unat (r_offset r) + (unat (page_base (2 ^ k) addr) - unat (base_host_virt_addr r))"

lemma blob_offset_facts:
  assumes "k < 64" "regions_wf k rs" "blob_layout k rs blob" "r \<in> set rs"
    and "in_region r (page_base (2 ^ k) addr)"
  shows "unat (r_offset r + (page_base (2 ^ k) addr - base_host_virt_addr r)) = blob_offset k r addr"
    and "2 ^ k dvd blob_offset k r addr" and "blob_offset k r addr + 2 ^ k \<le> length blob"
proof -
  let ?b = "unat (base_host_virt_addr r)" and ?d = "unat (page_base (2 ^ k) addr)"
  have al: "2 ^ k dvd ?b" using assms(2,4) unfolding regions_wf_def by blast
  have lay: "2 ^ k dvd unat (r_offset r)" "2 ^ k dvd unat (r_size r)"
    "unat (r_offset r) + unat (r_size r) \<le> length blob" "length blob < 2 ^ 64"
    using assms(3,4) unfolding blob_layout_def by blast+
  have reg: "?b \<le> ?d" "?d < ?b + unat (r_size r)"
    using assms(5) by (simp_all add: in_region_def)
  have dd: "2 ^ k dvd ?d - ?b"
    using al by (simp add: unat_page_base [OF assms(1)] dvd_diff_nat)
  then show dvd: "2 ^ k dvd blob_offset k r addr" using lay(1) by (simp add: blob_offset_def)
  obtain p where p: "?d - ?b = 2 ^ k * p" using dd by (rule dvdE)
  obtain q where q: "unat (r_size r) = 2 ^ k * q" using lay(2) by (rule dvdE)
  have "?d - ?b < unat (r_size r)" using reg by simp
  then have "p < q" unfolding p q by simp
  then have "Suc p * 2 ^ k \<le> q * 2 ^ k" by (intro mult_right_mono) simp_all
  then have "?d - ?b + 2 ^ k \<le> unat (r_size r)" unfolding p q by (simp add: mult.commute)
  with lay(3) show le: "blob_offset k r addr + 2 ^ k \<le> length blob" by (simp add: blob_offset_def)
  have sub: "unat (page_base (2 ^ k) addr - base_host_virt_addr r) = ?d - ?b"
    using reg(1) by (simp add: unat_sub word_le_nat_alt)
  show "unat (r_offset r + (page_base (2 ^ k) addr - base_host_virt_addr r)) = blob_offset k r addr"
    unfolding blob_offset_def sub [symmetric] using le lay(4)
    by (intro unat_add_no_overflow) (simp add: blob_offset_def sub)
qed

definition chunk_base :: "u64 \<Rightarrow> u64" where
  "chunk_base file_offset = file_offset AND NOT (FETCH_CHUNK_SIZE - 1)"

lemma chunk_base_page: "chunk_base f = page_base (2 ^ 12) f"
  by (simp add: chunk_base_def page_base_def FETCH_CHUNK_SIZE_def)

lemma unat_chunk_base: "unat (chunk_base f) = unat f div 4096 * 4096"
  unfolding chunk_base_page by (subst unat_page_base) simp_all

text \<open>The service of a fault once its chunk is at hand: the copy of a page of the blob.\<close>

fun copy_page ::
  "'w net_host \<Rightarrow> uffd_handler \<Rightarrow> u64 \<Rightarrow> u8 list \<Rightarrow> 's \<Rightarrow> ((u8 list \<times> 's) option \<times> 'w) option \<Rightarrow>
     (bool option \<times> 's \<times> 'w) option" where
  "copy_page N h dst bytes s None = None"
| "copy_page N h dst bytes s (Some (None, w')) = Some (None, s, w')"
| "copy_page N h dst bytes s (Some (Some (chunk, s'), w')) =
     (case copy_from_slice N h dst bytes w' of (r, w'') \<Rightarrow> Some (r, s', w''))"

lemma copy_page_Some:
  assumes "copy_page N h dst bytes s x = Some (Some b, s', w')"
  obtains chunk w1 where "x = Some (Some (chunk, s'), w1)"
  using assms by (cases "(N, h, dst, bytes, s, x)" rule: copy_page.cases) (auto split: prod.splits)

text \<open>Where the page of a fault lies in its chunk, and the chunk in the blob.\<close>

lemma page_in_blob_chunk:
  assumes "k \<le> 12" "regions_wf k (mem_regions h)" "blob_layout k (mem_regions h) blob"
    and "r \<in> set (mem_regions h)" "in_region r (page_base (2 ^ k) addr)"
    and "f = r_offset r + (page_base (2 ^ k) addr - base_host_virt_addr r)"
  obtains n len where "remote_size (mem_regions h) = Some n" "len = min (n - chunk_base f) FETCH_CHUNK_SIZE"
    "unat (chunk_base f) + unat len \<le> length blob" "unat len = min 4096 (length blob - unat (chunk_base f))"
    "unat (f - chunk_base f) = blob_offset k r addr mod 4096"
    "unat (f - chunk_base f + 2 ^ k) = blob_offset k r addr mod 4096 + 2 ^ k"
    "chunk_slice (blob_slice blob (unat (chunk_base f)) (unat len)) (blob_offset k r addr mod 4096)
       (blob_offset k r addr mod 4096 + 2 ^ k) = Some (blob_slice blob (blob_offset k r addr) (2 ^ k))"
proof -
  have "k < 64" using assms(1) by simp
  note off = blob_offset_facts [OF this assms(2-5), folded assms(6)]
  obtain n where n: "remote_size (mem_regions h) = Some n" "unat n = length blob"
    using remote_size_blob [OF assms(3)] by blast
  define len where "len = min (n - chunk_base f) FETCH_CHUNK_SIZE"
  let ?F = "blob_offset k r addr" and ?C = "unat (chunk_base f)"
  have C: "?C = ?F div 4096 * 4096" "?C \<le> ?F" "?F - ?C = ?F mod 4096"
    unfolding unat_chunk_base off(1) by (simp_all add: minus_div_mult_eq_mod div_times_less_eq_dividend)
  have le: "chunk_base f \<le> n" "chunk_base f \<le> f"
    using C(2) off n(2) by (simp_all add: word_le_nat_alt)
  have len: "unat len = min 4096 (length blob - ?C)"
    using le(1) n(2) by (simp add: len_def FETCH_CHUNK_SIZE_def min_def word_le_nat_alt unat_sub)
  have po: "unat (f - chunk_base f) = ?F mod 4096"
    using le(2) C(3) off(1) by (simp add: unat_sub)
  have fits: "?F mod 4096 + 2 ^ k \<le> 4096"
    using page_in_chunk [OF assms(1) off(2)] by simp
  have pe: "unat (f - chunk_base f + 2 ^ k) = ?F mod 4096 + 2 ^ k"
    using unat_add_no_overflow [of "f - chunk_base f" "2 ^ k"] fits by (simp add: po unat_exp \<open>k < 64\<close>)
  have blob_le: "?C + unat len \<le> length blob" using len le(1) n(2) by (simp add: word_le_nat_alt)
  have "?F mod 4096 + 2 ^ k \<le> unat len" using fits len C(2,3) off(3) by simp
  moreover have "?C + ?F mod 4096 = ?F" using C(2,3) by simp
  ultimately have "chunk_slice (blob_slice blob ?C (unat len)) (?F mod 4096) (?F mod 4096 + 2 ^ k) =
      Some (blob_slice blob ?F (2 ^ k))"
    using chunk_slice_blob [OF _ blob_le, of "?F mod 4096" "2 ^ k"] by simp
  with n(1) len_def blob_le len po pe show ?thesis by (rule that)
qed

lemma serve_remote_pf_refines:
  assumes "page_size h = 2 ^ k" "k \<le> 12" "regions_wf k (mem_regions h)" "blob_layout k (mem_regions h) blob"
    and "r \<in> set (mem_regions h)" "in_region r (page_base (2 ^ k) addr)"
    and "range_server N (url cl) blob" "cache_ok blob cache"
    and "f = r_offset r + (page_base (2 ^ k) addr - base_host_virt_addr r)"
    and "file_offset_for_addr h addr = Some (page_base (2 ^ k) addr, f)"
  obtains len where
    "serve_remote_pf N h addr (cl, cache) w =
       copy_page N h (page_base (2 ^ k) addr) (blob_slice blob (blob_offset k r addr) (2 ^ k)) (cl, cache)
         (chunk_in_cache N (chunk_base f) len (cl, cache) w)"
    and "\<And>chunk cl' cache' w'.
       chunk_in_cache N (chunk_base f) len (cl, cache) w = Some (Some (chunk, cl', cache'), w') \<Longrightarrow>
       cache_ok blob cache' \<and> url cl' = url cl"
proof -
  obtain n len where n: "remote_size (mem_regions h) = Some n" and len: "len = min (n - chunk_base f) FETCH_CHUNK_SIZE"
    and bl: "unat (chunk_base f) + unat len \<le> length blob" "unat len = min 4096 (length blob - unat (chunk_base f))"
    and po: "unat (f - chunk_base f) = blob_offset k r addr mod 4096"
      "unat (f - chunk_base f + 2 ^ k) = blob_offset k r addr mod 4096 + 2 ^ k"
    and slice: "chunk_slice (blob_slice blob (unat (chunk_base f)) (unat len)) (blob_offset k r addr mod 4096)
       (blob_offset k r addr mod 4096 + 2 ^ k) = Some (blob_slice blob (blob_offset k r addr) (2 ^ k))"
    by (rule page_in_blob_chunk [OF assms(2-6,9)])
  note chunk = chunk_in_cache_blob [OF assms(7,8) bl]
  note unfold = serve_remote_pf_def assms(1,10) n Let_def po
  let ?fetch = "chunk_in_cache N (chunk_base f) len (cl, cache) w"
  have "serve_remote_pf N h addr (cl, cache) w =
       copy_page N h (page_base (2 ^ k) addr) (blob_slice blob (blob_offset k r addr) (2 ^ k)) (cl, cache) ?fetch"
  proof (cases "(N, h, addr, blob, (cl, cache), ?fetch)" rule: copy_page.cases)
    case (3 _ _ _ _ _ d s' w')
    obtain cl' cache' where s': "s' = (cl', cache')" by (cases s')
    have got: "?fetch = Some (Some (d, cl', cache'), w')" using 3 unfolding s' prod.inject by blast
    from chunk(1) [OF got] slice got show ?thesis by (simp add: unfold flip: chunk_base_def len)
  qed (simp_all add: unfold flip: chunk_base_def len)
  then show ?thesis by (rule that) (use chunk(2,3) in blast)
qed

section \<open>Properties of the service\<close>

text \<open>
  C27: the remote service refines a copy from the blob. For pages of at most the chunk size, regions
  laid out in whole pages and a server of the blob, a fault in a region copies exactly the page
  of the blob at the place of the fault, whether its chunk comes from the cache or from the
  server and although chunks at the end of the blob are shorter: the slice of the chunk is never
  out of range. Nothing else is done, and the fault fails only when the fetch does.
\<close>

theorem remote_fault_served_from_blob:
  assumes "page_size h = 2 ^ k" "k \<le> 12" "regions_wf k (mem_regions h)" "blob_layout k (mem_regions h) blob"
    and "r \<in> set (mem_regions h)" "in_region r addr"
    and "range_server N (url cl) blob" "cache_ok blob cache"
  shows "\<exists>base len. serve_remote_pf N h addr (cl, cache) w =
    copy_page N h (page_base (2 ^ k) addr) (blob_slice blob (blob_offset k r addr) (2 ^ k)) (cl, cache)
      (chunk_in_cache N base len (cl, cache) w)"
proof -
  have k: "k < 64" using assms(2) by simp
  have "2 ^ k dvd unat (base_host_virt_addr r)" using assms(3,5) unfolding regions_wf_def by blast
  then have reg: "in_region r (page_base (2 ^ k) addr)" using page_base_in_region [OF k _ assms(6)] by blast
  have off: "file_offset_for_addr h addr =
      Some (page_base (2 ^ k) addr, r_offset r + (page_base (2 ^ k) addr - base_host_virt_addr r))"
    using find_region [OF assms(3) k assms(5,6)] by (simp add: file_offset_for_addr_def assms(1) Let_def)
  show ?thesis
    by (rule serve_remote_pf_refines [OF assms(1-5) reg assms(7,8) refl off]) (intro exI)
qed

definition remote_inv ::
  "'w net_host \<Rightarrow> uffd_handler \<Rightarrow> nat \<Rightarrow> u8 list \<Rightarrow> http_client \<times> chunk_cache \<Rightarrow> bool" where
  "remote_inv N h k blob s =
     (page_size h = 2 ^ k \<and> k \<le> 12 \<and> regions_wf k (mem_regions h) \<and> blob_layout k (mem_regions h) blob \<and>
      range_server N (url (fst s)) blob \<and> cache_ok blob (snd s))"

lemma file_offset_region:
  assumes "file_offset_for_addr h addr = Some (dst, f)"
  obtains r where "r \<in> set (mem_regions h)" "dst = page_base (page_size h) addr" "contains r dst"
    "f = r_offset r + (dst - base_host_virt_addr r)"
  using assms that
  by (auto simp: file_offset_for_addr_def Let_def find_Some_iff split: option.splits) (metis nth_mem)

lemma serve_remote_inv:
  assumes "remote_inv N h k blob (cl, cache)"
    and "serve_remote_pf N h addr (cl, cache) w = Some (Some b, s', w')"
  shows "remote_inv N h k blob s'"
proof -
  note inv = assms(1) [unfolded remote_inv_def fst_conv snd_conv]
  from assms(2) obtain dst f where f: "file_offset_for_addr h addr = Some (dst, f)"
    by (auto simp: serve_remote_pf_def split: option.splits)
  from f obtain r where r: "r \<in> set (mem_regions h)" "dst = page_base (page_size h) addr" "contains r dst"
    "f = r_offset r + (dst - base_host_virt_addr r)"
    by (rule file_offset_region)
  have "unat (base_host_virt_addr r) + unat (r_size r) < 2 ^ 64"
    using inv r(1) unfolding regions_wf_def by blast
  then have reg: "in_region r (page_base (2 ^ k) addr)" using r(2,3) inv contains_in_region by simp
  have off: "file_offset_for_addr h addr = Some (page_base (2 ^ k) addr, f)" using f r(2) inv by simp
  have feq: "f = r_offset r + (page_base (2 ^ k) addr - base_host_virt_addr r)" using r(2,4) inv by simp
  from inv have facts: "page_size h = 2 ^ k" "k \<le> 12" "regions_wf k (mem_regions h)"
    "blob_layout k (mem_regions h) blob" "range_server N (url cl) blob" "cache_ok blob cache" by simp_all
  obtain len where s: "serve_remote_pf N h addr (cl, cache) w =
       copy_page N h (page_base (2 ^ k) addr) (blob_slice blob (blob_offset k r addr) (2 ^ k)) (cl, cache)
         (chunk_in_cache N (chunk_base f) len (cl, cache) w)"
    and c: "\<And>chunk cl' cache' w'.
       chunk_in_cache N (chunk_base f) len (cl, cache) w = Some (Some (chunk, cl', cache'), w') \<Longrightarrow>
       cache_ok blob cache' \<and> url cl' = url cl"
    using serve_remote_pf_refines [OF facts(1-4) r(1) reg facts(5,6) feq off] by blast
  from copy_page_Some [OF assms(2) [unfolded s]] obtain chunk cl' cache' w1
    where "chunk_in_cache N (chunk_base f) len (cl, cache) w = Some (Some (chunk, cl', cache'), w1)"
      "s' = (cl', cache')"
    by (metis prod.collapse)
  with c facts show ?thesis by (auto simp: remote_inv_def)
qed

interpretation remote_server: page_server "serve_remote_pf N h" "remote_inv N h k blob"
  by unfold_locales (metis serve_remote_inv prod.collapse)

text \<open>
  C30: the cache never holds anything but chunks of the blob. The invariant that makes the service
  correct is kept by a whole call of the handler, over all rounds of events, deferred faults and
  removals included.
\<close>

theorem remote_dispatch_keeps_cache:
  assumes "remote_inv N h k blob s"
    and "remote_dispatch U N h (copied, s) w = Some (Some (copied', s'), w')"
  shows "remote_inv N h k blob s'"
proof -
  from assms(2) have "dispatch_loop U h (serve_remote_pf N h) [] copied s w = Some (Some (copied', s'), w')"
    by (auto simp: remote_dispatch_def split: option.splits)
  from remote_server.dispatch_loop_inv [OF this assms(1) refl] show ?thesis .
qed

section \<open>Faults that are not served\<close>

text \<open>
  pages larger than a chunk cannot be served. For a page size above 4096 bytes (Firecracker
  offers 2 MiB pages) the slice of the fetched chunk is always out of range, and no fault is ever
  served: the handler panics or does not return.
\<close>

theorem large_page_never_served:
  assumes "page_size h = 2 ^ k" "12 < k" "k < 64"
    and "\<forall>c n w data w'. n_read_exact N c n w = (Ok data, w') \<longrightarrow> length data = n"
    and "\<forall>base chunk. cache base = Some chunk \<longrightarrow> length chunk \<le> 4096"
  shows "serve_remote_pf N h addr (cl, cache) w \<noteq> Some (Some b, s', w')"
proof
  assume s: "serve_remote_pf N h addr (cl, cache) w = Some (Some b, s', w')"
  from s obtain dst f rsize where f: "file_offset_for_addr h addr = Some (dst, f)"
    and n: "remote_size (mem_regions h) = Some rsize"
    by (auto simp: serve_remote_pf_def split: option.splits)
  define len where "len = min (rsize - chunk_base f) FETCH_CHUNK_SIZE"
  have "len \<le> FETCH_CHUNK_SIZE" by (simp add: len_def)
  then have len: "unat len \<le> 4096" by (simp add: FETCH_CHUNK_SIZE_def word_le_nat_alt)
  from s f n obtain chunk s1 w1 bytes
    where c: "chunk_in_cache N (chunk_base f) len (cl, cache) w = Some (Some (chunk, s1), w1)"
      and sl: "chunk_slice chunk (unat (f - chunk_base f)) (unat (f - chunk_base f + page_size h)) = Some bytes"
    by (auto simp: serve_remote_pf_def Let_def split: option.splits prod.splits simp flip: chunk_base_def len_def)
  have "length chunk \<le> 4096"
  proof (cases "cache (chunk_base f)")
    case (Some d)
    with c assms(5) show ?thesis by (auto simp: chunk_in_cache_def)
  next
    case None
    with c obtain cl' where "fetch_range N cl (chunk_base f) len w = Some (Ok chunk, cl', w1)"
      by (auto simp: chunk_in_cache_def split: option.splits sum.splits)
    then have "length chunk = unat len"
      using assms(4) by (elim fetch_range_from_once fetch_range_once_trace) blast
    with len show ?thesis by simp
  qed
  moreover have "4096 < unat (f - chunk_base f + page_size h)"
  proof -
    have "unat (chunk_base f) \<le> unat f" by (simp add: unat_chunk_base div_times_less_eq_dividend)
    then have "unat (f - chunk_base f) = unat f mod 4096"
      by (simp add: unat_sub word_le_nat_alt unat_chunk_base minus_div_mult_eq_mod)
    then have po: "unat (f - chunk_base f) < 4096" by simp
    have "(2 :: nat) ^ 13 \<le> 2 ^ k" "(2 :: nat) ^ k \<le> 2 ^ 63" using assms(2,3) by (intro power_increasing; simp)+
    with po unat_add_no_overflow [of "f - chunk_base f" "2 ^ k"] show ?thesis
      by (simp add: assms(1,3) unat_exp)
  qed
  ultimately show False using sl by (auto simp: chunk_slice_def split: if_splits)
qed

text \<open>States of the stream in which it has ended: reading a line gives the empty text for ever.\<close>

definition at_eof :: "'w net_host \<Rightarrow> nat \<Rightarrow> 'w set \<Rightarrow> bool" where
  "at_eof N c S = (\<forall>w \<in> S. \<exists>w' \<in> S. n_read_line N c w = (Ok [], w'))"

lemma header_loop_eof:
  assumes "at_eof N c S" "w \<in> S"
  shows "header_loop N c content_len w = None"
proof (rule ccontr)
  assume "header_loop N c content_len w \<noteq> None"
  then obtain r where "header_loop N c content_len w = Some r" by blast
  then have "at_eof N c S \<longrightarrow> w \<notin> S"
  proof (induction rule: header_loop.raw_induct [rotated, consumes 1, case_names step])
    case (step loop N c content_len w r)
    show ?case
    proof (intro impI notI)
      assume eof: "at_eof N c S" and w: "w \<in> S"
      then obtain w' where w': "w' \<in> S" "n_read_line N c w = (Ok [], w')" unfolding at_eof_def by blast
      with step(2) have "loop N c content_len w' = Some r" by (simp add: crlf_def)
      from step(1) [OF this] eof w'(1) show False by blast
    qed
  qed
  with assms show False by blast
qed


section \<open>A concrete server\<close>

text \<open>
  A server of one page of zeros: the world is the number of lines already sent for the current
  request. One variant closes the connection after the status line.
\<close>

definition zero_page :: "u8 list" where "zero_page = replicate 4096 0"

definition reply_line :: "nat \<Rightarrow> string" where
  "reply_line n =
     (if n = 0 then ''HTTP/1.1 206 Partial'' @ crlf
      else if n = 1 then ''Content-Length: 4096'' @ crlf else crlf)"

definition page_host :: "nat net_host" where
  "page_host =
     \<lparr> n_connect = (\<lambda>_ _ w. (Ok 5, w)), n_set_nodelay = (\<lambda>_ w. (Ok (), w)),
       n_write = (\<lambda>_ _ w. (Ok (), 0)), n_flush = (\<lambda>_ w. (Ok (), w)),
       n_read_line = (\<lambda>_ w. (Ok (reply_line w), Suc w)),
       n_read_exact = (\<lambda>_ n w. (Ok (replicate n 0), w)),
       n_copy_bytes = (\<lambda>_ bytes _ w. (CopyOk (of_nat (length bytes)), w)) \<rparr>"

definition cut_host :: "nat net_host" where
  "cut_host = page_host\<lparr>n_read_line := \<lambda>_ w. (Ok (if w = 0 then reply_line 0 else []), Suc w)\<rparr>"

definition demo_url :: http_url where
  "demo_url = \<lparr>u_host = ''blob'', u_port = 80, u_path = ''/m'', host_header = ''blob''\<rparr>"

definition demo_client :: http_client where
  "demo_client = \<lparr>url = demo_url, reader = Some 5\<rparr>"

definition page_handler :: "u64 \<Rightarrow> uffd_handler" where
  "page_handler ps =
     \<lparr>mem_regions = [\<lparr>base_host_virt_addr = 0x10000, r_size = 0x1000, r_offset = 0, r_page_size = ps\<rparr>],
      page_size = ps, backing_buffer = 0, uffd = 3\<rparr>"

lemma page_host_serves: "range_server page_host u zero_page"
  by (auto simp: range_server_def page_host_def zero_page_def blob_slice_def)

lemma page_handler_wf:
  "regions_wf 12 (mem_regions (page_handler 4096))"
  "blob_layout 12 (mem_regions (page_handler 4096)) zero_page"
  by (simp_all add: regions_wf_def blob_layout_def page_handler_def zero_page_def)

theorem parse_url_roundtrip_witness:
  "parse_url ''http://::1:8080/mem'' =
     Some \<lparr>u_host = ''::1'', u_port = 8080, u_path = ''/mem'', host_header = ''::1:8080''\<rparr>"
proof -
  have "show_nat 8080 = ''8080''"
    by (simp add: show_nat_def show_base.simps digit_char_def char_of_eq_iff)
  then show ?thesis using parse_url_roundtrip [of "''::1''" 8080 "''mem''"] by simp
qed

theorem remote_fault_served_from_blob_witness:
  "\<exists>base len. serve_remote_pf page_host (page_handler 4096) 0x10123 (demo_client, Map.empty) 0 =
     copy_page page_host (page_handler 4096) (page_base (2 ^ 12) 0x10123)
       (blob_slice zero_page (blob_offset 12 (hd (mem_regions (page_handler 4096))) 0x10123) (2 ^ 12))
       (demo_client, Map.empty) (chunk_in_cache page_host base len (demo_client, Map.empty) 0)"
proof (rule remote_fault_served_from_blob)
  show "regions_wf 12 (mem_regions (page_handler 4096))" by (rule page_handler_wf)
  show "blob_layout 12 (mem_regions (page_handler 4096)) zero_page" by (rule page_handler_wf)
  show "range_server page_host (url demo_client) zero_page" by (rule page_host_serves)
qed (simp_all add: page_handler_def in_region_def cache_ok_def)

definition one_fault :: "nat uffd_host" where
  "one_fault = quiet_uffd\<lparr>u_read_event := \<lambda>_ w. (Inr (if w = 1 then Some (Pagefault 0x10123) else None), 0)\<rparr>"

definition warm_cache :: chunk_cache where
  "warm_cache = [0 \<mapsto> zero_page]"

lemma warm_service:
  "serve_remote_pf page_host (page_handler 4096) 0x10123 (demo_client, warm_cache) 0 =
     Some (Some True, (demo_client, warm_cache), 0)"
proof -
  have "file_offset_for_addr (page_handler 4096) 0x10123 = Some (0x10000, 0)"
    by (simp add: file_offset_for_addr_def page_handler_def page_base_def contains_def Let_def)
  moreover have "remote_size (mem_regions (page_handler 4096)) = Some 4096"
    by (simp add: remote_size_def page_handler_def)
  moreover have "copy_from_slice page_host (page_handler 4096) 0x10000 zero_page 0 = (Some True, 0)"
    by (simp add: copy_from_slice_def page_host_def page_handler_def zero_page_def)
  ultimately show ?thesis
    by (simp add: serve_remote_pf_def chunk_in_cache_def warm_cache_def chunk_slice_def zero_page_def
        page_handler_def Let_def)
qed

theorem remote_dispatch_keeps_cache_witness:
  "\<exists>n s' w'. remote_dispatch one_fault page_host (page_handler 4096) (0, demo_client, warm_cache) 1
       = Some (Some (n, s'), w') \<and>
     remote_inv page_host (page_handler 4096) 12 zero_page s'"
proof -
  have inv: "remote_inv page_host (page_handler 4096) 12 zero_page (demo_client, warm_cache)"
    using page_handler_wf page_host_serves
    by (simp add: remote_inv_def cache_ok_def warm_cache_def blob_slice_def zero_page_def)
      (simp add: page_handler_def)
  have ev: "read_events one_fault (page_handler 4096) [] 1 = Some (Some [Pagefault 0x10123], 0)"
    by (subst read_events.simps, simp add: one_fault_def, subst read_events.simps, simp)
  have "remote_dispatch one_fault page_host (page_handler 4096) (0, demo_client, warm_cache) 1
      = Some (Some (1, demo_client, warm_cache), 0)"
    unfolding remote_dispatch_def by (subst dispatch_loop.simps) (simp add: ev [simplified] warm_service)
  with remote_dispatch_keeps_cache [OF inv this] show ?thesis by blast
qed

theorem large_page_never_served_witness:
  "serve_remote_pf page_host (page_handler (2 ^ 21)) 0x10123 (demo_client, Map.empty) 0 \<noteq>
     Some (Some True, (demo_client, Map.empty), 0)"
  by (rule large_page_never_served [where k = 21]) (simp_all add: page_handler_def page_host_def)


end
