(* ===== verification/Uffd_Main.thy ===== *)
theory Uffd_Main
  imports Uffd_Remote
begin

text \<open>
  The two programs, \<open>main\<close> of on_demand_handler.rs and of remote_range_handler.rs, with the panic
  hook and the peer credentials of uffd_utils.rs. A program ends with the line it prints or
  panics; once the hook is installed a panic kills the peer of the socket, which is Firecracker.
\<close>

section \<open>The programs\<close>

record 'w os_host =
  o_open :: "string \<Rightarrow> 'w \<Rightarrow> nat option \<times> 'w"
  o_bind :: "string \<Rightarrow> 'w \<Rightarrow> nat option \<times> 'w"
  o_accept :: "nat \<Rightarrow> 'w \<Rightarrow> nat option \<times> 'w"
  o_peercred :: "nat \<Rightarrow> 'w \<Rightarrow> nat option"
  o_kill :: "nat \<Rightarrow> 'w \<Rightarrow> bool \<times> 'w"
  o_signal :: "string \<Rightarrow> 'w \<Rightarrow> 'w"

datatype main_outcome = Printed string | Panicked_unhooked | Panicked_hooked (killed: nat)

definition arg :: "string list \<Rightarrow> nat \<Rightarrow> string option" where
  "arg args i = (if i < length args then Some (args ! i) else None)"

definition install_shutdown_signal_handlers :: "'w os_host \<Rightarrow> 'w \<Rightarrow> 'w" where
  "install_shutdown_signal_handlers S w = o_signal S ''SIGINT'' (o_signal S ''SIGTERM'' w)"

definition listen_and_accept :: "'w os_host \<Rightarrow> string \<Rightarrow> 'w \<Rightarrow> nat option \<times> 'w" where
  "listen_and_accept S path w =
     (case o_bind S path w of
        (None, w') \<Rightarrow> (None, w')
      | (Some l, w') \<Rightarrow> o_accept S l w')"

text \<open>The hook: a panic kills the peer, whatever the result, and then the default hook runs.\<close>

definition run_hooked ::
  "'w os_host \<Rightarrow> nat \<Rightarrow> ((runtime \<times> 'c) option \<times> 'w) option \<Rightarrow> ('c \<Rightarrow> u64) \<Rightarrow> (main_outcome \<times> 'w) option" where
  "run_hooked S pid r copied_pages =
     (case r of
        None \<Rightarrow> None
      | Some (None, w) \<Rightarrow> (case o_kill S pid w of (_, w') \<Rightarrow> Some (Panicked_hooked pid, w'))
      | Some (Some (_, c), w) \<Rightarrow> Some (Printed (''COPIED_PAGES='' @ show_nat (unat (copied_pages c))), w))"

definition serve_hooked ::
  "'w uffd_host \<Rightarrow> 'w poll_host \<Rightarrow> 'w os_host \<Rightarrow> ('c, 'w) dispatch \<Rightarrow> runtime \<Rightarrow> ('c \<Rightarrow> u64) \<Rightarrow> 'c \<Rightarrow> 'w \<Rightarrow>
     (main_outcome \<times> 'w) option" where
  "serve_hooked U K S dispatch rt copied_pages c w =
     (case o_peercred S (stream rt) w of
        None \<Rightarrow> Some (Panicked_unhooked, w)
      | Some pid \<Rightarrow>
          run_hooked S pid (run U K dispatch rt c (install_shutdown_signal_handlers S w)) copied_pages)"

definition on_demand_main ::
  "'w uffd_host \<Rightarrow> 'w poll_host \<Rightarrow> 'w os_host \<Rightarrow> string list \<Rightarrow> 'w \<Rightarrow> (main_outcome \<times> 'w) option" where
  "on_demand_main U K S args w =
     (case arg args 1 of
        None \<Rightarrow> Some (Panicked_unhooked, w)
      | Some uffd_sock_path \<Rightarrow>
     (case arg args 2 of
        None \<Rightarrow> Some (Panicked_unhooked, w)
      | Some mem_file_path \<Rightarrow>
     (case o_open S mem_file_path w of
        (None, w1) \<Rightarrow> Some (Panicked_unhooked, w1)
      | (Some file, w1) \<Rightarrow>
     (case listen_and_accept S uffd_sock_path w1 of
        (None, w2) \<Rightarrow> Some (Panicked_unhooked, w2)
      | (Some strm, w2) \<Rightarrow>
     (case new_runtime K strm file w2 of
        (None, w3) \<Rightarrow> Some (Panicked_unhooked, w3)
      | (Some rt, w3) \<Rightarrow> serve_hooked U K S (local_dispatch U) rt id 0 w3)))))"

definition remote_main ::
  "'w uffd_host \<Rightarrow> 'w net_host \<Rightarrow> 'w poll_host \<Rightarrow> 'w os_host \<Rightarrow> string list \<Rightarrow> 'w \<Rightarrow>
     (main_outcome \<times> 'w) option" where
  "remote_main U N K S args w =
     (case arg args 1 of
        None \<Rightarrow> Some (Panicked_unhooked, w)
      | Some uffd_sock_path \<Rightarrow>
     (case arg args 2 of
        None \<Rightarrow> Some (Panicked_unhooked, w)
      | Some memory_blob_url \<Rightarrow>
     (case listen_and_accept S uffd_sock_path w of
        (None, w1) \<Rightarrow> Some (Panicked_unhooked, w1)
      | (Some strm, w1) \<Rightarrow>
     (case new_client memory_blob_url of
        None \<Rightarrow> Some (Panicked_unhooked, w1)
      | Some client \<Rightarrow>
          serve_hooked U K S (remote_dispatch U N) (new_remote strm) fst (0, client, Map.empty) w1))))"

section \<open>Properties\<close>

text \<open>
  Firecracker does not outlive a failed handler. When a program has accepted its connection and
  knows its peer, a run that ends without the count of copied pages has killed that peer; a
  vCPU that waits for a page is never left without a handler.
\<close>

theorem failed_handler_kills_firecracker:
  assumes "o_peercred S (stream rt) w = Some pid"
    and "serve_hooked U K S dispatch rt copied_pages c w = Some (r, w')"
  shows "(\<exists>n. r = Printed (''COPIED_PAGES='' @ show_nat n)) \<or>
    r = Panicked_hooked pid \<and> (\<exists>w1. w' = snd (o_kill S pid w1))"
proof -
  from assms obtain x w1 where x: "run U K dispatch rt c (install_shutdown_signal_handlers S w) = Some (x, w1)"
    by (auto simp: serve_hooked_def run_hooked_def split: option.splits)
  show ?thesis
  proof (cases x)
    case None
    with assms x have "r = Panicked_hooked pid" "w' = snd (o_kill S pid w1)"
      by (simp_all add: serve_hooked_def run_hooked_def split: prod.splits)
    then show ?thesis by blast
  next
    case (Some y)
    then have "serve_hooked U K S dispatch rt copied_pages c w =
        Some (Printed (''COPIED_PAGES='' @ show_nat (unat (copied_pages (snd y)))), w1)"
      using assms(1) x by (simp add: serve_hooked_def run_hooked_def split_beta)
    with assms(2) have "r = Printed (''COPIED_PAGES='' @ show_nat (unat (copied_pages (snd y))))"
      by (simp only: option.inject prod.inject)
    then show ?thesis by blast
  qed
qed

definition demo_os :: "nat os_host" where
  "demo_os =
     \<lparr> o_open = (\<lambda>_ w. (Some 4, w)), o_bind = (\<lambda>_ w. (Some 5, w)), o_accept = (\<lambda>_ w. (Some 3, w)),
       o_peercred = (\<lambda>_ _. Some 77), o_kill = (\<lambda>_ w. (True, w)), o_signal = (\<lambda>_ w. w) \<rparr>"

theorem failed_handler_kills_firecracker_witness:
  "\<exists>r w'. serve_hooked hung_up_uffd two_polls demo_os count_dispatch (new_remote 3) of_nat 0 1 = Some (r, w') \<and>
     ((\<exists>n. r = Printed (''COPIED_PAGES='' @ show_nat n)) \<or> r = Panicked_hooked 77)"
proof -
  have "\<exists>w'. run hung_up_uffd two_polls count_dispatch (new_remote 3) 0 1 = Some (None, w')"
    by (rule closed_stream_run [OF hung_up_facts])
  then obtain r w' where s: "serve_hooked hung_up_uffd two_polls demo_os count_dispatch (new_remote 3) of_nat 0 1
      = Some (r, w')"
    by (auto simp: serve_hooked_def run_hooked_def demo_os_def install_shutdown_signal_handlers_def)
  have "o_peercred demo_os (stream (new_remote 3)) 1 = Some 77" by (simp add: demo_os_def)
  from failed_handler_kills_firecracker [OF this s] s show ?thesis by blast
qed

end
