(* ===== verification/Block_Request.thy ===== *)
theory Block_Request
  imports Prelude "HOL-Library.Word"
begin

text \<open>
  The requests of the virtio block device,
  src/firecracker-build/fc-change-set/src/vmm/src/devices/virtio/block/virtio: request.rs (parsing
  of a descriptor chain, rate limiting, execution and completion of a request), the errors and
  constants of mod.rs and the request trace of trace.rs. Guest memory, the rate limiter, the
  file engine and the trace file are not part of this code: they are fields of a record over a
  world. The numbers of request types, status codes and feature bits are those of the virtio
  specification. Log messages are not modelled, the metrics are, without latencies.
\<close>

section \<open>Constants and errors\<close>

definition SECTOR_SHIFT :: nat where "SECTOR_SHIFT = 9"
definition SECTOR_SIZE :: u32 where "SECTOR_SIZE = push_bit SECTOR_SHIFT 1"

definition VIRTIO_BLK_T_IN :: u32 where "VIRTIO_BLK_T_IN = 0"
definition VIRTIO_BLK_T_OUT :: u32 where "VIRTIO_BLK_T_OUT = 1"
definition VIRTIO_BLK_T_FLUSH :: u32 where "VIRTIO_BLK_T_FLUSH = 4"
definition VIRTIO_BLK_T_GET_ID :: u32 where "VIRTIO_BLK_T_GET_ID = 8"
definition VIRTIO_BLK_ID_BYTES :: u32 where "VIRTIO_BLK_ID_BYTES = 20"
definition VIRTIO_BLK_S_OK :: u8 where "VIRTIO_BLK_S_OK = 0"
definition VIRTIO_BLK_S_IOERR :: u8 where "VIRTIO_BLK_S_IOERR = 1"
definition VIRTIO_BLK_S_UNSUPP :: u8 where "VIRTIO_BLK_S_UNSUPP = 2"

lemmas virtio_defs =
  SECTOR_SHIFT_def SECTOR_SIZE_def VIRTIO_BLK_T_IN_def VIRTIO_BLK_T_OUT_def VIRTIO_BLK_T_FLUSH_def
  VIRTIO_BLK_T_GET_ID_def VIRTIO_BLK_ID_BYTES_def VIRTIO_BLK_S_OK_def VIRTIO_BLK_S_IOERR_def
  VIRTIO_BLK_S_UNSUPP_def

datatype virtio_block_error =
    Config
  | DescriptorChainTooShort
  | DescriptorLengthTooSmall
  | GetFileMetadata string
  | GuestMemory string
  | InvalidDataLength
  | InvalidOffset
  | UnexpectedReadOnlyDescriptor
  | UnexpectedWriteOnlyDescriptor
  | FileEngineError string
  | BackingFile string string
  | EventFdError string
  | InterruptError string
  | RateLimiterError string
  | Persist string

datatype io_err =
    GetIdErr string
  | PartialTransfer (completed: u32) (expected: u32)
  | FileEngineIo string

section \<open>Requests\<close>

datatype request_type = In | Out | Flush | GetDeviceID | Unsupported u32

definition request_type_from :: "u32 \<Rightarrow> request_type" where
  "request_type_from v =
     (if v = VIRTIO_BLK_T_IN then In
      else if v = VIRTIO_BLK_T_OUT then Out
      else if v = VIRTIO_BLK_T_FLUSH then Flush
      else if v = VIRTIO_BLK_T_GET_ID then GetDeviceID
      else Unsupported v)"

record finished_request =
  num_bytes_to_mem :: u32
  f_desc_idx :: u16

datatype processing_result = Submitted | Throttled | Executed finished_request

datatype status =
    StatusOk u32
  | StatusIoErr u32 io_err
  | StatusUnsupported u32

definition status_from_data :: "u32 \<Rightarrow> u32 \<Rightarrow> bool \<Rightarrow> status" where
  "status_from_data data_len transferred data_to_mem =
     (let n = (if data_to_mem then transferred else 0)
      in if transferred = data_len then StatusOk n
         else StatusIoErr n (PartialTransfer transferred data_len))"

record pending_request =
  p_type :: request_type
  p_data_len :: u32
  p_status_addr :: u64
  p_desc_idx :: u16

record request_header =
  h_request_type :: u32
  h_reserved :: u32
  h_sector :: u64

record request =
  rq_type :: request_type
  rq_data_len :: u32
  rq_status_addr :: u64
  rq_sector :: u64
  rq_data_addr :: u64

text \<open>
  A descriptor chain as the queue hands it out: the fields of its first descriptor and the result of
  \<open>next_descriptor\<close>, which reads and checks the next one.
\<close>

datatype desc_chain =
  Desc (d_index: u16) (d_addr: u64) (d_len: u32) (is_write_only: bool) (has_next: bool)
    (next_descriptor: "desc_chain option")

record block_metrics =
  invalid_reqs_count :: nat
  read_bytes :: nat
  read_count :: nat
  write_bytes :: nat
  write_count :: nat
  flush_count :: nat
  execute_fails :: nat
  remaining_reqs_count :: nat
  rate_limiter_throttled_events :: nat
  io_engine_throttled_events :: nat
  rate_limiter_event_count :: nat
  queue_event_count :: nat
  event_fails :: nat
  no_avail_buffer :: nat
  update_count :: nat
  cfg_fails :: nat
  activate_fails :: nat

definition zero_metrics :: block_metrics where
  "zero_metrics =
     \<lparr>invalid_reqs_count = 0, read_bytes = 0, read_count = 0, write_bytes = 0, write_count = 0,
      flush_count = 0, execute_fails = 0, remaining_reqs_count = 0, rate_limiter_throttled_events = 0,
      io_engine_throttled_events = 0, rate_limiter_event_count = 0, queue_event_count = 0,
      event_fails = 0, no_avail_buffer = 0, update_count = 0, cfg_fails = 0, activate_fails = 0\<rparr>"

datatype token_type = Bytes | Ops

record block_trace =
  t_path :: string
  drive_filter :: "string option"

text \<open>What the file engine returns, with the request it was given.\<close>

datatype engine_result =
    EngineSubmitted
  | EngineExecuted u32 pending_request
  | EngineErr string pending_request

record 'w block_host =
  g_read_header :: "u64 \<Rightarrow> 'w \<Rightarrow> request_header res"
  g_write_status :: "u8 \<Rightarrow> u64 \<Rightarrow> 'w \<Rightarrow> unit res \<times> 'w"
  g_write_slice :: "u8 list \<Rightarrow> u64 \<Rightarrow> 'w \<Rightarrow> unit res \<times> 'w"
  rl_consume :: "u64 \<Rightarrow> token_type \<Rightarrow> 'w \<Rightarrow> bool \<times> 'w"
  rl_replenish :: "u64 \<Rightarrow> token_type \<Rightarrow> 'w \<Rightarrow> 'w"
  e_read :: "u64 \<Rightarrow> u64 \<Rightarrow> u32 \<Rightarrow> pending_request \<Rightarrow> 'w \<Rightarrow> engine_result \<times> 'w"
  e_write :: "u64 \<Rightarrow> u64 \<Rightarrow> u32 \<Rightarrow> pending_request \<Rightarrow> 'w \<Rightarrow> engine_result \<times> 'w"
  e_flush :: "pending_request \<Rightarrow> 'w \<Rightarrow> engine_result \<times> 'w"
  e_is_throttling_err :: "string \<Rightarrow> bool"
  t_var :: "string \<Rightarrow> 'w \<Rightarrow> string option"
  t_cell :: "'w \<Rightarrow> block_trace option option"
  t_set_cell :: "block_trace option \<Rightarrow> 'w \<Rightarrow> 'w"
  t_now :: "'w \<Rightarrow> nat option \<times> 'w"
  t_append :: "string \<Rightarrow> string \<Rightarrow> 'w \<Rightarrow> 'w"

subsection \<open>Completion\<close>

definition status_reply :: "status \<Rightarrow> u32 \<times> u8 \<times> nat" where
  "status_reply st =
     (case st of
        StatusOk n \<Rightarrow> (n, VIRTIO_BLK_S_OK, 0)
      | StatusIoErr n err \<Rightarrow> (n, VIRTIO_BLK_S_IOERR, 1)
      | StatusUnsupported op \<Rightarrow> (0, VIRTIO_BLK_S_UNSUPP, 1))"

definition write_status_and_finish ::
  "'w block_host \<Rightarrow> pending_request \<Rightarrow> status \<Rightarrow> block_metrics \<Rightarrow> 'w \<Rightarrow>
     finished_request \<times> block_metrics \<times> 'w" where
  "write_status_and_finish H req st m w =
     (case status_reply st of (n, code, invalid) \<Rightarrow>
      case g_write_status H code (p_status_addr req) w of (r, w') \<Rightarrow>
        (\<lparr>num_bytes_to_mem = (case r of Inr _ \<Rightarrow> n + 1 | Inl _ \<Rightarrow> 0), f_desc_idx = p_desc_idx req\<rparr>,
         m\<lparr>invalid_reqs_count := invalid_reqs_count m + invalid\<rparr>, w'))"

definition is_status_ok :: "status \<Rightarrow> bool" where
  "is_status_ok st = (case st of StatusOk _ \<Rightarrow> True | _ \<Rightarrow> False)"

fun completion_status :: "io_err + u32 \<Rightarrow> request_type \<Rightarrow> u32 \<Rightarrow> status" where
  "completion_status res (Unsupported op) len = StatusUnsupported op"
| "completion_status (Inr n) In len = status_from_data len n True"
| "completion_status (Inr n) Out len = status_from_data len n False"
| "completion_status (Inr n) Flush len = StatusOk 0"
| "completion_status (Inr n) GetDeviceID len = status_from_data len n True"
| "completion_status (Inl err) t len = StatusIoErr 0 err"

fun completion_metrics :: "io_err + u32 \<Rightarrow> request_type \<Rightarrow> status \<Rightarrow> block_metrics \<Rightarrow> block_metrics" where
  "completion_metrics (Inr n) In st m =
     m\<lparr>read_bytes := read_bytes m + unat n,
       read_count := read_count m + (if is_status_ok st then 1 else 0)\<rparr>"
| "completion_metrics (Inr n) Out st m =
     m\<lparr>write_bytes := write_bytes m + unat n,
       write_count := write_count m + (if is_status_ok st then 1 else 0)\<rparr>"
| "completion_metrics (Inr n) Flush st m = m\<lparr>flush_count := flush_count m + 1\<rparr>"
| "completion_metrics res t st m = m"

definition finish ::
  "'w block_host \<Rightarrow> pending_request \<Rightarrow> io_err + u32 \<Rightarrow> block_metrics \<Rightarrow> 'w \<Rightarrow>
     finished_request \<times> block_metrics \<times> 'w" where
  "finish H req res m w =
     (let st = completion_status res (p_type req) (p_data_len req)
      in write_status_and_finish H req st (completion_metrics res (p_type req) st m) w)"

subsection \<open>Parsing\<close>

definition check_data_desc :: "request_type \<Rightarrow> desc_chain \<Rightarrow> virtio_block_error + unit" where
  "check_data_desc t d =
     (if is_write_only d \<and> t = Out then Err UnexpectedWriteOnlyDescriptor
      else if \<not> is_write_only d \<and> t = In then Err UnexpectedReadOnlyDescriptor
      else if \<not> is_write_only d \<and> t = GetDeviceID then Err UnexpectedReadOnlyDescriptor
      else Ok ())"

text \<open>The data and the status descriptor of a chain; only a flush may have no data descriptor.\<close>

definition parse_descs ::
  "request_type \<Rightarrow> desc_chain \<Rightarrow> virtio_block_error + (u64 \<times> u32 \<times> desc_chain)" where
  "parse_descs t desc =
     (if \<not> has_next desc then
        (if t \<noteq> Flush then Err DescriptorChainTooShort else Ok (0, 0, desc))
      else
        rbind (ok_or DescriptorChainTooShort (next_descriptor desc))
          (\<lambda>status_desc. rbind (check_data_desc t desc)
            (\<lambda>_. Ok (d_addr desc, d_len desc, status_desc))))"

definition check_validity :: "request_type \<Rightarrow> u64 \<Rightarrow> u32 \<Rightarrow> u64 \<Rightarrow> virtio_block_error + unit" where
  "check_validity t sector data_len num_disk_sectors =
     (if t = In \<or> t = Out then
        (if data_len mod SECTOR_SIZE \<noteq> 0 then Err InvalidDataLength
         else
           (case checked_add sector (drop_bit SECTOR_SHIFT (ucast data_len)) of
              None \<Rightarrow> Err InvalidOffset
            | Some top_sector \<Rightarrow> (if num_disk_sectors < top_sector then Err InvalidOffset else Ok ())))
      else if t = GetDeviceID then
        (if data_len < VIRTIO_BLK_ID_BYTES then Err InvalidDataLength else Ok ())
      else Ok ())"

definition check_status_desc :: "desc_chain \<Rightarrow> virtio_block_error + unit" where
  "check_status_desc d =
     (if \<not> is_write_only d then Err UnexpectedReadOnlyDescriptor
      else if d_len d < 1 then Err DescriptorLengthTooSmall
      else Ok ())"

definition read_from :: "'w block_host \<Rightarrow> u64 \<Rightarrow> 'w \<Rightarrow> virtio_block_error + request_header" where
  [simp]: "read_from H addr w = map_err GuestMemory (g_read_header H addr w)"

definition parse ::
  "'w block_host \<Rightarrow> desc_chain \<Rightarrow> u64 \<Rightarrow> 'w \<Rightarrow> virtio_block_error + request" where
  "parse H avail_desc num_disk_sectors w =
     (if is_write_only avail_desc then Err UnexpectedWriteOnlyDescriptor
      else
        rbind (read_from H (d_addr avail_desc) w)
          (\<lambda>header.
             let t = request_type_from (h_request_type header); sector = h_sector header in
             rbind (ok_or DescriptorChainTooShort (next_descriptor avail_desc))
               (\<lambda>desc. rbind (parse_descs t desc)
                 (\<lambda>(data_addr, data_len, status_desc).
                    rbind (check_validity t sector data_len num_disk_sectors)
                      (\<lambda>_. rbind (check_status_desc status_desc)
                        (\<lambda>_. Ok \<lparr>rq_type = t, rq_data_len = data_len, rq_status_addr = d_addr status_desc,
                                rq_sector = sector, rq_data_addr = data_addr\<rparr>))))))"

subsection \<open>Execution\<close>

definition rate_limit :: "'w block_host \<Rightarrow> request \<Rightarrow> 'w \<Rightarrow> bool \<times> 'w" where
  "rate_limit H req w =
     (case rl_consume H 1 Ops w of
        (False, w1) \<Rightarrow> (True, w1)
      | (True, w1) \<Rightarrow>
          (if rq_type req = In \<or> rq_type req = Out then
             (case rl_consume H (ucast (rq_data_len req)) Bytes w1 of
                (False, w2) \<Rightarrow> (True, rl_replenish H 1 Ops w2)
              | (True, w2) \<Rightarrow> (False, w2))
           else (False, w1)))"

definition offset :: "request \<Rightarrow> u64" where
  "offset req = push_bit SECTOR_SHIFT (rq_sector req)"

definition to_pending_request :: "request \<Rightarrow> u16 \<Rightarrow> pending_request" where
  "to_pending_request req desc_idx =
     \<lparr>p_type = rq_type req, p_data_len = rq_data_len req, p_status_addr = rq_status_addr req,
      p_desc_idx = desc_idx\<rparr>"

text \<open>The trace: its configuration is read from the environment once.\<close>

definition trace_config :: "'w block_host \<Rightarrow> 'w \<Rightarrow> block_trace option \<times> 'w" where
  "trace_config H w =
     (case t_cell H w of
        Some c \<Rightarrow> (c, w)
      | None \<Rightarrow>
          (let c = map_option (\<lambda>p. \<lparr>t_path = p, drive_filter = t_var H ''FC_BLOCK_TRACE_DRIVE'' w\<rparr>)
                     (t_var H ''FC_BLOCK_TRACE_PATH'' w)
           in (c, t_set_cell H c w)))"

definition trace_line :: "nat \<Rightarrow> string \<Rightarrow> string \<Rightarrow> u64 \<Rightarrow> u32 \<Rightarrow> string" where
  "trace_line timestamp_ns drive_id oper off len =
     show_nat timestamp_ns @ '','' @ drive_id @ '','' @ oper @ '','' @ show_nat (unat off) @ '',''
       @ show_nat (unat len)"

definition trace_record :: "'w block_host \<Rightarrow> string \<Rightarrow> string \<Rightarrow> u64 \<Rightarrow> u32 \<Rightarrow> 'w \<Rightarrow> 'w" where
  "trace_record H drive_id oper off len w =
     (case trace_config H w of
        (None, w1) \<Rightarrow> w1
      | (Some config, w1) \<Rightarrow>
          (if drive_filter config \<noteq> None \<and> drive_filter config \<noteq> Some drive_id then w1
           else
             (case t_now H w1 of (t, w2) \<Rightarrow>
                t_append H (t_path config)
                  (trace_line (case t of Some n \<Rightarrow> n | None \<Rightarrow> 0) drive_id oper off len) w2)))"

definition submit ::
  "'w block_host \<Rightarrow> string \<Rightarrow> request \<Rightarrow> pending_request \<Rightarrow> 'w \<Rightarrow> engine_result \<times> 'w" where
  "submit H drive_id req pending w =
     (case rq_type req of
        In \<Rightarrow> e_read H (offset req) (rq_data_addr req) (rq_data_len req) pending
                (trace_record H drive_id ''read'' (offset req) (rq_data_len req) w)
      | Out \<Rightarrow> e_write H (offset req) (rq_data_addr req) (rq_data_len req) pending
                (trace_record H drive_id ''write'' (offset req) (rq_data_len req) w)
      | _ \<Rightarrow> e_flush H pending (trace_record H drive_id ''flush'' 0 0 w))"

definition executed ::
  "finished_request \<times> block_metrics \<times> 'w \<Rightarrow> processing_result \<times> block_metrics \<times> 'w" where
  "executed x = (case x of (f, m, w) \<Rightarrow> (Executed f, m, w))"

definition process_engine_result ::
  "'w block_host \<Rightarrow> engine_result \<Rightarrow> block_metrics \<Rightarrow> 'w \<Rightarrow> processing_result \<times> block_metrics \<times> 'w" where
  "process_engine_result H r m w =
     (case r of
        EngineSubmitted \<Rightarrow> (Submitted, m, w)
      | EngineExecuted count req \<Rightarrow> executed (finish H req (Ok count) m w)
      | EngineErr err req \<Rightarrow>
          (if e_is_throttling_err H err then (Throttled, m, w)
           else executed (finish H req (Err (FileEngineIo err)) m w)))"

definition process ::
  "'w block_host \<Rightarrow> string \<Rightarrow> u8 list \<Rightarrow> request \<Rightarrow> u16 \<Rightarrow> block_metrics \<Rightarrow> 'w \<Rightarrow>
     processing_result \<times> block_metrics \<times> 'w" where
  "process H drive_id image_id req desc_idx m w =
     (let pending = to_pending_request req desc_idx in
      (case rq_type req of
         GetDeviceID \<Rightarrow>
           (case g_write_slice H image_id (rq_data_addr req) w of
              (r, w1) \<Rightarrow>
                executed (finish H pending
                  (case r of Inr _ \<Rightarrow> Ok VIRTIO_BLK_ID_BYTES | Inl e \<Rightarrow> Err (GetIdErr e)) m w1))
       | Unsupported _ \<Rightarrow> executed (finish H pending (Ok 0) m w)
       | _ \<Rightarrow> (case submit H drive_id req pending w of (r, w1) \<Rightarrow> process_engine_result H r m w1)))"

end
