(* ===== verification/Block_Request_Props.thy ===== *)
theory Block_Request_Props
  imports Block_Request
begin

text \<open>
  Properties of block requests: what the parser accepts lies within the disk and uses the
  descriptors in the direction the guest allows; what the guest is told when a request
  completes; the rate limiter.
\<close>

section \<open>Accepted requests\<close>

lemma parse_Ok:
  assumes "parse H head n w = Ok req"
  obtains header desc status_desc where
    "\<not> is_write_only head" "g_read_header H (d_addr head) w = Ok header"
    "rq_type req = request_type_from (h_request_type header)" "rq_sector req = h_sector header"
    "next_descriptor head = Some desc"
    "parse_descs (rq_type req) desc = Ok (rq_data_addr req, rq_data_len req, status_desc)"
    "check_validity (rq_type req) (rq_sector req) (rq_data_len req) n = Ok ()"
    "check_status_desc status_desc = Ok ()" "rq_status_addr req = d_addr status_desc"
  using assms that
  by (auto simp: parse_def Let_def rbind_Inr_iff split: if_splits prod.splits)

lemma sector_size_nat: "unat SECTOR_SIZE = 512"
  by (simp add: virtio_defs)

lemma unat_ucast_u64: "unat (ucast (x :: u32) :: u64) = unat x"
proof -
  have "unat x < 2 ^ 32" using unsigned_less [of x] by simp
  then show ?thesis by (simp add: unsigned_ucast_eq take_bit_nat_eq_self)
qed

lemma unat_drop_sector: "unat (drop_bit SECTOR_SHIFT (x :: u64)) = unat x div 512"
  by (simp add: drop_bit_eq_div SECTOR_SHIFT_def unat_div)

lemma data_len_sectors:
  assumes "(len :: u32) mod SECTOR_SIZE = 0"
  shows "512 dvd unat len" "unat (drop_bit SECTOR_SHIFT (ucast len :: u64)) = unat len div 512"
proof -
  have "unat (len mod SECTOR_SIZE) = 0" using assms by simp
  then show "512 dvd unat len" by (simp add: unat_mod sector_size_nat dvd_eq_mod_eq_0)
  show "unat (drop_bit SECTOR_SHIFT (ucast len :: u64)) = unat len div 512"
    by (simp add: unat_drop_sector unat_ucast_u64)
qed

lemma check_validity_transfer:
  assumes "check_validity t sector len n = Ok ()" "t = In \<or> t = Out"
  shows "512 dvd unat len" "unat sector + unat len div 512 \<le> unat n"
proof -
  have m: "len mod SECTOR_SIZE = 0" using assms by (auto simp: check_validity_def split: if_splits)
  with assms obtain top where top: "checked_add sector (drop_bit SECTOR_SHIFT (ucast len)) = Some top"
    "\<not> n < top"
    by (auto simp: check_validity_def split: option.splits if_splits)
  show "512 dvd unat len" using data_len_sectors(1) [OF m] .
  have "unat top = unat sector + unat len div 512"
    using checked_add_unat [OF top(1)] data_len_sectors(2) [OF m] by simp
  with top(2) show "unat sector + unat len div 512 \<le> unat n" by (simp add: word_less_nat_alt)
qed

lemma parse_within_disk:
  assumes "parse H head (drop_bit SECTOR_SHIFT disk_size) w = Ok req" "rq_type req = In \<or> rq_type req = Out"
  shows "unat (offset req) = unat (rq_sector req) * 512 \<and> 512 dvd unat (rq_data_len req) \<and>
    unat (offset req) + unat (rq_data_len req) \<le> unat disk_size"
proof -
  let ?n = "unat disk_size div 512" and ?s = "unat (rq_sector req)" and ?l = "unat (rq_data_len req)"
  have v: "check_validity (rq_type req) (rq_sector req) (rq_data_len req) (drop_bit SECTOR_SHIFT disk_size) = Ok ()"
    using assms(1) by (rule parse_Ok)
  have "unat (drop_bit SECTOR_SHIFT disk_size) = ?n"
    by (rule unat_drop_sector)
  with check_validity_transfer [OF v assms(2)] have d: "512 dvd ?l" and t: "?s + ?l div 512 \<le> ?n" by simp_all
  have l: "?l div 512 * 512 = ?l" using d by simp
  have "(?s + ?l div 512) * 512 \<le> ?n * 512" using t by (rule mult_right_mono) simp
  also have "\<dots> \<le> unat disk_size" by (rule div_times_less_eq_dividend)
  finally have le: "?s * 512 + ?l \<le> unat disk_size" using l by (simp add: distrib_right)
  then have "?s * 512 < 2 ^ 64" using unsigned_less [where 'a = nat, of disk_size] by simp
  then have "unat (offset req) = ?s * 512"
    by (simp only: offset_def SECTOR_SHIFT_def unsigned_push_bit_eq)
      (simp add: push_bit_eq_mult take_bit_nat_eq_self)
  with d le show ?thesis by simp
qed

text \<open>
  C13: an accepted read or write lies within the disk. For a disk of the given size in bytes, the
  byte offset handed to the file engine is the sector times 512 without wrapping around, the length
  is a whole number of sectors, and the transfer ends within the disk, for any sector and
  length the guest writes into the request.
\<close>

theorem accepted_request_within_disk:
  assumes "parse H head (drop_bit SECTOR_SHIFT disk_size) w = Ok req" "rq_type req = In \<or> rq_type req = Out"
  shows "unat (offset req) = unat (rq_sector req) * 512 \<and> 512 dvd unat (rq_data_len req) \<and>
    unat (offset req) + unat (rq_data_len req) \<le> unat disk_size"
  using assms by (rule parse_within_disk)

lemma parse_directions:
  assumes "parse H head n w = Ok req"
  shows "\<not> is_write_only head \<and>
    (\<exists>status_desc. rq_status_addr req = d_addr status_desc \<and> is_write_only status_desc \<and> 1 \<le> d_len status_desc \<and>
       (next_descriptor head = Some status_desc \<and> rq_type req = Flush \<and> rq_data_len req = 0 \<or>
        (\<exists>data_desc. next_descriptor head = Some data_desc \<and> next_descriptor data_desc = Some status_desc \<and>
           rq_data_addr req = d_addr data_desc \<and> rq_data_len req = d_len data_desc \<and>
           (rq_type req = In \<or> rq_type req = GetDeviceID \<longrightarrow> is_write_only data_desc) \<and>
           (rq_type req = Out \<longrightarrow> \<not> is_write_only data_desc))))"
proof -
  from assms obtain desc status_desc where facts: "\<not> is_write_only head" "next_descriptor head = Some desc"
    "parse_descs (rq_type req) desc = Ok (rq_data_addr req, rq_data_len req, status_desc)"
    "check_status_desc status_desc = Ok ()" "rq_status_addr req = d_addr status_desc"
    by (rule parse_Ok)
  from facts(4) have st: "is_write_only status_desc" "1 \<le> d_len status_desc"
    by (auto simp: check_status_desc_def word_less_nat_alt word_le_nat_alt split: if_splits)
  show ?thesis
  proof (cases "has_next desc")
    case False
    with facts(3) have "rq_type req = Flush" "rq_data_len req = 0" "status_desc = desc"
      by (auto simp: parse_descs_def split: if_splits)
    with facts st show ?thesis by blast
  next
    case True
    with facts(3) have "next_descriptor desc = Some status_desc" "rq_data_addr req = d_addr desc"
      "rq_data_len req = d_len desc" "check_data_desc (rq_type req) desc = Ok ()"
      by (auto simp: parse_descs_def rbind_Inr_iff)
    with facts st show ?thesis
      by (auto simp: check_data_desc_def split: if_splits)
  qed
qed

text \<open>
  descriptors are used in the direction the guest allows. In an accepted request the header is
  readable, the buffer that a read or an identification request fills is writable by the device,
  the buffer of a write is readable, and the status byte goes to a writable descriptor that has
  room for it; only a flush may come without a data descriptor.
\<close>

theorem accepted_request_directions:
  assumes "parse H head n w = Ok req"
  shows "\<not> is_write_only head \<and>
    (\<exists>status_desc. rq_status_addr req = d_addr status_desc \<and> is_write_only status_desc \<and> 1 \<le> d_len status_desc \<and>
       (next_descriptor head = Some status_desc \<and> rq_type req = Flush \<and> rq_data_len req = 0 \<or>
        (\<exists>data_desc. next_descriptor head = Some data_desc \<and> next_descriptor data_desc = Some status_desc \<and>
           rq_data_addr req = d_addr data_desc \<and> rq_data_len req = d_len data_desc \<and>
           (rq_type req = In \<or> rq_type req = GetDeviceID \<longrightarrow> is_write_only data_desc) \<and>
           (rq_type req = Out \<longrightarrow> \<not> is_write_only data_desc))))"
  using assms by (rule parse_directions)

section \<open>Completion\<close>

text \<open>What the guest should be told: the status code and the number of bytes placed in its buffers.\<close>

fun expected_reply :: "io_err + u32 \<Rightarrow> request_type \<Rightarrow> nat \<Rightarrow> u8 \<times> nat" where
  "expected_reply r (Unsupported op) len = (VIRTIO_BLK_S_UNSUPP, 0)"
| "expected_reply (Inl e) t len = (VIRTIO_BLK_S_IOERR, 0)"
| "expected_reply (Inr n) Out len = (if unat n = len then VIRTIO_BLK_S_OK else VIRTIO_BLK_S_IOERR, 0)"
| "expected_reply (Inr n) Flush len = (VIRTIO_BLK_S_OK, 0)"
| "expected_reply (Inr n) t len = (if unat n = len then VIRTIO_BLK_S_OK else VIRTIO_BLK_S_IOERR, unat n)"

lemma status_reply_expected:
  "status_reply (completion_status res t len) =
     (k, code, bad) \<Longrightarrow> (code, unat k) = expected_reply res t (unat len)"
  by (cases "(res, t, len)" rule: completion_status.cases)
    (auto simp: status_reply_def status_from_data_def Let_def word_unat_eq_iff split: if_splits)

text \<open>
  a completed request reports its outcome. The status code written is the one of the outcome: ok
  for a full transfer or a flush, an I/O error for a short transfer or a failed operation,
  unsupported for an unknown type; the used length is the number of bytes transferred to the guest
  plus the status byte, and zero when the status could not be written. The addition does not wrap
  around for transfers that leave room for the status byte.
\<close>

theorem completion_reply:
  assumes "finish H req res m w = (f, m', w')"
    and "\<forall>n. res = Inr n \<longrightarrow> unat n + 1 < 2 ^ 32"
  shows "f_desc_idx f = p_desc_idx req \<and>
    (\<exists>r. g_write_status H (fst (expected_reply res (p_type req) (unat (p_data_len req)))) (p_status_addr req) w = (r, w') \<and>
       unat (num_bytes_to_mem f) =
         (if is_ok r then snd (expected_reply res (p_type req) (unat (p_data_len req))) + 1 else 0))"
proof -
  let ?st = "completion_status res (p_type req) (p_data_len req)"
  obtain k code bad where sr: "status_reply ?st = (k, code, bad)" by (cases "status_reply ?st")
  note ex = status_reply_expected [OF sr]
  obtain r v where ws: "g_write_status H code (p_status_addr req) w = (r, v)" by (cases "g_write_status H code (p_status_addr req) w")
  have f: "f = \<lparr>num_bytes_to_mem = (case r of Inr _ \<Rightarrow> k + 1 | Inl _ \<Rightarrow> 0), f_desc_idx = p_desc_idx req\<rparr>" "w' = v"
    using assms(1) sr ws by (auto simp: finish_def write_status_and_finish_def Let_def)
  have "unat k + 1 < 2 ^ 32"
  proof -
    have "unat k = 0 \<or> (\<exists>n. res = Inr n \<and> unat k = unat n)"
      using ex by (cases "(res, p_type req, unat (p_data_len req))" rule: expected_reply.cases) auto
    with assms(2) show ?thesis by auto
  qed
  then have "unat (k + 1) = unat k + 1" by (subst unat_add_no_overflow) simp_all
  then show ?thesis using f ws ex by (cases r) (auto simp: prod_eq_iff)
qed

text \<open>
  the identification request needs an exact buffer. The parser accepts any buffer of at least 20
  bytes, but completion compares the buffer with the 20 bytes written: with a larger buffer
  the request is reported as an I/O error although the whole identifier has been written.
\<close>

theorem get_id_needs_exact_buffer:
  assumes "rq_type req = GetDeviceID" "g_write_slice H img (rq_data_addr req) w = (Ok (), w1)"
    and "process H drive img req idx m w = (r, m', w')"
  shows "\<exists>q. g_write_status H
      (if rq_data_len req = VIRTIO_BLK_ID_BYTES then VIRTIO_BLK_S_OK else VIRTIO_BLK_S_IOERR)
      (rq_status_addr req) w1 = (q, w') \<and>
    check_validity GetDeviceID sector (rq_data_len req) n =
      (if rq_data_len req < VIRTIO_BLK_ID_BYTES then Err InvalidDataLength else Ok ())"
  using assms
  by (auto simp: process_def Let_def executed_def finish_def write_status_and_finish_def status_from_data_def
      status_reply_def to_pending_request_def check_validity_def split: prod.splits if_splits)

section \<open>Rate limiting\<close>

text \<open>
  The contract of the rate limiter over its budget: a refused request changes nothing, and giving back
  one operation undoes its consumption.
\<close>

definition limiter_contract :: "'w block_host \<Rightarrow> ('w \<Rightarrow> 'b) \<Rightarrow> bool" where
  "limiter_contract H budget =
     ((\<forall>n t w w'. rl_consume H n t w = (False, w') \<longrightarrow> budget w' = budget w) \<and>
      (\<forall>w w' v. rl_consume H 1 Ops w = (True, w') \<and> budget v = budget w' \<longrightarrow>
         budget (rl_replenish H 1 Ops v) = budget w))"

text \<open>
  a rate-limited request costs nothing. When a request is refused, for its operation or for its
  bytes, the budget of the limiter is what it was before, so that the request is charged once
  when it is finally processed.
\<close>

theorem rate_limited_request_free:
  assumes "limiter_contract H budget" "rate_limit H req w = (True, w')"
  shows "budget w' = budget w"
proof -
  have law1: "\<And>n t w w'. rl_consume H n t w = (False, w') \<Longrightarrow> budget w' = budget w"
    using assms(1) unfolding limiter_contract_def by blast
  have law2: "\<And>w w' v. rl_consume H 1 Ops w = (True, w') \<Longrightarrow> budget v = budget w' \<Longrightarrow>
      budget (rl_replenish H 1 Ops v) = budget w"
    using assms(1) unfolding limiter_contract_def by blast
  obtain ok w1 where c: "rl_consume H 1 Ops w = (ok, w1)" by (cases "rl_consume H 1 Ops w")
  show ?thesis
  proof (cases ok)
    case False
    with c assms(2) law1 [of 1 Ops w w1] show ?thesis by (simp add: rate_limit_def)
  next
    case True
    with c assms(2) obtain w2 where "rl_consume H (ucast (rq_data_len req)) Bytes w1 = (False, w2)"
      "w' = rl_replenish H 1 Ops w2"
      by (auto simp: rate_limit_def split: if_splits prod.splits bool.splits)
    with True c law1 law2 [of w w1 w2] show ?thesis by simp
  qed
qed

section \<open>The trace\<close>

text \<open>A drive that the filter does not name leaves the trace file alone.\<close>

lemma trace_record_filtered:
  assumes "t_cell H w = Some (Some cfg)" "drive_filter cfg = Some d" "d \<noteq> drive_id"
  shows "trace_record H drive_id oper off len w = w"
  using assms by (simp add: trace_record_def trace_config_def)

section \<open>A concrete guest\<close>

text \<open>
  A guest with one request header per page: the world is the list of status writes, and the
  limiter allows reads of up to 1024 bytes.
\<close>

definition status_chain :: desc_chain where
  "status_chain = Desc 2 0x3000 1 True False None"

definition request_chain :: "u64 \<Rightarrow> u32 \<Rightarrow> desc_chain" where
  "request_chain a len = Desc 0 a 16 False True (Some (Desc 1 0x2000 len True True (Some status_chain)))"

definition demo_guest :: "(u8 \<times> u64) list block_host" where
  "demo_guest =
     \<lparr> g_read_header = (\<lambda>a w. Ok \<lparr>h_request_type = (if a = 0x1000 then VIRTIO_BLK_T_IN else VIRTIO_BLK_T_GET_ID),
                                   h_reserved = 0, h_sector = 3\<rparr>),
       g_write_status = (\<lambda>v a w. (Ok (), w @ [(v, a)])),
       g_write_slice = (\<lambda>_ _ w. (Ok (), w)),
       rl_consume = (\<lambda>n t w. (n \<le> 1024, w)), rl_replenish = (\<lambda>_ _ w. w),
       e_read = (\<lambda>_ _ n p w. (EngineExecuted n p, w)), e_write = (\<lambda>_ _ n p w. (EngineExecuted n p, w)),
       e_flush = (\<lambda>p w. (EngineExecuted 0 p, w)), e_is_throttling_err = (\<lambda>_. False),
       t_var = (\<lambda>_ _. None), t_cell = (\<lambda>_. Some None), t_set_cell = (\<lambda>_ w. w),
       t_now = (\<lambda>w. (None, w)), t_append = (\<lambda>_ _ w. w) \<rparr>"

definition demo_read :: request where
  "demo_read = \<lparr>rq_type = In, rq_data_len = 1024, rq_status_addr = 0x3000, rq_sector = 3, rq_data_addr = 0x2000\<rparr>"

lemma demo_parse: "parse demo_guest (request_chain 0x1000 1024) (drop_bit SECTOR_SHIFT 4096) [] = Ok demo_read"
  by (simp add: parse_def demo_guest_def request_chain_def status_chain_def request_type_from_def virtio_defs
      parse_descs_def check_data_desc_def check_validity_def check_status_desc_def demo_read_def
      checked_add_def Let_def)

theorem accepted_request_within_disk_witness:
  "unat (offset demo_read) = 3 * 512 \<and> unat (offset demo_read) + 1024 \<le> unat (4096 :: u64)"
  using accepted_request_within_disk [OF demo_parse] by (simp add: demo_read_def)

theorem accepted_request_directions_witness:
  "\<exists>d. next_descriptor (request_chain 0x1000 1024) = Some d \<and> is_write_only d"
  using accepted_request_directions [OF demo_parse] by (auto simp: demo_read_def request_chain_def status_chain_def)

theorem completion_reply_witness:
  "\<exists>f m'. finish demo_guest (to_pending_request demo_read 0) (Ok 1024) zero_metrics [] = (f, m', [(VIRTIO_BLK_S_OK, 0x3000)]) \<and>
     unat (num_bytes_to_mem f) = 1025"
proof -
  obtain f m' w' where f: "finish demo_guest (to_pending_request demo_read 0) (Ok 1024) zero_metrics [] = (f, m', w')"
    by (cases "finish demo_guest (to_pending_request demo_read 0) (Ok 1024) zero_metrics []")
  have "w' = [(VIRTIO_BLK_S_OK, 0x3000)] \<and> unat (num_bytes_to_mem f) = 1025"
    using completion_reply [OF f] by (auto simp: to_pending_request_def demo_read_def demo_guest_def)
  with f show ?thesis by blast
qed

theorem get_id_needs_exact_buffer_witness:
  "\<exists>r m'. process demo_guest ''d'' [] (demo_read\<lparr>rq_type := GetDeviceID, rq_data_len := 64\<rparr>) 0 zero_metrics [] =
     (r, m', [(VIRTIO_BLK_S_IOERR, 0x3000)])"
proof -
  let ?req = "demo_read\<lparr>rq_type := GetDeviceID, rq_data_len := 64\<rparr>"
  obtain r m' w' where p: "process demo_guest ''d'' [] ?req 0 zero_metrics [] = (r, m', w')"
    by (cases "process demo_guest ''d'' [] ?req 0 zero_metrics []")
  have "g_write_slice demo_guest [] (rq_data_addr ?req) [] = (Ok (), [])" by (simp add: demo_guest_def)
  from get_id_needs_exact_buffer [OF _ this p] have "w' = [(VIRTIO_BLK_S_IOERR, 0x3000)]"
    by (simp add: demo_read_def demo_guest_def VIRTIO_BLK_ID_BYTES_def)
  with p show ?thesis by blast
qed

theorem rate_limited_request_free_witness:
  "\<exists>w'. rate_limit demo_guest (demo_read\<lparr>rq_data_len := 2048\<rparr>) [] = (True, w') \<and>
     length w' = length ([] :: (u8 \<times> u64) list)"
proof -
  have "limiter_contract demo_guest length" by (simp add: limiter_contract_def demo_guest_def)
  moreover have "rate_limit demo_guest (demo_read\<lparr>rq_data_len := 2048\<rparr>) [] = (True, [])"
    by (simp add: rate_limit_def demo_guest_def demo_read_def)
  ultimately show ?thesis using rate_limited_request_free [of demo_guest length] by blast
qed

end
