(* ===== verification/Block_Request_Spec.thy ===== *)
theory Block_Request_Spec
  imports Block_Request_Props
begin

unbundle bit_operations_syntax

text \<open>
  The tests of the request parser in request.rs as a specification. The property-based test
  \<open>parse_random_requests\<close> draws a request and an optional corruption, lays the request out in guest
  memory and states the outcome that \<open>Request::parse\<close> must have; the test tries a thousand cases, the
  theorem here is about all of them. The unit tests of the parser are modelled beside it. The queue
  and the test helpers belong to other files: a descriptor chain is any chain that walks the
  descriptor table as the virtio specification says, and the state of a new chain is a hypothesis.
\<close>

section \<open>Descriptors in guest memory\<close>

definition VIRTQ_DESC_F_NEXT :: u16 where "VIRTQ_DESC_F_NEXT = 1"
definition VIRTQ_DESC_F_WRITE :: u16 where "VIRTQ_DESC_F_WRITE = 2"

lemmas desc_flags = VIRTQ_DESC_F_NEXT_def VIRTQ_DESC_F_WRITE_def

record descriptor =
  de_addr :: u64
  de_len :: u32
  de_flags :: u16
  de_next :: u16

text \<open>\<open>RequestDescriptorChain\<close>: the first three descriptors of the table, and the header in memory.\<close>

record request_chain =
  header_desc :: descriptor
  data_desc :: descriptor
  status_desc :: descriptor
  chain_header :: request_header

definition table :: "request_chain \<Rightarrow> u16 \<Rightarrow> descriptor" where
  "table c i = (if i = 0 then header_desc c else if i = 1 then data_desc c else status_desc c)"

lemma table_simps [simp]:
  "table c 0 = header_desc c" "table c 1 = data_desc c" "table c 2 = status_desc c"
  by (simp_all add: table_def)

definition next_flag :: "descriptor \<Rightarrow> bool" where
  "next_flag d \<longleftrightarrow> de_flags d AND VIRTQ_DESC_F_NEXT \<noteq> 0"

definition write_flag :: "descriptor \<Rightarrow> bool" where
  "write_flag d \<longleftrightarrow> de_flags d AND VIRTQ_DESC_F_WRITE \<noteq> 0"

text \<open>The chain that the queue hands out for the descriptor with a given index.\<close>

inductive walks :: "(u16 \<Rightarrow> descriptor) \<Rightarrow> u16 \<Rightarrow> desc_chain \<Rightarrow> bool" for tbl where
  walks_last: "\<not> next_flag (tbl i) \<Longrightarrow>
     walks tbl i (Desc i (de_addr (tbl i)) (de_len (tbl i)) (write_flag (tbl i)) False None)"
| walks_more: "next_flag (tbl i) \<Longrightarrow> walks tbl (de_next (tbl i)) rest \<Longrightarrow>
     walks tbl i (Desc i (de_addr (tbl i)) (de_len (tbl i)) (write_flag (tbl i)) True (Some rest))"

inductive_cases walks_elim: "walks tbl i ch"

lemma walks_iff:
  "walks tbl i ch \<longleftrightarrow>
     (if next_flag (tbl i) then
        (\<exists>rest. walks tbl (de_next (tbl i)) rest \<and>
           ch = Desc i (de_addr (tbl i)) (de_len (tbl i)) (write_flag (tbl i)) True (Some rest))
      else ch = Desc i (de_addr (tbl i)) (de_len (tbl i)) (write_flag (tbl i)) False None)"
  by (auto elim: walks_elim intro: walks.intros)

section \<open>The generator of requests\<close>

definition NUM_DISK_SECTORS :: u64 where "NUM_DISK_SECTORS = 1024"

definition new_header :: "u32 \<Rightarrow> u64 \<Rightarrow> request_header" where
  "new_header t sector = \<lparr>h_request_type = t, h_reserved = 0, h_sector = sector\<rparr>"

text \<open>\<open>Arbitrary for RequestType\<close>: one of five strategies, the last one with a random number.\<close>

datatype type_choice = ChooseIn | ChooseOut | ChooseFlush | ChooseGetDeviceID | ChooseUnsupported u32

fun arbitrary_type :: "type_choice \<Rightarrow> request_type" where
  "arbitrary_type ChooseIn = In"
| "arbitrary_type ChooseOut = Out"
| "arbitrary_type ChooseFlush = Flush"
| "arbitrary_type ChooseGetDeviceID = GetDeviceID"
| "arbitrary_type (ChooseUnsupported i) = Unsupported (case checked_add i 9 of Some n \<Rightarrow> n | None \<Rightarrow> 9)"

fun u32_from :: "request_type \<Rightarrow> u32" where
  "u32_from In = VIRTIO_BLK_T_IN"
| "u32_from Out = VIRTIO_BLK_T_OUT"
| "u32_from Flush = VIRTIO_BLK_T_FLUSH"
| "u32_from GetDeviceID = VIRTIO_BLK_T_GET_ID"
| "u32_from (Unsupported i) = i"

fun request_type_flags :: "request_type \<Rightarrow> u16" where
  "request_type_flags In = VIRTQ_DESC_F_NEXT OR VIRTQ_DESC_F_WRITE"
| "request_type_flags Out = VIRTQ_DESC_F_NEXT"
| "request_type_flags Flush = VIRTQ_DESC_F_NEXT"
| "request_type_flags GetDeviceID = VIRTQ_DESC_F_NEXT OR VIRTQ_DESC_F_WRITE"
| "request_type_flags (Unsupported i) = VIRTQ_DESC_F_NEXT"

definition max_desc_len :: u32 where "max_desc_len = 0x1000"

text \<open>The addresses of the three descriptors; a sum that does not fit panics.\<close>

definition random_layout :: "u64 \<Rightarrow> (u64 \<times> u64 \<times> u64) option" where
  "random_layout sparsity =
     (let base_addr = sparsity AND 0x0000FFFFFFFFF000;
          dist1 = ucast max_desc_len + push_bit (unat (sparsity AND 0xF)) 0x1000;
          dist2 = ucast max_desc_len + push_bit (unat (drop_bit 4 (sparsity AND 0xF0))) 0x1000 in
      Option.bind (checked_add base_addr 0x1000) (\<lambda>req_type_addr.
      Option.bind (checked_add req_type_addr dist1) (\<lambda>data_addr.
      Option.bind (checked_add data_addr dist2) (\<lambda>status_addr.
      Option.bind (checked_add status_addr (ucast max_desc_len)) (\<lambda>mem_end.
      Some (req_type_addr, data_addr, status_addr))))))"

definition valid_data_len :: "u32 \<Rightarrow> u32" where
  "valid_data_len data_len = ((data_len AND 4096) OR (SECTOR_SIZE - 1)) + 1"

definition crafted_request :: "u32 \<Rightarrow> u64 \<Rightarrow> request_type \<Rightarrow> u64 \<Rightarrow> u64 \<Rightarrow> request" where
  "crafted_request data_len sector t data_addr status_addr =
     (let len = valid_data_len data_len;
          sectors_len = ucast (len div SECTOR_SIZE);
          request = \<lparr>rq_type = t, rq_data_len = len, rq_status_addr = status_addr,
            rq_sector = sector AND (NUM_DISK_SECTORS - sectors_len), rq_data_addr = data_addr\<rparr>
      in if t = Flush then request\<lparr>rq_data_addr := 0, rq_data_len := 0\<rparr> else request)"

definition crafted_chain :: "request_chain \<Rightarrow> u64 \<Rightarrow> u32 \<Rightarrow> request \<Rightarrow> request_chain" where
  "crafted_chain c req_type_addr request_id request =
     (let c1 = c\<lparr>header_desc := (header_desc c)\<lparr>de_addr := req_type_addr, de_len := max_desc_len\<rparr>,
                chain_header := new_header request_id (rq_sector request)\<rparr>;
          c2 = (if rq_type request = Flush then
                  c1\<lparr>header_desc := (header_desc c1)\<lparr>de_next := 2\<rparr>\<rparr>
                else
                  c1\<lparr>data_desc := \<lparr>de_addr = rq_data_addr request, de_len = rq_data_len request,
                       de_flags = request_type_flags (rq_type request), de_next = 2\<rparr>\<rparr>)
      in c2\<lparr>status_desc := \<lparr>de_addr = rq_status_addr request, de_len = 1,
              de_flags = VIRTQ_DESC_F_WRITE, de_next = 0\<rparr>\<rparr>)"

definition set_data_flags :: "(u16 \<Rightarrow> u16) \<Rightarrow> request_chain \<Rightarrow> request_chain" where
  "set_data_flags f c = c\<lparr>data_desc := (data_desc c)\<lparr>de_flags := f (de_flags (data_desc c))\<rparr>\<rparr>"

definition set_data_len :: "u32 \<Rightarrow> request_chain \<Rightarrow> request_chain" where
  "set_data_len n c = c\<lparr>data_desc := (data_desc c)\<lparr>de_len := n\<rparr>\<rparr>"

definition set_header_flags :: "(u16 \<Rightarrow> u16) \<Rightarrow> request_chain \<Rightarrow> request_chain" where
  "set_header_flags f c = c\<lparr>header_desc := (header_desc c)\<lparr>de_flags := f (de_flags (header_desc c))\<rparr>\<rparr>"

definition set_status_len :: "u32 \<Rightarrow> request_chain \<Rightarrow> request_chain" where
  "set_status_len n c = c\<lparr>status_desc := (status_desc c)\<lparr>de_len := n\<rparr>\<rparr>"

text \<open>\<open>*coins.next().unwrap()\<close> for the coin with the given number.\<close>

definition coin :: "bool list \<Rightarrow> nat \<Rightarrow> (bool \<Rightarrow> 'b option) \<Rightarrow> 'b option" where
  "coin coins k f = (if k < length coins then f (coins ! k) else None)"

text \<open>The coins after the first one: which part of the valid chain is corrupted, and the error.\<close>

definition corrupt ::
  "u32 \<Rightarrow> u64 \<Rightarrow> request_type \<Rightarrow> u32 \<Rightarrow> bool list \<Rightarrow> request_chain \<Rightarrow>
     ((virtio_block_error + request) \<times> request_chain) option" where
  "corrupt data_len sector t request_id coins c =
     coin coins 1 (\<lambda>b. if b then Some (Err DescriptorLengthTooSmall, set_status_len 0 c) else
     coin coins 2 (\<lambda>b. if b \<and> t \<noteq> Flush then
         Some (Err DescriptorChainTooShort, set_data_flags (\<lambda>f. f AND NOT VIRTQ_DESC_F_NEXT) c) else
     coin coins 3 (\<lambda>b. if b then
         Some (Err UnexpectedWriteOnlyDescriptor, set_header_flags (\<lambda>f. f OR VIRTQ_DESC_F_WRITE) c) else
     coin coins 4 (\<lambda>b. if b \<and> t = Out then
         Some (Err UnexpectedWriteOnlyDescriptor, set_data_flags (\<lambda>f. f OR VIRTQ_DESC_F_WRITE) c)
       else if b \<and> (t = In \<or> t = GetDeviceID) then
         Some (Err UnexpectedReadOnlyDescriptor, set_data_flags (\<lambda>f. f AND NOT VIRTQ_DESC_F_WRITE) c) else
     coin coins 5 (\<lambda>b. if b \<and> (t = In \<or> t = Out) then
         Some (Err InvalidDataLength, set_data_len (valid_data_len data_len + data_len mod 511 + 1) c)
       else if b \<and> t = GetDeviceID then
         Some (Err InvalidDataLength, set_data_len (data_len AND (VIRTIO_BLK_ID_BYTES - 1)) c) else
     coin coins 6 (\<lambda>b. if b \<and> (t = In \<or> t = Out) then
         Option.bind (checked_add (sector OR NUM_DISK_SECTORS) 1)
           (\<lambda>s. Some (Err InvalidOffset, c\<lparr>chain_header := new_header request_id s\<rparr>)) else
     Some (Err DescriptorChainTooShort, set_header_flags (\<lambda>_. 0) c)))))))"

definition do_random_request_parse ::
  "request_chain \<Rightarrow> u64 \<Rightarrow> u32 \<Rightarrow> u64 \<Rightarrow> request_type \<Rightarrow> u32 \<Rightarrow> bool list \<Rightarrow>
     ((virtio_block_error + request) \<times> request_chain) option" where
  "do_random_request_parse c sparsity data_len sector t request_id coins =
     Option.bind (random_layout sparsity) (\<lambda>(req_type_addr, data_addr, status_addr).
       let request = crafted_request data_len sector t data_addr status_addr;
           chain = crafted_chain c req_type_addr request_id request in
       coin coins 0 (\<lambda>b. if b then Some (Ok request, chain)
         else corrupt data_len sector t request_id coins chain))"

definition random_request_parse ::
  "request_chain \<Rightarrow> u64 \<Rightarrow> u32 \<Rightarrow> u64 \<Rightarrow> type_choice \<Rightarrow> bool list \<Rightarrow>
     ((virtio_block_error + request) \<times> request_chain) option" where
  "random_request_parse c sparsity data_len sector choice coins =
     (let t = arbitrary_type choice in
      do_random_request_parse c sparsity data_len sector t (u32_from t) coins)"

section \<open>Every generated case\<close>

lemma and_single_bit: "(x :: 'a::len word) AND 2 ^ n = (if bit x n then 2 ^ n else 0)"
  by (auto intro!: bit_eqI simp: bit_simps)

lemma valid_data_len_cases: "valid_data_len x = 512 \<or> valid_data_len x = 4608"
  using and_single_bit [of x 12] by (auto simp: valid_data_len_def virtio_defs)

lemma request_type_from_arbitrary:
  "request_type_from (u32_from (arbitrary_type choice)) = arbitrary_type choice"
proof (cases choice)
  case (ChooseUnsupported i)
  have "n \<noteq> 0 \<and> n \<noteq> 1 \<and> n \<noteq> 4 \<and> n \<noteq> 8" if "checked_add i 9 = Some n" for n
    using checked_add_unat [OF that] by (auto dest: arg_cong [where f = unat])
  with ChooseUnsupported show ?thesis
    by (auto simp: request_type_from_def virtio_defs split: option.split)
qed (simp_all add: request_type_from_def virtio_defs)

lemma unat_and_le: "unat ((x :: 'a::len word) AND y) \<le> unat y"
proof -
  have "x AND y \<le> y" by (rule word_and_le1)
  then show ?thesis by (simp add: word_le_nat_alt)
qed

lemma shifted_page:
  assumes "k \<le> 15"
  shows "unat (push_bit k 0x1000 :: u64) \<le> 2 ^ 27"
proof -
  have "unat (push_bit k 0x1000 :: u64) \<le> 0x1000 * 2 ^ k"
    by (simp only: unsigned_push_bit_eq) (simp add: push_bit_eq_mult take_bit_nat_less_eq_self)
  also have "\<dots> \<le> 0x1000 * 2 ^ 15" using assms by (intro mult_left_mono power_increasing) simp_all
  finally show ?thesis by simp
qed

lemma random_layout_total: "\<exists>a d s. random_layout sparsity = Some (a, d, s)"
proof -
  let ?d1 = "ucast max_desc_len + push_bit (unat (sparsity AND 0xF)) 0x1000 :: u64"
  let ?d2 = "ucast max_desc_len + push_bit (unat (drop_bit 4 (sparsity AND 0xF0))) 0x1000 :: u64"
  have b: "unat (sparsity AND 0x0000FFFFFFFFF000) \<le> 0x0000FFFFFFFFF000"
    using unat_and_le [of sparsity "0x0000FFFFFFFFF000"] by simp
  have "unat (sparsity AND 0xF) \<le> 15"
    using unat_and_le [of sparsity "0xF"] by simp
  then have d1: "unat ?d1 \<le> 2 ^ 28"
    using shifted_page [of "unat (sparsity AND 0xF)"] by (simp add: max_desc_len_def unat_word_ariths)
  have "unat (sparsity AND 0xF0) \<le> 0xF0"
    using unat_and_le [of sparsity "0xF0"] by simp
  then have "unat (drop_bit 4 (sparsity AND 0xF0)) \<le> 15" by (simp add: drop_bit_eq_div unat_div)
  then have d2: "unat ?d2 \<le> 2 ^ 28"
    using shifted_page [of "unat (drop_bit 4 (sparsity AND 0xF0))"]
    by (simp add: max_desc_len_def unat_word_ariths)
  define base where "base = sparsity AND 0x0000FFFFFFFFF000"
  define x1 where "x1 = ?d1"
  define x2 where "x2 = ?d2"
  have n: "unat base \<le> 0x0000FFFFFFFFF000" "unat x1 \<le> 2 ^ 28" "unat x2 \<le> 2 ^ 28"
    using b d1 d2 by (simp_all only: base_def x1_def x2_def)
  have s1: "unat (base + 0x1000) = unat base + 0x1000" using n by (simp add: unat_word_ariths)
  have s2: "unat (base + 0x1000 + x1) = unat base + 0x1000 + unat x1"
    using n s1 by (simp add: unat_word_ariths(1) [of "base + 0x1000"] del: add.assoc)
  have s3: "unat (base + 0x1000 + x1 + x2) = unat base + 0x1000 + unat x1 + unat x2"
    using n s2 by (simp add: unat_word_ariths(1) [of "base + 0x1000 + x1"])
  show ?thesis
    unfolding random_layout_def Let_def base_def [symmetric] x1_def [symmetric] x2_def [symmetric]
    using n s1 s2 s3 by (simp add: checked_add_def max_desc_len_def)
qed


lemma check_validity_crafted:
  assumes "len = 512 \<or> len = 4608"
  shows "check_validity t (sector AND (NUM_DISK_SECTORS - ucast (len div SECTOR_SIZE))) len NUM_DISK_SECTORS
    = Ok ()"
proof -
  have "unat (sector AND 1023) \<le> 1023" "unat (sector AND 1015) \<le> 1015"
    using unat_and_le [of sector 1023] unat_and_le [of sector 1015] by simp_all
  then show ?thesis
    using assms
    by (auto simp: check_validity_def checked_add_def NUM_DISK_SECTORS_def virtio_defs
        word_less_nat_alt unat_word_ariths)
qed

lemma bad_length_mod:
  assumes "(m :: nat) < 511"
  shows "(513 + m) mod 512 \<noteq> 0" "(4609 + m) mod 512 \<noteq> 0"
proof -
  have "(512 * k + (m + 1)) mod 512 \<noteq> 0" for k using assms by simp
  from this [of 1] this [of 9] show "(513 + m) mod 512 \<noteq> 0" "(4609 + m) mod 512 \<noteq> 0"
    by (simp_all add: add.commute)
qed

lemma check_validity_bad_length:
  assumes "len = 512 \<or> len = 4608" "t = In \<or> t = Out"
  shows "check_validity t sector (len + data_len mod 511 + 1) n = Err InvalidDataLength"
proof -
  have m: "unat (data_len mod 511) < 511" by (simp add: unat_mod)
  then have "unat (len + data_len mod 511 + 1) = unat len + unat (data_len mod 511) + 1"
    using assms(1) by (auto simp: unat_word_ariths)
  with bad_length_mod [OF m] assms(1) have "unat (len + data_len mod 511 + 1) mod 512 \<noteq> 0" by auto
  then have "(len + data_len mod 511 + 1) mod SECTOR_SIZE \<noteq> 0"
    by (metis sector_size_nat unat_0 unat_mod)
  with assms(2) show ?thesis by (auto simp: check_validity_def)
qed

lemma check_validity_bad_id_length:
  "check_validity GetDeviceID sector (data_len AND (VIRTIO_BLK_ID_BYTES - 1)) n = Err InvalidDataLength"
  using unat_and_le [of data_len 19] by (simp add: check_validity_def virtio_defs word_less_nat_alt)

lemma check_validity_bad_sector:
  assumes "checked_add (sector OR NUM_DISK_SECTORS) 1 = Some s" "t = In \<or> t = Out"
    and "len = 512 \<or> len = 4608"
  shows "check_validity t s len NUM_DISK_SECTORS = Err InvalidOffset"
proof -
  have "NUM_DISK_SECTORS \<le> sector OR NUM_DISK_SECTORS" using le_word_or1 by blast
  then have "1024 < unat s"
    using checked_add_unat [OF assms(1)] by (simp add: NUM_DISK_SECTORS_def word_le_nat_alt)
  then have "NUM_DISK_SECTORS < top" if "checked_add s x = Some top" for x top
    using checked_add_unat [OF that] by (simp add: NUM_DISK_SECTORS_def word_less_nat_alt)
  with assms(2,3) show ?thesis by (auto simp: check_validity_def virtio_defs split: option.split)
qed

text \<open>
  What a chain of the test helper starts with: the header descriptor leads to the data descriptor and
  that to the status descriptor, which the device may write.
\<close>

definition fresh_chain :: "request_chain \<Rightarrow> bool" where
  "fresh_chain c \<longleftrightarrow>
     de_flags (header_desc c) = VIRTQ_DESC_F_NEXT \<and> de_next (header_desc c) = 1 \<and>
     de_flags (data_desc c) = VIRTQ_DESC_F_NEXT OR VIRTQ_DESC_F_WRITE \<and> de_next (data_desc c) = 2 \<and>
     de_flags (status_desc c) = VIRTQ_DESC_F_WRITE \<and> 1 \<le> de_len (status_desc c)"

text \<open>The queue hands out the chain at the head of the table, and the header can be read.\<close>

definition laid_out :: "'w block_host \<Rightarrow> request_chain \<Rightarrow> desc_chain \<Rightarrow> 'w \<Rightarrow> bool" where
  "laid_out H c head w \<longleftrightarrow>
     walks (table c) 0 head \<and> g_read_header H (de_addr (header_desc c)) w = Ok (chain_header c)"

lemmas walk_simps = walks_iff table_def next_flag_def write_flag_def desc_flags

text \<open>
  The outcome read off the table: the header is followed by the status descriptor alone, or by the
  data and the status descriptor.
\<close>

definition status_outcome :: "descriptor \<Rightarrow> request \<Rightarrow> virtio_block_error + request" where
  "status_outcome d req =
     (if \<not> write_flag d then Err UnexpectedReadOnlyDescriptor
      else if de_len d < 1 then Err DescriptorLengthTooSmall
      else Ok (req\<lparr>rq_status_addr := de_addr d\<rparr>))"

definition parse_table :: "request_chain \<Rightarrow> u64 \<Rightarrow> virtio_block_error + request" where
  "parse_table c n =
     (let t = request_type_from (h_request_type (chain_header c)); d = data_desc c;
          req = \<lparr>rq_type = t, rq_data_len = 0, rq_status_addr = 0, rq_sector = h_sector (chain_header c),
            rq_data_addr = 0\<rparr> in
      if write_flag (header_desc c) then Err UnexpectedWriteOnlyDescriptor
      else if \<not> next_flag (header_desc c) then Err DescriptorChainTooShort
      else if de_next (header_desc c) = 2 \<or> \<not> next_flag d then
        (if t \<noteq> Flush then Err DescriptorChainTooShort
         else status_outcome (table c (de_next (header_desc c))) req)
      else if write_flag d \<and> t = Out then Err UnexpectedWriteOnlyDescriptor
      else if \<not> write_flag d \<and> (t = In \<or> t = GetDeviceID) then Err UnexpectedReadOnlyDescriptor
      else rbind (check_validity t (h_sector (chain_header c)) (de_len d) n)
        (\<lambda>_. status_outcome (status_desc c) (req\<lparr>rq_data_len := de_len d, rq_data_addr := de_addr d\<rparr>)))"

definition linked :: "request_chain \<Rightarrow> bool" where
  "linked c \<longleftrightarrow>
     (de_next (header_desc c) = 1 \<or> de_next (header_desc c) = 2) \<and>
     (de_next (header_desc c) = 1 \<and> next_flag (data_desc c) \<longrightarrow> de_next (data_desc c) = 2) \<and>
     \<not> next_flag (status_desc c)"

lemma walks_fields:
  "walks tbl i ch \<Longrightarrow> is_write_only ch = write_flag (tbl i) \<and> d_addr ch = de_addr (tbl i) \<and>
     d_len ch = de_len (tbl i) \<and> has_next ch = next_flag (tbl i) \<and>
     (case next_descriptor ch of None \<Rightarrow> \<not> next_flag (tbl i)
      | Some rest \<Rightarrow> next_flag (tbl i) \<and> walks tbl (de_next (tbl i)) rest)"
  by (auto elim: walks_elim)

lemma status_outcome_walks:
  assumes "walks tbl i ch"
  shows "rbind (check_status_desc ch) (\<lambda>_. Ok (req\<lparr>rq_status_addr := d_addr ch\<rparr>)) = status_outcome (tbl i) req"
  using walks_fields [OF assms] by (simp add: check_status_desc_def status_outcome_def)

lemma parse_table_eq:
  assumes "laid_out H c head w" "linked c"
  shows "parse H head n w = parse_table c n"
proof -
  let ?t = "request_type_from (h_request_type (chain_header c))"
  have hd: "walks (table c) 0 head" "g_read_header H (de_addr (header_desc c)) w = Ok (chain_header c)"
    using assms(1) by (auto simp: laid_out_def)
  note f0 = walks_fields [OF hd(1), simplified]
  show ?thesis
  proof (cases "next_descriptor head")
    case None
    with f0 hd(2) show ?thesis by (auto simp: parse_def parse_table_def Let_def)
  next
    case (Some d)
    with f0 have d: "walks (table c) (de_next (header_desc c)) d" and nx: "next_flag (header_desc c)"
      by auto
    note f1 = walks_fields [OF d]
    show ?thesis
    proof (cases "next_descriptor d")
      case None
      with f1 assms(2) have nn: "de_next (header_desc c) = 2 \<or> \<not> next_flag (data_desc c)"
        "\<not> has_next d"
        by (auto simp: linked_def)
      with None Some f0 f1 nx hd(2) status_outcome_walks [OF d, of "\<lparr>rq_type = ?t, rq_data_len = 0,
          rq_status_addr = 0, rq_sector = h_sector (chain_header c), rq_data_addr = 0\<rparr>"]
      show ?thesis
        by (auto simp: parse_def parse_table_def parse_descs_def check_validity_def Let_def)
    next
      case (Some st)
      with f1 assms(2) have nn: "de_next (header_desc c) = 1" "next_flag (data_desc c)" "has_next d"
        and st: "walks (table c) 2 st"
        by (auto simp: linked_def)
      with Some \<open>next_descriptor head = Some d\<close> f0 f1 nx hd(2) status_outcome_walks [OF st, of
          "\<lparr>rq_type = ?t, rq_data_len = de_len (data_desc c), rq_status_addr = 0,
            rq_sector = h_sector (chain_header c), rq_data_addr = de_addr (data_desc c)\<rparr>"]
      show ?thesis
        by (auto simp: parse_def parse_table_def parse_descs_def check_data_desc_def Let_def)
    qed
  qed
qed

text \<open>Every corruption of a valid chain leads to the error that the test expects.\<close>

lemma desc_flag_bits:
  "next_flag d \<longleftrightarrow> bit (de_flags d) 0" "write_flag d \<longleftrightarrow> bit (de_flags d) (Suc 0)"
  using and_single_bit [of "de_flags d" 0] and_single_bit [of "de_flags d" 1]
  by (simp_all add: next_flag_def write_flag_def desc_flags)

lemma flag_bits:
  "bit VIRTQ_DESC_F_NEXT 0" "\<not> bit VIRTQ_DESC_F_NEXT (Suc 0)"
  "bit VIRTQ_DESC_F_WRITE (Suc 0)" "\<not> bit VIRTQ_DESC_F_WRITE 0"
  "bit (request_type_flags t) 0" "bit (request_type_flags t) (Suc 0) \<longleftrightarrow> t = In \<or> t = GetDeviceID"
  by (simp_all add: desc_flags) (cases t; simp add: desc_flags)+

lemma crafted_chain_facts:
  assumes "fresh_chain c" "request = crafted_request data_len sector t data_addr status_addr"
    and "chain = crafted_chain c req_type_addr i request" "request_type_from i = t"
  shows "next_flag (header_desc chain)" "\<not> write_flag (header_desc chain)"
    and "de_next (header_desc chain) = (if t = Flush then 2 else 1)"
    and "t \<noteq> Flush \<Longrightarrow> data_desc chain = \<lparr>de_addr = data_addr, de_len = valid_data_len data_len,
      de_flags = request_type_flags t, de_next = 2\<rparr>"
    and "status_desc chain = \<lparr>de_addr = status_addr, de_len = 1, de_flags = VIRTQ_DESC_F_WRITE, de_next = 0\<rparr>"
    and "h_sector (chain_header chain) = rq_sector request"
    and "request_type_from (h_request_type (chain_header chain)) = t"
    and "check_validity t (rq_sector request) (valid_data_len data_len) NUM_DISK_SECTORS = Ok ()"
  using assms
  by (simp_all add: fresh_chain_def crafted_chain_def crafted_request_def Let_def new_header_def
      desc_flag_bits flag_bits check_validity_crafted valid_data_len_cases)

lemma parse_crafted:
  assumes "fresh_chain c" "request = crafted_request data_len sector t data_addr status_addr"
    and "chain = crafted_chain c req_type_addr i request" "request_type_from i = t"
    and "laid_out H chain head w"
  shows "parse H head NUM_DISK_SECTORS w = Ok request"
  using crafted_chain_facts [OF assms(1-4)]
  by (subst parse_table_eq [OF assms(5)])
     (auto simp: assms(2) crafted_request_def Let_def linked_def parse_table_def status_outcome_def table_def
       desc_flag_bits flag_bits)

lemmas chain_updates = set_status_len_def set_data_flags_def set_header_flags_def set_data_len_def

text \<open>The nine corruptions, with the error each leads to.\<close>

lemma corrupt_cases:
  assumes "corrupt data_len sector t i coins chain = Some (outcome, chain')"
  obtains
      (status) "outcome = Err DescriptorLengthTooSmall" "chain' = set_status_len 0 chain"
    | (cut) "t \<noteq> Flush" "outcome = Err DescriptorChainTooShort"
        "chain' = set_data_flags (\<lambda>f. f AND NOT VIRTQ_DESC_F_NEXT) chain"
    | (header) "outcome = Err UnexpectedWriteOnlyDescriptor"
        "chain' = set_header_flags (\<lambda>f. f OR VIRTQ_DESC_F_WRITE) chain"
    | (writable) "t = Out" "outcome = Err UnexpectedWriteOnlyDescriptor"
        "chain' = set_data_flags (\<lambda>f. f OR VIRTQ_DESC_F_WRITE) chain"
    | (readable) "t = In \<or> t = GetDeviceID" "outcome = Err UnexpectedReadOnlyDescriptor"
        "chain' = set_data_flags (\<lambda>f. f AND NOT VIRTQ_DESC_F_WRITE) chain"
    | (len) "t = In \<or> t = Out" "outcome = Err InvalidDataLength"
        "chain' = set_data_len (valid_data_len data_len + data_len mod 511 + 1) chain"
    | (id_len) "t = GetDeviceID" "outcome = Err InvalidDataLength"
        "chain' = set_data_len (data_len AND (VIRTIO_BLK_ID_BYTES - 1)) chain"
    | (offset) s where "t = In \<or> t = Out" "outcome = Err InvalidOffset"
        "checked_add (sector OR NUM_DISK_SECTORS) 1 = Some s" "chain' = chain\<lparr>chain_header := new_header i s\<rparr>"
    | (alone) "outcome = Err DescriptorChainTooShort" "chain' = set_header_flags (\<lambda>_. 0) chain"
  using assms
  by (auto simp: corrupt_def coin_def bind_eq_Some_conv split: if_splits)

lemma parse_corrupt:
  assumes "fresh_chain c" "request = crafted_request data_len sector t data_addr status_addr"
    and "chain = crafted_chain c req_type_addr i request" "request_type_from i = t"
    and "corrupt data_len sector t i coins chain = Some (outcome, chain')" and L: "laid_out H chain' head w"
  shows "parse H head NUM_DISK_SECTORS w = outcome"
proof -
  note facts = crafted_chain_facts [OF assms(1-4)]
  note eval = chain_updates desc_flag_bits flag_bits bit_simps linked_def parse_table_def
    status_outcome_def new_header_def Let_def
  from assms(5) show ?thesis
  proof (cases rule: corrupt_cases)
    case len
    with facts check_validity_bad_length [OF valid_data_len_cases len(1)] show ?thesis
      by (subst parse_table_eq [OF L]) (auto simp: eval)
  next
    case offset
    with facts check_validity_bad_sector [OF offset(3,1) valid_data_len_cases] assms(4) show ?thesis
      by (subst parse_table_eq [OF L]) (auto simp: eval)
  next
    case id_len
    with facts check_validity_bad_id_length show ?thesis
      by (subst parse_table_eq [OF L]) (auto simp: eval)
  next
    case status
    with facts show ?thesis by (subst parse_table_eq [OF L]) (auto simp: eval)
  next
    case cut
    with facts show ?thesis by (subst parse_table_eq [OF L]) (auto simp: eval)
  next
    case header
    with facts show ?thesis by (subst parse_table_eq [OF L]) (auto simp: eval)
  next
    case writable
    with facts show ?thesis by (subst parse_table_eq [OF L]) (auto simp: eval)
  next
    case readable
    with facts show ?thesis by (subst parse_table_eq [OF L]) (auto simp: eval)
  next
    case alone
    with facts show ?thesis by (subst parse_table_eq [OF L]) (auto simp: eval)
  qed
qed

text \<open>The generator draws ten coins and panics for one sector only, the last of the address space.\<close>

lemma corrupt_total:
  assumes "length coins = 10" "corrupt data_len sector t i coins chain = None"
  shows "sector OR NUM_DISK_SECTORS = 0xFFFFFFFFFFFFFFFF"
proof -
  from assms have "checked_add (sector OR NUM_DISK_SECTORS) 1 = None"
    by (auto simp: corrupt_def coin_def bind_eq_None_conv split: if_splits)
  then have "unat (sector OR NUM_DISK_SECTORS) = 2 ^ 64 - 1"
    using unsigned_less [where 'a = nat, of "sector OR NUM_DISK_SECTORS"]
    by (simp add: checked_add_def split: if_splits)
  then show ?thesis by (simp add: word_unat_eq_iff)
qed

text \<open>
  C16: the property-based test of the request parser holds for all inputs, not only for those that are
  drawn. Whatever the random numbers and coins, either the generated chain is parsed to exactly the
  request or the error that the generator predicts, however the chain reaches the device, or the
  generator itself overflows, which happens for a sector whose bits other than bit 10 are all set.
\<close>

theorem parse_random_requests:
  assumes "fresh_chain c" "length coins = 10"
  shows "case random_request_parse c sparsity data_len sector choice coins of
      None \<Rightarrow> sector OR NUM_DISK_SECTORS = 0xFFFFFFFFFFFFFFFF
    | Some (outcome, chain) \<Rightarrow>
        \<forall>(H :: 'w block_host) head w. laid_out H chain head w \<longrightarrow> parse H head NUM_DISK_SECTORS w = outcome"
proof -
  obtain a d s where layout: "random_layout sparsity = Some (a, d, s)" using random_layout_total by blast
  let ?t = "arbitrary_type choice"
  let ?request = "crafted_request data_len sector ?t d s"
  let ?chain = "crafted_chain c a (u32_from ?t) ?request"
  have gen: "random_request_parse c sparsity data_len sector choice coins =
      (if coins ! 0 then Some (Ok ?request, ?chain)
       else corrupt data_len sector ?t (u32_from ?t) coins ?chain)"
    using layout assms(2)
    by (simp add: random_request_parse_def do_random_request_parse_def Let_def coin_def)
  note ty = request_type_from_arbitrary [of choice]
  show ?thesis
  proof (cases "coins ! 0")
    case True
    with gen show ?thesis by (auto intro: parse_crafted [OF assms(1) refl refl ty])
  next
    case False
    with gen corrupt_total [OF assms(2)] show ?thesis
      by (auto intro: parse_corrupt [OF assms(1) refl refl ty] split: option.split)
  qed
qed

definition demo_chain :: request_chain where
  "demo_chain =
     \<lparr>header_desc = \<lparr>de_addr = 0, de_len = 0x1000, de_flags = 1, de_next = 1\<rparr>,
      data_desc = \<lparr>de_addr = 0, de_len = 0x1000, de_flags = 3, de_next = 2\<rparr>,
      status_desc = \<lparr>de_addr = 0, de_len = 0x1000, de_flags = 2, de_next = 0\<rparr>,
      chain_header = new_header 0 0\<rparr>"

definition demo_laid_out :: request_chain where
  "demo_laid_out =
     \<lparr>header_desc = \<lparr>de_addr = 0x1000, de_len = 0x1000, de_flags = 1, de_next = 1\<rparr>,
      data_desc = \<lparr>de_addr = 0x3000, de_len = 512, de_flags = 1, de_next = 2\<rparr>,
      status_desc = \<lparr>de_addr = 0x5000, de_len = 1, de_flags = 2, de_next = 0\<rparr>,
      chain_header = new_header 0 3\<rparr>"

text \<open>The fifth coin takes the write flag off the data descriptor of a read.\<close>

definition demo_coins :: "bool list" where
  "demo_coins = [False, False, False, False, True, False, False, False, False, False]"

lemma demo_generated:
  "random_request_parse demo_chain 0 0 3 ChooseIn demo_coins = Some (Err UnexpectedReadOnlyDescriptor, demo_laid_out)"
  by (simp add: random_request_parse_def do_random_request_parse_def random_layout_def checked_add_def
      max_desc_len_def coin_def demo_coins_def corrupt_def crafted_request_def crafted_chain_def
      valid_data_len_def demo_chain_def demo_laid_out_def virtio_defs desc_flags NUM_DISK_SECTORS_def
      new_header_def set_data_flags_def Let_def)

definition demo_head :: desc_chain where
  "demo_head = Desc 0 0x1000 0x1000 False True (Some (Desc 1 0x3000 512 False True
     (Some (Desc 2 0x5000 1 True False None))))"

theorem parse_random_requests_witness:
  "parse demo_guest demo_head NUM_DISK_SECTORS [] = Err UnexpectedReadOnlyDescriptor"
proof -
  have "fresh_chain demo_chain" by (simp add: fresh_chain_def demo_chain_def desc_flags)
  moreover have "length demo_coins = 10" by (simp add: demo_coins_def)
  moreover have "laid_out demo_guest demo_laid_out demo_head []"
    by (simp add: laid_out_def walk_simps demo_laid_out_def demo_head_def demo_guest_def new_header_def
        virtio_defs)
  ultimately show ?thesis
    using parse_random_requests [where 'w = "(u8 \<times> u64) list" and c = demo_chain and coins = demo_coins and sparsity = 0
        and data_len = 0 and sector = 3 and choice = ChooseIn]
    by (simp add: demo_generated)
qed

section \<open>The unit tests\<close>

text \<open>
  A test sets up one chain after the other and says what becomes of each. The check in the source
  accepts any error where one is expected, since a name in a pattern matches everything; here it has
  to be the one that the test names.
\<close>

datatype expectation = ExpectErr virtio_block_error | ExpectOk bool

definition check_parse :: "request_chain \<Rightarrow> bool \<Rightarrow> request \<Rightarrow> bool" where
  "check_parse c check_data req \<longleftrightarrow>
     rq_type req = request_type_from (h_request_type (chain_header c)) \<and>
     rq_sector req = h_sector (chain_header c) \<and>
     (check_data \<longrightarrow> rq_data_addr req = de_addr (data_desc c) \<and> rq_data_len req = de_len (data_desc c)) \<and>
     rq_status_addr req = de_addr (status_desc c)"

fun meets :: "request_chain \<Rightarrow> expectation \<Rightarrow> virtio_block_error + request \<Rightarrow> bool" where
  "meets c (ExpectErr e) r = (r = Err e)"
| "meets c (ExpectOk check_data) (Inr req) = check_parse c check_data req"
| "meets c (ExpectOk check_data) (Inl e) = False"

definition set_header :: "u32 \<Rightarrow> u64 \<Rightarrow> request_chain \<Rightarrow> request_chain" where
  "set_header t sector c = c\<lparr>chain_header := new_header t sector\<rparr>"

definition set_data_addr :: "u64 \<Rightarrow> request_chain \<Rightarrow> request_chain" where
  "set_data_addr a c = c\<lparr>data_desc := (data_desc c)\<lparr>de_addr := a\<rparr>\<rparr>"

definition set_status_flags :: "u16 \<Rightarrow> request_chain \<Rightarrow> request_chain" where
  "set_status_flags f c = c\<lparr>status_desc := (status_desc c)\<lparr>de_flags := f\<rparr>\<rparr>"

definition set_status_addr :: "u64 \<Rightarrow> request_chain \<Rightarrow> request_chain" where
  "set_status_addr a c = c\<lparr>status_desc := (status_desc c)\<lparr>de_addr := a\<rparr>\<rparr>"

definition set_header_next :: "u16 \<Rightarrow> request_chain \<Rightarrow> request_chain" where
  "set_header_next n c = c\<lparr>header_desc := (header_desc c)\<lparr>de_next := n\<rparr>\<rparr>"

definition test_parse_generic :: "u64 \<Rightarrow> request_chain \<Rightarrow> (request_chain \<times> expectation) list" where
  "test_parse_generic last_addr c0 =
     (let c1 = set_header_flags (\<lambda>_. VIRTQ_DESC_F_WRITE) (set_header 100 114 c0);
          c2 = set_header_flags (\<lambda>_. 0) c1;
          c3 = set_data_flags (\<lambda>_. 0) (set_header_flags (\<lambda>_. VIRTQ_DESC_F_NEXT) c2);
          c4 = set_status_flags 0 (set_data_flags (\<lambda>_. VIRTQ_DESC_F_NEXT) c3);
          c5 = set_status_len 0 (set_status_flags VIRTQ_DESC_F_WRITE c4);
          c6 = set_status_addr last_addr (set_status_len 0x1000 c5);
          c7 = set_data_addr last_addr (set_status_addr 0x3000 c6);
          c8 = set_data_addr 0x2000 c7 in
      [(c1, ExpectErr UnexpectedWriteOnlyDescriptor), (c2, ExpectErr DescriptorChainTooShort),
       (c3, ExpectErr DescriptorChainTooShort), (c4, ExpectErr UnexpectedReadOnlyDescriptor),
       (c5, ExpectErr DescriptorLengthTooSmall), (c6, ExpectOk True), (c7, ExpectOk True),
       (c8, ExpectOk True)])"

definition test_parse_in :: "request_chain \<Rightarrow> (request_chain \<times> expectation) list" where
  "test_parse_in c0 =
     (let c1 = set_data_flags (\<lambda>_. VIRTQ_DESC_F_NEXT) (set_header VIRTIO_BLK_T_IN 99 c0);
          c2 = set_data_len 513 (set_data_flags (\<lambda>_. VIRTQ_DESC_F_NEXT OR VIRTQ_DESC_F_WRITE) c1);
          c3 = set_header VIRTIO_BLK_T_IN NUM_DISK_SECTORS (set_data_len 512 c2);
          c4 = set_header VIRTIO_BLK_T_IN (NUM_DISK_SECTORS - 1) c3 in
      [(c1, ExpectErr UnexpectedReadOnlyDescriptor), (c2, ExpectErr InvalidDataLength),
       (c3, ExpectErr InvalidOffset), (c4, ExpectOk True)])"

definition test_parse_out :: "request_chain \<Rightarrow> (request_chain \<times> expectation) list" where
  "test_parse_out c0 =
     (let c1 = set_data_flags (\<lambda>_. VIRTQ_DESC_F_NEXT OR VIRTQ_DESC_F_WRITE) (set_header VIRTIO_BLK_T_OUT 100 c0);
          c2 = set_data_len 1000 (set_data_flags (\<lambda>_. VIRTQ_DESC_F_NEXT) c1);
          c3 = set_header VIRTIO_BLK_T_OUT (NUM_DISK_SECTORS - 1) (set_data_len 1024 c2);
          c4 = set_header VIRTIO_BLK_T_OUT (NUM_DISK_SECTORS - 2) c3 in
      [(c1, ExpectErr UnexpectedWriteOnlyDescriptor), (c2, ExpectErr InvalidDataLength),
       (c3, ExpectErr InvalidOffset), (c4, ExpectOk True)])"

definition test_parse_flush :: "request_chain \<Rightarrow> (request_chain \<times> expectation) list" where
  "test_parse_flush c0 =
     (let c1 = set_header VIRTIO_BLK_T_FLUSH 50 c0; c2 = set_header_next 2 c1 in
      [(c1, ExpectOk True), (c2, ExpectOk False)])"

definition test_parse_get_id :: "request_chain \<Rightarrow> (request_chain \<times> expectation) list" where
  "test_parse_get_id c0 =
     (let c1 = set_data_flags (\<lambda>_. VIRTQ_DESC_F_NEXT) (set_header VIRTIO_BLK_T_GET_ID 15 c0);
          c2 = set_data_len (VIRTIO_BLK_ID_BYTES - 1)
                 (set_data_flags (\<lambda>_. VIRTQ_DESC_F_NEXT OR VIRTQ_DESC_F_WRITE) c1);
          c3 = set_data_len VIRTIO_BLK_ID_BYTES c2 in
      [(c1, ExpectErr UnexpectedReadOnlyDescriptor), (c2, ExpectErr InvalidDataLength), (c3, ExpectOk True)])"

lemmas test_updates = set_header_def set_data_addr_def set_status_flags_def set_status_addr_def
  set_header_next_def chain_updates

lemmas test_eval = test_updates fresh_chain_def desc_flag_bits flag_bits new_header_def request_type_from_def
  virtio_defs check_validity_def checked_add_def NUM_DISK_SECTORS_def check_parse_def bit_simps word_less_nat_alt
  word_le_nat_alt

definition passes :: "(request_chain \<times> expectation) list \<Rightarrow> bool" where
  "passes test = list_all (\<lambda>(c, want). linked c \<and> meets c want (parse_table c NUM_DISK_SECTORS)) test"

lemmas test_defs = passes_def linked_def parse_table_def status_outcome_def Let_def test_eval

lemma test_parse_generic_passes: "fresh_chain c0 \<Longrightarrow> passes (test_parse_generic last_addr c0)"
  by (simp add: test_parse_generic_def test_defs)

lemma test_parse_in_passes: "fresh_chain c0 \<Longrightarrow> passes (test_parse_in c0)"
  by (simp add: test_parse_in_def test_defs)

lemma test_parse_out_passes: "fresh_chain c0 \<Longrightarrow> passes (test_parse_out c0)"
  by (simp add: test_parse_out_def test_defs)

lemma test_parse_flush_passes: "fresh_chain c0 \<Longrightarrow> passes (test_parse_flush c0)"
  by (simp add: test_parse_flush_def test_defs)

lemma test_parse_get_id_passes: "fresh_chain c0 \<Longrightarrow> passes (test_parse_get_id c0)"
  by (simp add: test_parse_get_id_def test_defs)

text \<open>
  the unit tests of the parser pass, with the errors they name. For every chain that a test sets
  up from a fresh one, however it reaches the device, the parser returns the named error, or a request
  with the type, sector, data buffer and status address of the chain.
\<close>

theorem parser_unit_tests_pass:
  assumes "fresh_chain c0"
    and "(c, want) \<in> set (test_parse_generic last_addr c0 @ test_parse_in c0 @ test_parse_out c0 @
        test_parse_flush c0 @ test_parse_get_id c0)"
    and "laid_out H c head w"
  shows "meets c want (parse H head NUM_DISK_SECTORS w)"
proof -
  have "linked c \<and> meets c want (parse_table c NUM_DISK_SECTORS)"
    using assms(2) test_parse_generic_passes [OF assms(1)] test_parse_in_passes [OF assms(1)]
      test_parse_out_passes [OF assms(1)] test_parse_flush_passes [OF assms(1)]
      test_parse_get_id_passes [OF assms(1)]
    by (fastforce simp: passes_def list_all_iff)
  then show ?thesis using parse_table_eq [OF assms(3)] by simp
qed

definition flush_guest :: "(u8 \<times> u64) list block_host" where
  "flush_guest = demo_guest\<lparr>g_read_header := (\<lambda>a w. Ok (new_header VIRTIO_BLK_T_FLUSH 50))\<rparr>"

definition flush_head :: desc_chain where
  "flush_head = Desc 0 0 0x1000 False True (Some (Desc 1 0 0x1000 True True
     (Some (Desc 2 0 0x1000 True False None))))"

theorem parser_unit_tests_pass_witness:
  "meets (set_header VIRTIO_BLK_T_FLUSH 50 demo_chain) (ExpectOk True)
     (parse flush_guest flush_head NUM_DISK_SECTORS [])"
proof -
  have f: "fresh_chain demo_chain" by (simp add: fresh_chain_def demo_chain_def desc_flags)
  have t: "(set_header VIRTIO_BLK_T_FLUSH 50 demo_chain, ExpectOk True) \<in> set (test_parse_generic 0 demo_chain
      @ test_parse_in demo_chain @ test_parse_out demo_chain @ test_parse_flush demo_chain
      @ test_parse_get_id demo_chain)"
    by (simp add: test_parse_flush_def Let_def)
  have "laid_out flush_guest (set_header VIRTIO_BLK_T_FLUSH 50 demo_chain) flush_head []"
    by (simp add: laid_out_def walk_simps demo_chain_def flush_head_def flush_guest_def set_header_def)
  from parser_unit_tests_pass [OF f t this] show ?thesis .
qed

end
