(* ===== verification/Block_Device.thy ===== *)
theory Block_Device
  imports Block_Request
begin

text \<open>
  The virtio block device, device.rs of the same directory: the backing file, the configuration,
  the processing of the request queue and of completed asynchronous requests, the configuration
  space and the life cycle of the device. The queue, the interrupt, the event descriptors, the
  files and the engine are fields of a record over the world; an option of an outcome is \<open>None\<close>
  for a panic, the outer option of a loop is \<open>None\<close> when it does not return. An engine is
  represented by its type.
\<close>

unbundle bit_operations_syntax

section \<open>Data\<close>

datatype file_engine_type = Async | Sync

datatype cache_type = Unsafe | Writeback

record disk_properties =
  file_path :: string
  file_engine :: file_engine_type
  nsectors :: u64
  image_id :: "u8 list"

record 'rl block_device_config =
  bc_drive_id :: string
  bc_partuuid :: "string option"
  bc_is_root_device :: bool
  bc_cache_type :: cache_type
  bc_is_read_only :: "bool option"
  bc_path_on_host :: "string option"
  bc_rate_limiter :: "'rl option"
  bc_file_engine_type :: "file_engine_type option"
  bc_socket :: "string option"

record 'rl virtio_block_config =
  vc_drive_id :: string
  vc_partuuid :: "string option"
  vc_is_root_device :: bool
  vc_cache_type :: cache_type
  vc_is_read_only :: bool
  vc_path_on_host :: string
  vc_rate_limiter :: "'rl option"
  vc_file_engine_type :: file_engine_type

record virtio_block =
  avail_features :: u64
  acked_features :: u64
  capacity :: u64
  activated :: bool
  blk_id :: string
  partuuid :: "string option"
  cache_kind :: cache_type
  root_device :: bool
  read_only :: bool
  disk :: disk_properties
  is_io_engine_throttled :: bool
  metrics :: block_metrics

record ('w, 'rl, 'u) dev_host =
  q_pop :: "'w \<Rightarrow> (string + desc_chain option) \<times> 'w"
  q_undo_pop :: "'w \<Rightarrow> 'w"
  q_len :: "'w \<Rightarrow> nat"
  q_add_used :: "u16 \<Rightarrow> u32 \<Rightarrow> 'w \<Rightarrow> bool \<times> 'w"
  q_advance_used_ring_idx :: "'w \<Rightarrow> 'w"
  q_prepare_kick :: "'w \<Rightarrow> bool \<times> 'w"
  q_initialize :: "'w \<Rightarrow> unit res \<times> 'w"
  q_enable_notif_suppression :: "'w \<Rightarrow> 'w"
  i_trigger_queue :: "'w \<Rightarrow> bool \<times> 'w"
  i_trigger_config :: "'w \<Rightarrow> bool \<times> 'w"
  ev_new :: "'w \<Rightarrow> unit res \<times> 'w"
  ev_queue_read :: "'w \<Rightarrow> bool \<times> 'w"
  ev_completion_read :: "'w \<Rightarrow> bool \<times> 'w"
  ev_activate_write :: "'w \<Rightarrow> bool \<times> 'w"
  rl_create :: "'rl option \<Rightarrow> 'w \<Rightarrow> unit res \<times> 'w"
  rl_config :: "'w \<Rightarrow> 'rl option"
  rl_is_blocked :: "'w \<Rightarrow> bool"
  rl_event_handler :: "'w \<Rightarrow> bool \<times> 'w"
  rl_update_buckets :: "'u \<Rightarrow> 'u \<Rightarrow> 'w \<Rightarrow> 'w"
  f_open :: "string \<Rightarrow> bool \<Rightarrow> 'w \<Rightarrow> nat res \<times> 'w"
  f_seek_end :: "nat \<Rightarrow> 'w \<Rightarrow> u64 res \<times> 'w"
  f_metadata :: "nat \<Rightarrow> 'w \<Rightarrow> (nat \<times> nat \<times> nat) res"
  e_from_file :: "nat \<Rightarrow> file_engine_type \<Rightarrow> 'w \<Rightarrow> unit res \<times> 'w"
  e_update_file_path :: "nat \<Rightarrow> 'w \<Rightarrow> unit res \<times> 'w"
  e_kick_submission_queue :: "'w \<Rightarrow> 'w"
  e_pop :: "'w \<Rightarrow> (string + (pending_request \<times> (string + u32)) option) \<times> 'w"
  e_drain :: "bool \<Rightarrow> 'w \<Rightarrow> 'w"
  e_drain_and_flush :: "bool \<Rightarrow> 'w \<Rightarrow> 'w"

section \<open>The backing file\<close>

definition open_file ::
  "('w, 'rl, 'u) dev_host \<Rightarrow> string \<Rightarrow> bool \<Rightarrow> 'w \<Rightarrow> (virtio_block_error + nat) \<times> 'w" where
  "open_file D path is_disk_read_only w =
     (case f_open D path (\<not> is_disk_read_only) w of
        (r, w') \<Rightarrow> (map_err (\<lambda>x. BackingFile x path) r, w'))"

definition file_size ::
  "('w, 'rl, 'u) dev_host \<Rightarrow> string \<Rightarrow> nat \<Rightarrow> 'w \<Rightarrow> (virtio_block_error + u64) \<times> 'w" where
  "file_size D path f w =
     (case f_seek_end D f w of (r, w') \<Rightarrow> (map_err (\<lambda>x. BackingFile x path) r, w'))"

definition build_device_id :: "('w, 'rl, 'u) dev_host \<Rightarrow> nat \<Rightarrow> 'w \<Rightarrow> virtio_block_error + string" where
  "build_device_id D f w =
     rbind (map_err GetFileMetadata (f_metadata D f w))
       (\<lambda>(st_dev, st_rdev, st_ino). Ok (show_nat st_dev @ show_nat st_rdev @ show_nat st_ino))"

definition build_disk_image_id :: "('w, 'rl, 'u) dev_host \<Rightarrow> nat \<Rightarrow> 'w \<Rightarrow> u8 list" where
  "build_disk_image_id D f w =
     (let default_id = replicate (unat VIRTIO_BLK_ID_BYTES) 0 in
      (case build_device_id D f w of
         Inl _ \<Rightarrow> default_id
       | Inr disk_id_string \<Rightarrow>
           (let disk_id = map of_char disk_id_string;
                bytes_to_copy = min (length disk_id) (unat VIRTIO_BLK_ID_BYTES)
            in take bytes_to_copy disk_id @ drop bytes_to_copy default_id)))"

definition new_disk ::
  "('w, 'rl, 'u) dev_host \<Rightarrow> string \<Rightarrow> bool \<Rightarrow> file_engine_type \<Rightarrow> 'w \<Rightarrow>
     (virtio_block_error + disk_properties) \<times> 'w" where
  "new_disk D path ro engine w =
     (case open_file D path ro w of
        (Inl e, w1) \<Rightarrow> (Err e, w1)
      | (Inr f, w1) \<Rightarrow>
          (case file_size D path f w1 of
             (Inl e, w2) \<Rightarrow> (Err e, w2)
           | (Inr disk_size, w2) \<Rightarrow>
               (let img = build_disk_image_id D f w2 in
                (case e_from_file D f engine w2 of
                   (Inl e, w3) \<Rightarrow> (Err (FileEngineError e), w3)
                 | (Inr _, w3) \<Rightarrow>
                     (Ok \<lparr>file_path = path, file_engine = engine,
                          nsectors = drop_bit SECTOR_SHIFT disk_size, image_id = img\<rparr>, w3)))))"

text \<open>\<open>update\<close> changes the image id before the engine may refuse the new file.\<close>

definition update_disk ::
  "('w, 'rl, 'u) dev_host \<Rightarrow> string \<Rightarrow> bool \<Rightarrow> disk_properties \<Rightarrow> 'w \<Rightarrow>
     (virtio_block_error + unit) \<times> disk_properties \<times> 'w" where
  "update_disk D path ro d w =
     (case open_file D path ro w of
        (Inl e, w1) \<Rightarrow> (Err e, d, w1)
      | (Inr f, w1) \<Rightarrow>
          (case file_size D path f w1 of
             (Inl e, w2) \<Rightarrow> (Err e, d, w2)
           | (Inr disk_size, w2) \<Rightarrow>
               (let d1 = d\<lparr>image_id := build_disk_image_id D f w2\<rparr> in
                (case e_update_file_path D f w2 of
                   (Inl e, w3) \<Rightarrow> (Err (FileEngineError e), d1, w3)
                 | (Inr _, w3) \<Rightarrow>
                     (Ok (), d1\<lparr>nsectors := drop_bit SECTOR_SHIFT disk_size, file_path := path\<rparr>, w3)))))"

section \<open>Configuration\<close>

definition try_from_config :: "'rl block_device_config \<Rightarrow> virtio_block_error + 'rl virtio_block_config" where
  "try_from_config c =
     (case (bc_path_on_host c, bc_socket c) of
        (Some path, None) \<Rightarrow>
          Ok \<lparr>vc_drive_id = bc_drive_id c, vc_partuuid = bc_partuuid c,
              vc_is_root_device = bc_is_root_device c, vc_cache_type = bc_cache_type c,
              vc_is_read_only = (case bc_is_read_only c of Some b \<Rightarrow> b | None \<Rightarrow> False),
              vc_path_on_host = path, vc_rate_limiter = bc_rate_limiter c,
              vc_file_engine_type = (case bc_file_engine_type c of Some t \<Rightarrow> t | None \<Rightarrow> Sync)\<rparr>
      | _ \<Rightarrow> Err Config)"

definition from_virtio_config :: "'rl virtio_block_config \<Rightarrow> 'rl block_device_config" where
  "from_virtio_config c =
     \<lparr>bc_drive_id = vc_drive_id c, bc_partuuid = vc_partuuid c,
      bc_is_root_device = vc_is_root_device c, bc_cache_type = vc_cache_type c,
      bc_is_read_only = Some (vc_is_read_only c), bc_path_on_host = Some (vc_path_on_host c),
      bc_rate_limiter = vc_rate_limiter c, bc_file_engine_type = Some (vc_file_engine_type c),
      bc_socket = None\<rparr>"

definition VIRTIO_F_VERSION_1 :: nat where "VIRTIO_F_VERSION_1 = 32"
definition VIRTIO_RING_F_EVENT_IDX :: nat where "VIRTIO_RING_F_EVENT_IDX = 29"
definition VIRTIO_BLK_F_FLUSH :: nat where "VIRTIO_BLK_F_FLUSH = 9"
definition VIRTIO_BLK_F_RO :: nat where "VIRTIO_BLK_F_RO = 5"

lemmas feature_defs =
  VIRTIO_F_VERSION_1_def VIRTIO_RING_F_EVENT_IDX_def VIRTIO_BLK_F_FLUSH_def VIRTIO_BLK_F_RO_def

definition feature_bits :: "cache_type \<Rightarrow> bool \<Rightarrow> u64" where
  "feature_bits cache ro =
     push_bit VIRTIO_F_VERSION_1 1 OR push_bit VIRTIO_RING_F_EVENT_IDX 1
       OR (if cache = Writeback then push_bit VIRTIO_BLK_F_FLUSH 1 else 0)
       OR (if ro then push_bit VIRTIO_BLK_F_RO 1 else 0)"

definition new_block ::
  "('w, 'rl, 'u) dev_host \<Rightarrow> 'rl virtio_block_config \<Rightarrow> 'w \<Rightarrow> (virtio_block_error + virtio_block) \<times> 'w" where
  "new_block D c w =
     (case new_disk D (vc_path_on_host c) (vc_is_read_only c) (vc_file_engine_type c) w of
        (Inl e, w1) \<Rightarrow> (Err e, w1)
      | (Inr d, w1) \<Rightarrow>
     (case rl_create D (vc_rate_limiter c) w1 of
        (Inl e, w2) \<Rightarrow> (Err (RateLimiterError e), w2)
      | (Inr _, w2) \<Rightarrow>
     (case ev_new D w2 of
        (Inl e, w3) \<Rightarrow> (Err (EventFdError e), w3)
      | (Inr _, w3) \<Rightarrow>
     (case ev_new D w3 of
        (Inl e, w4) \<Rightarrow> (Err (EventFdError e), w4)
      | (Inr _, w4) \<Rightarrow>
          (Ok \<lparr>avail_features = feature_bits (vc_cache_type c) (vc_is_read_only c), acked_features = 0,
               capacity = nsectors d, activated = False, blk_id = vc_drive_id c,
               partuuid = vc_partuuid c, cache_kind = vc_cache_type c,
               root_device = vc_is_root_device c, read_only = vc_is_read_only c, disk = d,
               is_io_engine_throttled = False, metrics = zero_metrics\<rparr>, w4)))))"

definition file_engine_type_of :: "virtio_block \<Rightarrow> file_engine_type" where
  "file_engine_type_of b = file_engine (disk b)"

definition config :: "('w, 'rl, 'u) dev_host \<Rightarrow> virtio_block \<Rightarrow> 'w \<Rightarrow> 'rl virtio_block_config" where
  "config D b w =
     \<lparr>vc_drive_id = blk_id b, vc_partuuid = partuuid b, vc_is_root_device = root_device b,
      vc_cache_type = cache_kind b, vc_is_read_only = read_only b,
      vc_path_on_host = file_path (disk b), vc_rate_limiter = rl_config D w,
      vc_file_engine_type = file_engine_type_of b\<rparr>"

section \<open>The request queue\<close>

text \<open>One chain taken from the queue; \<open>None\<close> when it is rate limited and has been put back.\<close>

definition handle_chain ::
  "'w block_host \<Rightarrow> ('w, 'rl, 'u) dev_host \<Rightarrow> desc_chain \<Rightarrow> virtio_block \<Rightarrow> 'w \<Rightarrow>
     processing_result option \<times> virtio_block \<times> 'w" where
  "handle_chain H D head b w =
     (case parse H head (nsectors (disk b)) w of
        Inr req \<Rightarrow>
          (case rate_limit H req w of
             (True, w1) \<Rightarrow>
               (None,
                b\<lparr>metrics := (metrics b)\<lparr>rate_limiter_throttled_events :=
                    rate_limiter_throttled_events (metrics b) + 1\<rparr>\<rparr>,
                q_undo_pop D w1)
           | (False, w1) \<Rightarrow>
               (case process H (blk_id b) (image_id (disk b)) req (d_index head) (metrics b) w1 of
                  (r, m, w2) \<Rightarrow> (Some r, b\<lparr>metrics := m\<rparr>, w2)))
      | Inl err \<Rightarrow>
          (Some (Executed \<lparr>num_bytes_to_mem = 0, f_desc_idx = d_index head\<rparr>),
           b\<lparr>metrics := (metrics b)\<lparr>execute_fails := execute_fails (metrics b) + 1\<rparr>\<rparr>, w))"

partial_function (option) chain_loop ::
  "'w block_host \<Rightarrow> ('w, 'rl, 'u) dev_host \<Rightarrow> bool \<Rightarrow> virtio_block \<Rightarrow> 'w \<Rightarrow>
     (bool res \<times> virtio_block \<times> 'w) option" where
  "chain_loop H D used_any b w =
     (case q_pop D w of
        (Inl e, w1) \<Rightarrow> Some (Err e, b, w1)
      | (Inr None, w1) \<Rightarrow> Some (Ok used_any, b, w1)
      | (Inr (Some head), w1) \<Rightarrow>
          (let b1 = b\<lparr>metrics := (metrics b)\<lparr>remaining_reqs_count :=
                 remaining_reqs_count (metrics b) + q_len D w1\<rparr>\<rparr> in
           (case handle_chain H D head b1 w1 of
              (None, b2, w2) \<Rightarrow> Some (Ok used_any, b2, w2)
            | (Some Submitted, b2, w2) \<Rightarrow> chain_loop H D used_any b2 w2
            | (Some Throttled, b2, w2) \<Rightarrow>
                Some (Ok used_any, b2\<lparr>is_io_engine_throttled := True\<rparr>, q_undo_pop D w2)
            | (Some (Executed finished), b2, w2) \<Rightarrow>
                chain_loop H D True b2 (snd (q_add_used D (d_index head) (num_bytes_to_mem finished) w2)))))"

definition kick_guest ::
  "('w, 'rl, 'u) dev_host \<Rightarrow> virtio_block \<Rightarrow> 'w \<Rightarrow> virtio_block \<times> 'w" where
  "kick_guest D b w =
     (case q_prepare_kick D w of
        (False, w1) \<Rightarrow> (b, w1)
      | (True, w1) \<Rightarrow>
          (case i_trigger_queue D w1 of
             (ok, w2) \<Rightarrow>
               (if ok then b
                else b\<lparr>metrics := (metrics b)\<lparr>event_fails := event_fails (metrics b) + 1\<rparr>\<rparr>, w2)))"

definition finish_queue ::
  "('w, 'rl, 'u) dev_host \<Rightarrow> bool \<Rightarrow> virtio_block \<Rightarrow> 'w \<Rightarrow> virtio_block \<times> 'w" where
  "finish_queue D used_any b w =
     (let w1 = q_advance_used_ring_idx D w in
      case (if used_any then kick_guest D b w1 else (b, w1)) of (b2, w2) \<Rightarrow>
      let w3 = (if file_engine (disk b2) = Async then e_kick_submission_queue D w2 else w2)
      in (if used_any then b2
          else b2\<lparr>metrics := (metrics b2)\<lparr>no_avail_buffer := no_avail_buffer (metrics b2) + 1\<rparr>\<rparr>, w3))"

definition process_queue ::
  "'w block_host \<Rightarrow> ('w, 'rl, 'u) dev_host \<Rightarrow> virtio_block \<Rightarrow> 'w \<Rightarrow>
     (unit res option \<times> virtio_block \<times> 'w) option" where
  "process_queue H D b w =
     (if \<not> activated b then Some (None, b, w)
      else
        (case chain_loop H D False b w of
           None \<Rightarrow> None
         | Some (Inl e, b1, w1) \<Rightarrow> Some (Some (Err e), b1, w1)
         | Some (Inr used_any, b1, w1) \<Rightarrow>
             (case finish_queue D used_any b1 w1 of (b2, w2) \<Rightarrow> Some (Some (Ok ()), b2, w2))))"

definition process_virtio_queues ::
  "'w block_host \<Rightarrow> ('w, 'rl, 'u) dev_host \<Rightarrow> virtio_block \<Rightarrow> 'w \<Rightarrow>
     (unit res option \<times> virtio_block \<times> 'w) option" where
  "process_virtio_queues = process_queue"

text \<open>The \<open>unwrap\<close> of the result.\<close>

fun unwrap_queue ::
  "(unit res option \<times> virtio_block \<times> 'w) option \<Rightarrow> (unit option \<times> virtio_block \<times> 'w) option" where
  "unwrap_queue None = None"
| "unwrap_queue (Some (None, b, w)) = Some (None, b, w)"
| "unwrap_queue (Some (Some (Inl e), b, w)) = Some (None, b, w)"
| "unwrap_queue (Some (Some (Inr u), b, w)) = Some (Some (), b, w)"

definition process_queue_event ::
  "'w block_host \<Rightarrow> ('w, 'rl, 'u) dev_host \<Rightarrow> virtio_block \<Rightarrow> 'w \<Rightarrow>
     (unit option \<times> virtio_block \<times> 'w) option" where
  "process_queue_event H D b w =
     (let b1 = b\<lparr>metrics := (metrics b)\<lparr>queue_event_count := queue_event_count (metrics b) + 1\<rparr>\<rparr> in
      (case ev_queue_read D w of
         (False, w1) \<Rightarrow>
           Some (Some (), b1\<lparr>metrics := (metrics b1)\<lparr>event_fails := event_fails (metrics b1) + 1\<rparr>\<rparr>, w1)
       | (True, w1) \<Rightarrow>
           (if rl_is_blocked D w1 then
              Some (Some (), b1\<lparr>metrics := (metrics b1)\<lparr>rate_limiter_throttled_events :=
                rate_limiter_throttled_events (metrics b1) + 1\<rparr>\<rparr>, w1)
            else if is_io_engine_throttled b1 then
              Some (Some (), b1\<lparr>metrics := (metrics b1)\<lparr>io_engine_throttled_events :=
                io_engine_throttled_events (metrics b1) + 1\<rparr>\<rparr>, w1)
            else unwrap_queue (process_virtio_queues H D b1 w1))))"

definition process_rate_limiter_event ::
  "'w block_host \<Rightarrow> ('w, 'rl, 'u) dev_host \<Rightarrow> virtio_block \<Rightarrow> 'w \<Rightarrow>
     (unit option \<times> virtio_block \<times> 'w) option" where
  "process_rate_limiter_event H D b w =
     (let b1 = b\<lparr>metrics := (metrics b)\<lparr>rate_limiter_event_count :=
            rate_limiter_event_count (metrics b) + 1\<rparr>\<rparr> in
      (case rl_event_handler D w of
         (False, w1) \<Rightarrow> Some (Some (), b1, w1)
       | (True, w1) \<Rightarrow> unwrap_queue (process_queue H D b1 w1)))"

section \<open>Asynchronous completions\<close>

partial_function (option) completion_loop ::
  "'w block_host \<Rightarrow> ('w, 'rl, 'u) dev_host \<Rightarrow> virtio_block \<Rightarrow> 'w \<Rightarrow> (virtio_block \<times> 'w) option" where
  "completion_loop H D b w =
     (case e_pop D w of
        (Inl e, w1) \<Rightarrow> Some (b, w1)
      | (Inr None, w1) \<Rightarrow> Some (b, w1)
      | (Inr (Some (pending, res)), w1) \<Rightarrow>
          (case finish H pending (map_err FileEngineIo res) (metrics b) w1 of
             (finished, m, w2) \<Rightarrow>
               completion_loop H D (b\<lparr>metrics := m\<rparr>)
                 (snd (q_add_used D (f_desc_idx finished) (num_bytes_to_mem finished) w2))))"

definition process_async_completion_queue ::
  "'w block_host \<Rightarrow> ('w, 'rl, 'u) dev_host \<Rightarrow> virtio_block \<Rightarrow> 'w \<Rightarrow>
     (unit option \<times> virtio_block \<times> 'w) option" where
  "process_async_completion_queue H D b w =
     (if file_engine (disk b) = Sync then Some (Some (), b, w)
      else if \<not> activated b then Some (None, b, w)
      else
        (case completion_loop H D b w of
           None \<Rightarrow> None
         | Some (b1, w1) \<Rightarrow>
             (case kick_guest D b1 (q_advance_used_ring_idx D w1) of (b2, w2) \<Rightarrow> Some (Some (), b2, w2))))"

definition process_async_completion_event ::
  "'w block_host \<Rightarrow> ('w, 'rl, 'u) dev_host \<Rightarrow> virtio_block \<Rightarrow> 'w \<Rightarrow>
     (unit option \<times> virtio_block \<times> 'w) option" where
  "process_async_completion_event H D b w =
     (if file_engine (disk b) = Sync then Some (Some (), b, w)
      else
        (case ev_completion_read D w of
           (False, w1) \<Rightarrow> Some (Some (), b, w1)
         | (True, w1) \<Rightarrow>
             (case process_async_completion_queue H D b w1 of
                None \<Rightarrow> None
              | Some (None, b2, w2) \<Rightarrow> Some (None, b2, w2)
              | Some (Some _, b2, w2) \<Rightarrow>
                  (if is_io_engine_throttled b2 then
                     unwrap_queue (process_queue H D (b2\<lparr>is_io_engine_throttled := False\<rparr>) w2)
                   else Some (Some (), b2, w2)))))"

section \<open>Updates and snapshots\<close>

definition update_disk_image ::
  "('w, 'rl, 'u) dev_host \<Rightarrow> string \<Rightarrow> virtio_block \<Rightarrow> 'w \<Rightarrow>
     (virtio_block_error + unit) option \<times> virtio_block \<times> 'w" where
  "update_disk_image D path b w =
     (case update_disk D path (read_only b) (disk b) w of
        (Inl e, d, w1) \<Rightarrow> (Some (Err e), b\<lparr>disk := d\<rparr>, w1)
      | (Inr _, d, w1) \<Rightarrow>
          (let b1 = b\<lparr>disk := d, capacity := nsectors d\<rparr> in
           (case (if activated b1 then i_trigger_config D w1 else (True, w1)) of
              (False, w2) \<Rightarrow> (None, b1, w2)
            | (True, w2) \<Rightarrow>
                (Some (Ok ()),
                 b1\<lparr>metrics := (metrics b1)\<lparr>update_count := update_count (metrics b1) + 1\<rparr>\<rparr>, w2))))"

definition update_rate_limiter :: "('w, 'rl, 'u) dev_host \<Rightarrow> 'u \<Rightarrow> 'u \<Rightarrow> 'w \<Rightarrow> 'w" where
  "update_rate_limiter D bytes ops = rl_update_buckets D bytes ops"

definition drain_and_flush :: "('w, 'rl, 'u) dev_host \<Rightarrow> bool \<Rightarrow> 'w \<Rightarrow> 'w" where
  "drain_and_flush D discard = e_drain_and_flush D discard"

definition prepare_save ::
  "'w block_host \<Rightarrow> ('w, 'rl, 'u) dev_host \<Rightarrow> virtio_block \<Rightarrow> 'w \<Rightarrow>
     (unit option \<times> virtio_block \<times> 'w) option" where
  "prepare_save H D b w =
     (if \<not> activated b then Some (Some (), b, w)
      else
        (let w1 = drain_and_flush D False w in
         if file_engine (disk b) = Async then process_async_completion_queue H D b w1
         else Some (Some (), b, w1)))"

definition drop_block :: "('w, 'rl, 'u) dev_host \<Rightarrow> virtio_block \<Rightarrow> 'w \<Rightarrow> 'w" where
  "drop_block D b w =
     (case cache_kind b of
        Unsafe \<Rightarrow> e_drain D True w
      | Writeback \<Rightarrow> drain_and_flush D True w)"

section \<open>The virtio interface\<close>

definition set_acked_features :: "u64 \<Rightarrow> virtio_block \<Rightarrow> virtio_block" where
  "set_acked_features f b = b\<lparr>acked_features := f\<rparr>"

text \<open>The configuration space is the capacity in little-endian bytes.\<close>

fun le_bytes :: "nat \<Rightarrow> u64 \<Rightarrow> u8 list" where
  "le_bytes 0 c = []"
| "le_bytes (Suc n) c = ucast c # le_bytes n (drop_bit 8 c)"

fun of_le_bytes :: "u8 list \<Rightarrow> u64" where
  "of_le_bytes [] = 0"
| "of_le_bytes (x # xs) = ucast x OR push_bit 8 (of_le_bytes xs)"

definition config_space_bytes :: "virtio_block \<Rightarrow> u8 list" where
  "config_space_bytes b = le_bytes 8 (capacity b)"

definition cfg_fail :: "virtio_block \<Rightarrow> virtio_block" where
  "cfg_fail b = b\<lparr>metrics := (metrics b)\<lparr>cfg_fails := cfg_fails (metrics b) + 1\<rparr>\<rparr>"

definition read_config :: "u64 \<Rightarrow> u8 list \<Rightarrow> virtio_block \<Rightarrow> u8 list \<times> virtio_block" where
  "read_config off data b =
     (if unat off \<le> length (config_space_bytes b) then
        (let bytes = drop (unat off) (config_space_bytes b);
             len = min (length bytes) (length data)
         in (take len bytes @ drop len data, b))
      else (data, cfg_fail b))"

definition write_config :: "u64 \<Rightarrow> u8 list \<Rightarrow> virtio_block \<Rightarrow> virtio_block" where
  "write_config off data b =
     (let start = unat off; stop = start + length data in
      if stop \<le> u64_max \<and> stop \<le> length (config_space_bytes b) then
        b\<lparr>capacity := of_le_bytes (take start (config_space_bytes b) @ data @ drop stop (config_space_bytes b))\<rparr>
      else cfg_fail b)"

definition has_feature :: "virtio_block \<Rightarrow> nat \<Rightarrow> bool" where
  "has_feature b f = bit (acked_features b) f"

definition activate ::
  "('w, 'rl, 'u) dev_host \<Rightarrow> virtio_block \<Rightarrow> 'w \<Rightarrow> unit res \<times> virtio_block \<times> 'w" where
  "activate D b w =
     (case q_initialize D w of
        (Inl e, w1) \<Rightarrow> (Err e, b, w1)
      | (Inr _, w1) \<Rightarrow>
          (let w2 = (if has_feature b VIRTIO_RING_F_EVENT_IDX then q_enable_notif_suppression D w1 else w1)
           in (case ev_activate_write D w2 of
                 (False, w3) \<Rightarrow>
                   (Err ''EventFd'',
                    b\<lparr>metrics := (metrics b)\<lparr>activate_fails := activate_fails (metrics b) + 1\<rparr>\<rparr>, w3)
               | (True, w3) \<Rightarrow> (Ok (), b\<lparr>activated := True\<rparr>, w3))))"

end
