(* ===== verification/Block_Queue_Props.thy ===== *)
theory Block_Queue_Props
  imports Block_Device Block_Request_Props "HOL-Library.Sublist"
begin

text \<open>
  Properties of the processing of the request queue: every descriptor chain that is taken from
  the queue is returned to the guest, handed to the engine or put back, in order, and the
  processing returns.
\<close>

section \<open>The queue as the guest sees it\<close>

record queue_view =
  qv_avail :: "desc_chain list"
  qv_used :: "(u16 \<times> u32) list"
  qv_popped :: "desc_chain option"

text \<open>
  The contract of the queue: chains are popped in order, the last one popped can be put back, and
  a used entry is appended unless its index is refused.
\<close>

definition queue_contract :: "('w, 'rl, 'u) dev_host \<Rightarrow> ('w \<Rightarrow> queue_view) \<Rightarrow> bool" where
  "queue_contract D view =
     ((\<forall>w h w'. q_pop D w = (Inr (Some h), w') \<longrightarrow>
         qv_avail (view w) = h # qv_avail (view w') \<and> qv_used (view w') = qv_used (view w) \<and>
         qv_popped (view w') = Some h) \<and>
      (\<forall>w w'. q_pop D w = (Inr None, w') \<longrightarrow> qv_avail (view w) = [] \<and> view w' = view w) \<and>
      (\<forall>w e w'. q_pop D w = (Inl e, w') \<longrightarrow> view w' = view w) \<and>
      (\<forall>w h. qv_popped (view w) = Some h \<longrightarrow>
         qv_avail (view (q_undo_pop D w)) = h # qv_avail (view w) \<and>
         qv_used (view (q_undo_pop D w)) = qv_used (view w)) \<and>
      (\<forall>i n w ok w'. q_add_used D i n w = (ok, w') \<longrightarrow>
         view w' = (view w)\<lparr>qv_used := qv_used (view w) @ (if ok then [(i, n)] else [])\<rparr>))"

lemma queue_contract_facts:
  assumes "queue_contract D view"
  shows pop_Some: "q_pop D w = (Inr (Some h), w') \<Longrightarrow>
      qv_avail (view w) = h # qv_avail (view w') \<and> qv_used (view w') = qv_used (view w) \<and>
      qv_popped (view w') = Some h"
    and pop_None: "q_pop D w = (Inr None, w') \<Longrightarrow> qv_avail (view w) = [] \<and> view w' = view w"
    and pop_Err: "q_pop D w = (Inl e, w') \<Longrightarrow> view w' = view w"
    and undo_pop: "qv_popped (view w) = Some h \<Longrightarrow>
      qv_avail (view (q_undo_pop D w)) = h # qv_avail (view w) \<and>
      qv_used (view (q_undo_pop D w)) = qv_used (view w)"
    and add_used: "q_add_used D i n w = (ok, w') \<Longrightarrow>
      view w' = (view w)\<lparr>qv_used := qv_used (view w) @ (if ok then [(i, n)] else [])\<rparr>"
  using assms unfolding queue_contract_def by blast+

text \<open>Parts of the world that memory, engine and trace, or also the limiter, do not touch.\<close>

definition engine_framed :: "'w block_host \<Rightarrow> ('w \<Rightarrow> 'v) \<Rightarrow> bool" where
  "engine_framed H view =
     ((\<forall>v a w. view (snd (g_write_status H v a w)) = view w) \<and>
      (\<forall>bs a w. view (snd (g_write_slice H bs a w)) = view w) \<and>
      (\<forall>off a n p w. view (snd (e_read H off a n p w)) = view w) \<and>
      (\<forall>off a n p w. view (snd (e_write H off a n p w)) = view w) \<and>
      (\<forall>p w. view (snd (e_flush H p w)) = view w) \<and>
      (\<forall>c w. view (t_set_cell H c w) = view w) \<and>
      (\<forall>w. view (snd (t_now H w)) = view w) \<and>
      (\<forall>path line w. view (t_append H path line w) = view w))"

definition queue_framed :: "'w block_host \<Rightarrow> ('w \<Rightarrow> 'v) \<Rightarrow> bool" where
  "queue_framed H view =
     (engine_framed H view \<and>
      (\<forall>n t w. view (snd (rl_consume H n t w)) = view w) \<and>
      (\<forall>n t w. view (rl_replenish H n t w) = view w))"

lemma engine_framed_facts:
  assumes "engine_framed H view"
  shows "view (snd (g_write_status H v a w)) = view w"
    and "view (snd (g_write_slice H bs a w)) = view w"
    and "view (snd (e_read H off a len p w)) = view w"
    and "view (snd (e_write H off a len p w)) = view w"
    and "view (snd (e_flush H p w)) = view w"
    and "view (t_set_cell H c w) = view w"
    and "view (snd (t_now H w)) = view w"
    and "view (t_append H path line w) = view w"
  using assms unfolding engine_framed_def by simp_all

lemma trace_record_framed: "engine_framed H view \<Longrightarrow> view (trace_record H d oper off len w) = view w"
  by (simp add: trace_record_def trace_config_def Let_def split_beta engine_framed_facts
      split: option.split)

lemma submit_framed: "engine_framed H view \<Longrightarrow> view (snd (submit H d req p w)) = view w"
  by (simp add: submit_def engine_framed_facts trace_record_framed split: request_type.split)

lemma finish_framed: "engine_framed H view \<Longrightarrow> view (snd (snd (finish H p res m w))) = view w"
  by (simp add: finish_def write_status_and_finish_def Let_def split_beta engine_framed_facts)

lemma executed_framed: "snd (snd (executed x)) = snd (snd x)"
  by (simp add: executed_def split_beta)

lemma process_framed:
  assumes "engine_framed H view"
  shows "view (snd (snd (process H d img req i m w))) = view w"
  by (simp add: process_def Let_def process_engine_result_def split_beta executed_framed assms
      finish_framed submit_framed engine_framed_facts
      split: request_type.split engine_result.split)

lemma rate_limit_framed: "queue_framed H view \<Longrightarrow> view (snd (rate_limit H req w)) = view w"
  by (simp add: rate_limit_def case_prod_beta queue_framed_def split: bool.split)

lemma handle_chain_view:
  assumes "queue_framed H view" "handle_chain H D head b w = (r, b', w')"
  shows "r = None \<Longrightarrow> \<exists>w1. w' = q_undo_pop D w1 \<and> view w1 = view w"
    and "r \<noteq> None \<Longrightarrow> view w' = view w"
proof -
  have rl: "view (snd (rate_limit H req w)) = view w" for req by (rule rate_limit_framed [OF assms(1)])
  have pr: "view (snd (snd (process H d img req i m v))) = view v" for d img req i m v
    using assms(1) by (intro process_framed) (simp add: queue_framed_def)
  show "\<exists>w1. w' = q_undo_pop D w1 \<and> view w1 = view w" if "r = None"
    using assms(2) that rl
    by (auto simp: handle_chain_def split: sum.splits prod.splits bool.splits) (metis snd_conv)
  show "view w' = view w" if "r \<noteq> None"
    using assms(2) that rl pr
    by (auto simp: handle_chain_def split: sum.splits prod.splits bool.splits) (metis snd_conv)+
qed

section \<open>Conservation of chains\<close>

text \<open>
  The account between two states of the queue: the chains taken are a prefix of those available, and
  the new used entries belong to them, in their order; all of them when the account is to cover every one.
\<close>

definition queue_account :: "bool \<Rightarrow> queue_view \<Rightarrow> queue_view \<Rightarrow> bool" where
  "queue_account every v v' =
     (\<exists>taken new. qv_avail v = taken @ qv_avail v' \<and> qv_used v' = qv_used v @ new \<and>
        subseq (map fst new) (map d_index taken) \<and> (every \<longrightarrow> map fst new = map d_index taken))"

lemma queue_account_refl: "qv_avail v' = qv_avail v \<Longrightarrow> qv_used v' = qv_used v \<Longrightarrow> queue_account every v v'"
  by (simp add: queue_account_def)

lemma queue_account_step:
  assumes "qv_avail v = h # qv_avail v1" "qv_used v1 = qv_used v @ entry" "queue_account every v1 v'"
    and "entry = [] \<and> \<not> every \<or> (\<exists>n. entry = [(d_index h, n)])"
  shows "queue_account every v v'"
proof -
  obtain taken new where t: "qv_avail v1 = taken @ qv_avail v'" "qv_used v' = qv_used v1 @ new"
    "subseq (map fst new) (map d_index taken)" "every \<longrightarrow> map fst new = map d_index taken"
    using assms(3) unfolding queue_account_def by blast
  have "subseq (map fst (entry @ new)) (map d_index (h # taken))"
    and "every \<longrightarrow> map fst (entry @ new) = map d_index (h # taken)"
    using assms(4) t(3,4) by (auto intro: subseq_Cons2)
  with assms(1,2) t(1,2) show ?thesis unfolding queue_account_def
    by (intro exI [of _ "h # taken"] exI [of _ "entry @ new"]) simp
qed

text \<open>An engine that completes every request at once, and a queue that accepts every used entry.\<close>

definition synchronous :: "'w block_host \<Rightarrow> ('w, 'rl, 'u) dev_host \<Rightarrow> bool" where
  "synchronous H D =
     ((\<forall>off a n p w. fst (e_read H off a n p w) \<noteq> EngineSubmitted) \<and>
      (\<forall>off a n p w. fst (e_write H off a n p w) \<noteq> EngineSubmitted) \<and>
      (\<forall>p w. fst (e_flush H p w) \<noteq> EngineSubmitted) \<and>
      (\<forall>i n w. fst (q_add_used D i n w)))"

lemma synchronous_process:
  assumes "synchronous H D"
  shows "fst (process H d img req i m w) \<noteq> Submitted"
proof -
  have "fst (submit H d req p w) \<noteq> EngineSubmitted" for p
    using assms by (simp add: submit_def synchronous_def split: request_type.split)
  then show ?thesis
    by (simp add: process_def Let_def process_engine_result_def executed_def split_beta
        split: request_type.split engine_result.split)
qed

lemma synchronous_handle_chain: "synchronous H D \<Longrightarrow> fst (handle_chain H D head b w) \<noteq> Some Submitted"
  using synchronous_process [of H D]
  by (auto simp: handle_chain_def split: sum.split prod.split bool.split) (metis fst_conv)

text \<open>A limiter and an engine that never hold a request back, and a queue whose index is valid.\<close>

definition unthrottled :: "'w block_host \<Rightarrow> ('w, 'rl, 'u) dev_host \<Rightarrow> bool" where
  "unthrottled H D =
     ((\<forall>n t w. fst (rl_consume H n t w)) \<and> (\<forall>e. \<not> e_is_throttling_err H e) \<and>
      (\<forall>w e w'. q_pop D w \<noteq> (Inl e, w')))"

lemma unthrottled_handle_chain:
  assumes "unthrottled H D" "handle_chain H D head b w = (r, b', w')"
  shows "r \<noteq> None" "r \<noteq> Some Throttled"
proof -
  have rl: "\<not> fst (rate_limit H req w)" for req
    using assms(1) by (simp add: rate_limit_def unthrottled_def case_prod_beta split: bool.split)
  then show "r \<noteq> None" using assms(2)
    by (auto simp: handle_chain_def split: sum.splits prod.splits bool.splits) (metis fst_conv)
  have "fst (process H d img req i m v) \<noteq> Throttled" for d img req i m v
    using assms(1)
    by (simp add: process_def Let_def process_engine_result_def executed_def split_beta unthrottled_def
        split: request_type.split engine_result.split)
  then show "r \<noteq> Some Throttled" using assms(2)
    by (auto simp: handle_chain_def split: sum.splits prod.splits bool.splits) (metis fst_conv)
qed

text \<open>
  One iteration on a chain: the loop ends with the chain put back, or goes on with the chain taken
  and at most one used entry for it.
\<close>

lemma chain_loop_head:
  assumes "queue_contract D view" "queue_framed H view" "q_pop D w = (Inr (Some head), w1)"
  obtains (stop) b' w' where "chain_loop H D used_any b w = Some (Ok used_any, b', w')"
      "qv_avail (view w') = qv_avail (view w)" "qv_used (view w') = qv_used (view w)"
      "\<not> unthrottled H D"
  | (go) u' b' w' entry where "chain_loop H D used_any b w = chain_loop H D u' b' w'"
      "qv_avail (view w) = head # qv_avail (view w')" "qv_used (view w') = qv_used (view w) @ entry"
      "entry = [] \<and> \<not> synchronous H D \<or> (\<exists>n. entry = [(d_index head, n)])"
proof -
  note v1 = pop_Some [OF assms(1,3)]
  define b1 where "b1 = b\<lparr>metrics := (metrics b)\<lparr>remaining_reqs_count :=
             remaining_reqs_count (metrics b) + q_len D w1\<rparr>\<rparr>"
  obtain r b2 w2 where h: "handle_chain H D head b1 w1 = (r, b2, w2)"
    by (cases "handle_chain H D head b1 w1")
  note unfold = chain_loop.simps [of H D used_any b w, unfolded assms(3) prod.case sum.case option.case
      Let_def b1_def [symmetric] h]
  note undone = undo_pop [OF assms(1), where h = head]
  have v2: "view w2 = view w1" if "r \<noteq> None" using handle_chain_view(2) [OF assms(2) h that] .
  note free = unthrottled_handle_chain [OF _ h]
  consider (limited) "r = None" | (submitted) "r = Some Submitted" | (throttled) "r = Some Throttled"
    | (complete) f where "r = Some (Executed f)"
    by (cases r; cases "the r") auto
  then show ?thesis
  proof cases
    case limited
    then obtain v where "w2 = q_undo_pop D v" "view v = view w1"
      using handle_chain_view(1) [OF assms(2) h] by blast
    with undone [of v] v1 limited unfold stop free(1) show ?thesis by auto
  next
    case submitted
    have "\<not> synchronous H D" using synchronous_handle_chain [of H D head b1 w1] h submitted by auto
    with submitted unfold v1 v2 go [of used_any b2 w2 "[]"] show ?thesis by simp
  next
    case throttled
    with undone [of w2] v1 v2 unfold stop free(2) show ?thesis by auto
  next
    case complete
    obtain ok w3 where u: "q_add_used D (d_index head) (num_bytes_to_mem f) w2 = (ok, w3)"
      by (cases "q_add_used D (d_index head) (num_bytes_to_mem f) w2")
    have "ok \<or> \<not> synchronous H D" using u by (metis fst_conv synchronous_def)
    with complete u unfold v1 v2 add_used [OF assms(1) u]
      go [of True b2 w3 "if ok then [(d_index head, num_bytes_to_mem f)] else []"]
    show ?thesis by (cases ok) simp_all
  qed
qed

lemma chain_loop_account:
  assumes "queue_contract D view" "queue_framed H view"
  shows "\<exists>res b' w'. chain_loop H D used_any b w = Some (res, b', w') \<and>
    queue_account (synchronous H D) (view w) (view w') \<and>
    (unthrottled H D \<longrightarrow> is_ok res \<and> qv_avail (view w') = [])"
proof (induction "length (qv_avail (view w))" arbitrary: used_any b w rule: less_induct)
  case less
  obtain x w1 where p: "q_pop D w = (x, w1)" by (cases "q_pop D w")
  consider (err) e where "x = Inl e" | (none) "x = Inr None" | (some) head where "x = Inr (Some head)"
    by (cases x; cases "projr x") auto
  then show ?case
  proof cases
    case err
    with p have "\<not> unthrottled H D" by (auto simp: unthrottled_def)
    with err pop_Err [OF assms(1), of w e w1] p show ?thesis
      by (subst chain_loop.simps) (simp add: queue_account_refl)
  next
    case none
    with pop_None [OF assms(1), of w w1] p show ?thesis
      by (subst chain_loop.simps) (simp add: queue_account_refl)
  next
    case some
    from assms p [unfolded some] show ?thesis
    proof (cases rule: chain_loop_head [where used_any = used_any and b = b])
      case (stop b' w')
      then show ?thesis by (simp add: queue_account_refl)
    next
      case (go u' b' w' entry)
      then have "length (qv_avail (view w')) < length (qv_avail (view w))" by simp
      from less [OF this] go queue_account_step [OF go(2,3) _ go(4)] show ?thesis by metis
    qed
  qed
qed

text \<open>Frame of the operations that follow the loop.\<close>

definition kick_framed :: "('w, 'rl, 'u) dev_host \<Rightarrow> ('w \<Rightarrow> 'v) \<Rightarrow> bool" where
  "kick_framed D view =
     ((\<forall>w. view (q_advance_used_ring_idx D w) = view w) \<and> (\<forall>w. view (snd (q_prepare_kick D w)) = view w) \<and>
      (\<forall>w. view (snd (i_trigger_queue D w)) = view w) \<and> (\<forall>w. view (e_kick_submission_queue D w) = view w))"

lemma finish_queue_framed: "kick_framed D view \<Longrightarrow> view (snd (finish_queue D u b w)) = view w"
  by (simp add: kick_framed_def finish_queue_def kick_guest_def Let_def case_prod_beta split: bool.split)

section \<open>Properties\<close>


text \<open>
  a request that the engine throttles is charged for nothing. The chain goes back to the queue
  for a later attempt, but, unlike when the limiter refuses it, the operation and the bytes it
  consumed are not given back: every further attempt is charged again.
\<close>

theorem throttled_request_charged:
  assumes "engine_framed H budget" "handle_chain H D head b w = (Some Throttled, b', w')"
  shows "\<exists>req w1. parse H head (nsectors (disk b)) w = Ok req \<and> rate_limit H req w = (False, w1) \<and>
    budget w' = budget w1"
proof -
  from assms(2) obtain req where req: "parse H head (nsectors (disk b)) w = Ok req"
    by (auto simp: handle_chain_def split: sum.splits)
  with assms(2) obtain w1 where w1: "rate_limit H req w = (False, w1)"
    by (auto simp: handle_chain_def split: prod.splits bool.splits)
  from req w1 assms(2) have "w' = snd (snd (process H (blk_id b) (image_id (disk b)) req (d_index head) (metrics b) w1))"
    by (auto simp: handle_chain_def split: prod.splits)
  with process_framed [OF assms(1)] req w1 show ?thesis by blast
qed

section \<open>A concrete queue\<close>

text \<open>
  A host on which everything succeeds and nothing is pending, except that the engine refuses to
  change its file; a queue held in a list; an engine that completes every request at once, or
  throttles.
\<close>

definition idle_dev :: "('w, unit, unit) dev_host" where
  "idle_dev =
     \<lparr> q_pop = (\<lambda>w. (Inr None, w)), q_undo_pop = (\<lambda>w. w), q_len = (\<lambda>w. 0),
       q_add_used = (\<lambda>i n w. (True, w)),
       q_advance_used_ring_idx = (\<lambda>w. w), q_prepare_kick = (\<lambda>w. (True, w)),
       q_initialize = (\<lambda>w. (Ok (), w)), q_enable_notif_suppression = (\<lambda>w. w),
       i_trigger_queue = (\<lambda>w. (True, w)), i_trigger_config = (\<lambda>w. (True, w)),
       ev_new = (\<lambda>w. (Ok (), w)), ev_queue_read = (\<lambda>w. (True, w)), ev_completion_read = (\<lambda>w. (True, w)),
       ev_activate_write = (\<lambda>w. (True, w)), rl_create = (\<lambda>_ w. (Ok (), w)), rl_config = (\<lambda>_. None),
       rl_is_blocked = (\<lambda>_. False), rl_event_handler = (\<lambda>w. (True, w)),
       rl_update_buckets = (\<lambda>_ _ w. w), f_open = (\<lambda>_ _ w. (Ok 3, w)), f_seek_end = (\<lambda>_ w. (Ok 4096, w)),
       f_metadata = (\<lambda>_ _. Ok (1, 0, 42)), e_from_file = (\<lambda>_ _ w. (Ok (), w)),
       e_update_file_path = (\<lambda>_ w. (Err ''busy'', w)), e_kick_submission_queue = (\<lambda>w. w),
       e_pop = (\<lambda>w. (Inr None, w)), e_drain = (\<lambda>_ w. w), e_drain_and_flush = (\<lambda>_ w. w) \<rparr>"

definition list_queue :: "(queue_view, unit, unit) dev_host" where
  "list_queue = idle_dev
     \<lparr> q_pop := \<lambda>w. (case qv_avail w of
                      [] \<Rightarrow> (Inr None, w)
                    | h # hs \<Rightarrow> (Inr (Some h), w\<lparr>qv_avail := hs, qv_popped := Some h\<rparr>)),
       q_undo_pop := \<lambda>w. w\<lparr>qv_avail := (case qv_popped w of None \<Rightarrow> [] | Some h \<Rightarrow> [h]) @ qv_avail w\<rparr>,
       q_len := \<lambda>w. length (qv_avail w),
       q_add_used := \<lambda>i n w. (True, w\<lparr>qv_used := qv_used w @ [(i, n)]\<rparr>) \<rparr>"

definition queue_guest :: "bool \<Rightarrow> 'w block_host" where
  "queue_guest busy =
     (let eng = (\<lambda>n p w. (if busy then EngineErr ''full'' p else EngineExecuted n p, w)) in
      \<lparr> g_read_header = (\<lambda>a w. Ok \<lparr>h_request_type = VIRTIO_BLK_T_IN, h_reserved = 0, h_sector = 3\<rparr>),
        g_write_status = (\<lambda>v a w. (Ok (), w)), g_write_slice = (\<lambda>_ _ w. (Ok (), w)),
        rl_consume = (\<lambda>n t w. (True, w)), rl_replenish = (\<lambda>_ _ w. w),
        e_read = (\<lambda>_ _. eng), e_write = (\<lambda>_ _. eng), e_flush = eng 0,
        e_is_throttling_err = (\<lambda>_. busy),
        t_var = (\<lambda>_ _. None), t_cell = (\<lambda>_. Some None), t_set_cell = (\<lambda>_ w. w),
        t_now = (\<lambda>w. (None, w)), t_append = (\<lambda>_ _ w. w) \<rparr>)"

definition demo_block :: virtio_block where
  "demo_block =
     \<lparr>avail_features = 0, acked_features = 0, capacity = 8, activated = True, blk_id = ''d'', partuuid = None,
      cache_kind = Unsafe, root_device = False, read_only = False,
      disk = \<lparr>file_path = ''f'', file_engine = Sync, nsectors = 8, image_id = replicate 20 0\<rparr>,
      is_io_engine_throttled = False, metrics = zero_metrics\<rparr>"

lemma list_queue_contract: "queue_contract list_queue id"
  by (auto simp: queue_contract_def list_queue_def idle_dev_def split: list.splits)

lemma queue_guest_framed: "queue_framed (queue_guest busy) view" "kick_framed idle_dev view'"
    "kick_framed list_queue view''"
  by (simp_all add: queue_framed_def engine_framed_def kick_framed_def queue_guest_def list_queue_def idle_dev_def Let_def)


theorem throttled_request_charged_witness:
  "\<exists>req w1. rate_limit (queue_guest True) req \<lparr>qv_avail = [], qv_used = [], qv_popped = None\<rparr> = (False, w1)"
proof -
  let ?w = "\<lparr>qv_avail = [], qv_used = [], qv_popped = None\<rparr>"
  have p: "parse (queue_guest True) (request_chain 0x1000 1024) 8 ?w = Ok demo_read"
    by (simp add: parse_def queue_guest_def request_chain_def status_chain_def request_type_from_def virtio_defs
        parse_descs_def check_data_desc_def check_validity_def check_status_desc_def demo_read_def
        checked_add_def Let_def)
  obtain b' w' where h: "handle_chain (queue_guest True) list_queue (request_chain 0x1000 1024) demo_block ?w =
      (Some Throttled, b', w')"
    using p by (simp add: handle_chain_def demo_block_def rate_limit_def queue_guest_def demo_read_def process_def
        submit_def trace_record_def trace_config_def process_engine_result_def Let_def)
  have "engine_framed (queue_guest True) qv_used"
    using queue_guest_framed(1) unfolding queue_framed_def by blast
  from throttled_request_charged [OF this h] show ?thesis by blast
qed

end
