(* ===== verification/Block_Device_Props.thy ===== *)
theory Block_Device_Props
  imports Block_Queue_Props
begin

text \<open>
  Properties of the block device around its queue: completions, the configuration and the
  configuration space, the backing file, and what no event of the device changes.
\<close>

section \<open>Completions\<close>

text \<open>
  The contract of the completion queue of the engine: completions are popped in order, the rest of
  the host does not touch them.
\<close>

definition completion_contract ::
  "'w block_host \<Rightarrow> ('w, 'rl, 'u) dev_host \<Rightarrow> ('w \<Rightarrow> (pending_request \<times> (string + u32)) list) \<Rightarrow>
     ('w \<Rightarrow> (u16 \<times> u32) list) \<Rightarrow> bool" where
  "completion_contract H D comps used =
     ((\<forall>w c w'. e_pop D w = (Inr (Some c), w') \<longrightarrow> comps w = c # comps w' \<and> used w' = used w) \<and>
      (\<forall>w w'. e_pop D w = (Inr None, w') \<longrightarrow> comps w = [] \<and> comps w' = [] \<and> used w' = used w) \<and>
      (\<forall>w e w'. e_pop D w \<noteq> (Inl e, w')) \<and>
      (\<forall>i n w. fst (q_add_used D i n w) \<and> comps (snd (q_add_used D i n w)) = comps w \<and>
                used (snd (q_add_used D i n w)) = used w @ [(i, n)]) \<and>
      engine_framed H comps \<and> engine_framed H used \<and> kick_framed D comps \<and> kick_framed D used)"

lemma completion_contract_facts:
  assumes "completion_contract H D comps used"
  shows comp_Some: "e_pop D w = (Inr (Some c), w') \<Longrightarrow> comps w = c # comps w' \<and> used w' = used w"
    and comp_None: "e_pop D w = (Inr None, w') \<Longrightarrow> comps w = [] \<and> comps w' = [] \<and> used w' = used w"
    and comp_no_Err: "e_pop D w \<noteq> (Inl e, w')"
    and comp_add: "comps (snd (q_add_used D i n w)) = comps w \<and> used (snd (q_add_used D i n w)) = used w @ [(i, n)]"
    and comp_frames: "engine_framed H comps" "engine_framed H used" "kick_framed D comps" "kick_framed D used"
  using assms unfolding completion_contract_def by blast+

lemma finish_desc_idx: "finish H p res m w = (f, m', w') \<Longrightarrow> f_desc_idx f = p_desc_idx p"
  by (auto simp: finish_def write_status_and_finish_def Let_def split: prod.splits)

lemma completion_loop_answers:
  assumes "completion_contract H D comps used"
  shows "\<exists>b' w' new. completion_loop H D b w = Some (b', w') \<and> comps w' = [] \<and> used w' = used w @ new \<and>
    map fst new = map (p_desc_idx \<circ> fst) (comps w)"
proof (induction "length (comps w)" arbitrary: b w rule: less_induct)
  case less
  note laws = completion_contract_facts [OF assms]
  obtain x w1 where p: "e_pop D w = (x, w1)" by (cases "e_pop D w")
  show ?case
  proof (cases x)
    case (Inl e)
    with laws(3) p show ?thesis by blast
  next
    case (Inr y)
    show ?thesis
    proof (cases y)
      case None
      with Inr p laws(2) [of w w1] show ?thesis by (subst completion_loop.simps) simp
    next
      case (Some c)
      obtain pend res where c: "c = (pend, res)" by (cases c)
      have w1: "comps w = c # comps w1" "used w1 = used w" using laws(1) [of w c w1] p Inr Some by simp_all
      obtain f m w2 where f: "finish H pend (map_err FileEngineIo res) (metrics b) w1 = (f, m, w2)"
        by (cases "finish H pend (map_err FileEngineIo res) (metrics b) w1")
      have w2: "comps w2 = comps w1" "used w2 = used w1"
        using finish_framed [OF laws(5), of pend "map_err FileEngineIo res" "metrics b" w1]
          finish_framed [OF laws(6), of pend "map_err FileEngineIo res" "metrics b" w1] f by simp_all
      define w3 where "w3 = snd (q_add_used D (f_desc_idx f) (num_bytes_to_mem f) w2)"
      have w3: "comps w3 = comps w1" "used w3 = used w @ [(p_desc_idx pend, num_bytes_to_mem f)]"
        using laws(4) w1 w2 finish_desc_idx [OF f] by (simp_all add: w3_def)
      have "length (comps w3) < length (comps w)" using w1 w3 by simp
      from less [OF this, of "b\<lparr>metrics := m\<rparr>"] obtain b' w' new
        where ih: "completion_loop H D (b\<lparr>metrics := m\<rparr>) w3 = Some (b', w')" "comps w' = []"
          "used w' = used w3 @ new" "map fst new = map (p_desc_idx \<circ> fst) (comps w3)" by blast
      have "completion_loop H D b w = Some (b', w')"
        using p Inr Some c f ih(1) by (subst completion_loop.simps) (simp add: w3_def)
      with ih(2-4) w1 w3 c show ?thesis
        by (intro exI [of _ b'] exI [of _ w'] exI [of _ "(p_desc_idx pend, num_bytes_to_mem f) # new"]) simp
    qed
  qed
qed

lemma kick_guest_framed: "kick_framed D view \<Longrightarrow> view (snd (kick_guest D b w)) = view w"
  by (simp add: kick_framed_def kick_guest_def case_prod_beta split: bool.split)

text \<open>
  every completion is answered. For an active asynchronous device the processing of completions
  returns with none left, and each has one used entry that carries the descriptor index of the
  request it completes, in the order of completion.
\<close>

theorem completions_answered:
  assumes "completion_contract H D comps used" "activated b" "file_engine (disk b) = Async"
  shows "\<exists>b' w' new. process_async_completion_queue H D b w = Some (Some (), b', w') \<and> comps w' = [] \<and>
    used w' = used w @ new \<and> map fst new = map (p_desc_idx \<circ> fst) (comps w)"
proof -
  note laws = completion_contract_facts [OF assms(1)]
  obtain b1 w1 new where l: "completion_loop H D b w = Some (b1, w1)" "comps w1 = []" "used w1 = used w @ new"
    "map fst new = map (p_desc_idx \<circ> fst) (comps w)"
    using completion_loop_answers [OF assms(1)] by blast
  obtain b2 w2 where k: "kick_guest D b1 (q_advance_used_ring_idx D w1) = (b2, w2)"
    by (cases "kick_guest D b1 (q_advance_used_ring_idx D w1)")
  have "comps w2 = comps w1" "used w2 = used w1"
    using kick_guest_framed [OF laws(7), of b1 "q_advance_used_ring_idx D w1"]
      kick_guest_framed [OF laws(8), of b1 "q_advance_used_ring_idx D w1"] laws(7,8) k
    by (simp_all add: kick_framed_def)
  with l k assms(2,3) show ?thesis by (simp add: process_async_completion_queue_def)
qed

section \<open>Configuration\<close>

text \<open>
  configurations survive their conversions. A device configuration converted to the general form
  and back is unchanged, general configurations with a socket or without a path are refused,
  and a device that was created from a configuration reports that configuration, provided the
  limiter does so for its part.
\<close>

theorem block_config_roundtrip:
  "try_from_config (from_virtio_config c) = Ok c \<and>
   (bc_socket g \<noteq> None \<or> bc_path_on_host g = None \<longrightarrow> try_from_config g = Err Config) \<and>
   (new_block D c w = (Ok b, w') \<and> rl_config D w' = vc_rate_limiter c \<longrightarrow> config D b w' = c)"
proof -
  have "try_from_config (from_virtio_config c) = Ok c"
    by (simp add: try_from_config_def from_virtio_config_def)
  moreover have "bc_socket g \<noteq> None \<or> bc_path_on_host g = None \<longrightarrow> try_from_config g = Err Config"
    by (auto simp: try_from_config_def split: option.split)
  moreover have "config D b w' = c" if n: "new_block D c w = (Ok b, w')" and r: "rl_config D w' = vc_rate_limiter c"
  proof -
    from n obtain d w1 where d: "new_disk D (vc_path_on_host c) (vc_is_read_only c) (vc_file_engine_type c) w = (Ok d, w1)"
      and b: "blk_id b = vc_drive_id c" "partuuid b = vc_partuuid c" "cache_kind b = vc_cache_type c"
        "root_device b = vc_is_root_device c" "read_only b = vc_is_read_only c" "disk b = d"
      by (auto simp: new_block_def split: prod.splits sum.splits)
    from d have "file_path d = vc_path_on_host c" "file_engine d = vc_file_engine_type c"
      by (auto simp: new_disk_def Let_def split: prod.splits sum.splits)
    with b r show ?thesis by (simp add: config_def file_engine_type_of_def)
  qed
  ultimately show ?thesis by blast
qed

section \<open>The configuration space\<close>

lemma length_le_bytes [simp]: "length (le_bytes n c) = n"
  by (induction n arbitrary: c) auto

lemma of_le_le_bytes: "of_le_bytes (le_bytes n c) = take_bit (8 * n) c"
proof (induction n arbitrary: c)
  case (Suc n)
  have "(ucast (ucast c :: u8) OR push_bit 8 (take_bit (8 * n) (drop_bit 8 c)) :: u64) = take_bit (8 * Suc n) c"
    by (rule bit_word_eqI) (auto simp: bit_simps)
  with Suc show ?case by simp
qed simp

lemma bit_of_le_bytes: "bit (of_le_bytes xs) i \<Longrightarrow> i < 8 * length xs"
proof (induction xs arbitrary: i)
  case (Cons x xs)
  then show ?case by (fastforce simp: bit_simps dest: bit_imp_le_length)
qed simp

lemma le_of_le_bytes: "length xs \<le> 8 \<Longrightarrow> le_bytes (length xs) (of_le_bytes xs) = xs"
proof (induction xs)
  case (Cons x xs)
  have "(ucast (ucast x OR push_bit 8 (of_le_bytes xs) :: u64) :: u8) = x"
    by (rule bit_word_eqI) (auto simp: bit_simps)
  moreover have "drop_bit 8 (ucast x OR push_bit 8 (of_le_bytes xs) :: u64) = of_le_bytes xs"
  proof (rule bit_word_eqI)
    fix i
    assume "i < LENGTH(64)"
    have "\<not> bit (ucast x :: u64) (8 + i)" by (auto simp: bit_simps dest: bit_imp_le_length)
    moreover have "bit (of_le_bytes xs) i \<Longrightarrow> 8 + i < 64" using bit_of_le_bytes [of xs i] Cons.prems by auto
    ultimately show "bit (drop_bit 8 (ucast x OR push_bit 8 (of_le_bytes xs) :: u64)) i = bit (of_le_bytes xs) i"
      by (auto simp: bit_simps)
  qed
  ultimately show ?case using Cons by simp
qed simp

text \<open>
  the configuration space is the capacity, and writing it cannot move the end of the disk. Reading
  eight bytes gives the capacity in little-endian order; bytes written within the space are read
  back from it; a write that does not fit changes nothing but a metric; and no write changes the
  number of sectors against which requests are checked.
\<close>

theorem config_space_roundtrip:
  "of_le_bytes (fst (read_config 0 (replicate 8 z) b)) = capacity b \<and>
   (unat off + length data \<le> 8 \<longrightarrow>
      fst (read_config off (replicate (length data) z) (write_config off data b)) = data) \<and>
   (8 < unat off + length data \<longrightarrow> write_config off data b = cfg_fail b) \<and>
   disk (write_config off data b) = disk b"
proof -
  let ?cs = "le_bytes 8 (capacity b)"
  let ?new = "take (unat off) ?cs @ data @ drop (unat off + length data) ?cs"
  have 1: "of_le_bytes (fst (read_config 0 (replicate 8 z) b)) = capacity b"
    by (simp add: read_config_def config_space_bytes_def of_le_le_bytes take_bit_word_eq_self Let_def)
  have 2: "fst (read_config off (replicate (length data) z) (write_config off data b)) = data"
    if le: "unat off + length data \<le> 8"
  proof -
    have "length ?new = 8" using le by simp
    with le_of_le_bytes [of ?new] have "le_bytes 8 (of_le_bytes ?new) = ?new" by simp
    moreover have "unat off + length data \<le> u64_max" using le by (simp add: u64_max_def)
    moreover have "min 8 (unat off) = unat off" using le by simp
    ultimately show ?thesis using le
      by (simp add: read_config_def write_config_def config_space_bytes_def Let_def)
  qed
  have 3: "write_config off data b = cfg_fail b" if "8 < unat off + length data"
    using that by (simp add: write_config_def config_space_bytes_def Let_def)
  have 4: "disk (write_config off data b) = disk b" by (simp add: write_config_def cfg_fail_def Let_def)
  from 1 2 3 4 show ?thesis by blast
qed

section \<open>The backing file\<close>

lemma length_disk_image_id [simp]: "length (build_disk_image_id D f w) = 20"
  by (simp add: build_disk_image_id_def VIRTIO_BLK_ID_BYTES_def Let_def split: sum.split)

text \<open>
  replacing the backing file is not atomic. Once the new file has been opened and measured, a
  successful update installs its path, size, capacity and identifier. When the engine refuses
  the file, path, size and capacity are kept, but the identifier is already the one of the file
  that is not used.
\<close>

theorem update_disk_image_outcome:
  assumes "f_open D path (\<not> read_only b) w = (Ok f, w1)" "f_seek_end D f w1 = (Ok n, w2)"
    and "e_update_file_path D f w2 = (u, w3)" "update_disk_image D path b w = (Some r, b', w')"
  shows "image_id (disk b') = build_disk_image_id D f w2 \<and>
    (case u of
       Inr _ \<Rightarrow> r = Ok () \<and> file_path (disk b') = path \<and> nsectors (disk b') = drop_bit SECTOR_SHIFT n \<and>
                capacity b' = nsectors (disk b')
     | Inl e \<Rightarrow> r = Err (FileEngineError e) \<and> file_path (disk b') = file_path (disk b) \<and>
                nsectors (disk b') = nsectors (disk b) \<and> capacity b' = capacity b)"
  using assms
  by (auto simp: update_disk_image_def update_disk_def open_file_def file_size_def Let_def
      split: prod.splits sum.splits if_splits bool.splits)

section \<open>What no event changes\<close>

text \<open>The device as a machine: its events, with panics and loops that do not return as stuck states.\<close>

datatype block_event =
    QueueEvent
  | RateLimiterEvent
  | CompletionEvent
  | UpdateDisk string
  | Activate
  | SetFeatures u64
  | ReadConfig u64 "u8 list"
  | WriteConfig u64 "u8 list"
  | PrepareSave

fun completed :: "(unit option \<times> virtio_block \<times> 'w) option \<Rightarrow> (virtio_block \<times> 'w) option" where
  "completed (Some (Some _, b, w)) = Some (b, w)"
| "completed _ = None"

fun block_step ::
  "'w block_host \<Rightarrow> ('w, 'rl, 'u) dev_host \<Rightarrow> block_event \<Rightarrow> virtio_block \<times> 'w \<Rightarrow> (virtio_block \<times> 'w) option" where
  "block_step H D QueueEvent (b, w) = completed (process_queue_event H D b w)"
| "block_step H D RateLimiterEvent (b, w) = completed (process_rate_limiter_event H D b w)"
| "block_step H D CompletionEvent (b, w) = completed (process_async_completion_event H D b w)"
| "block_step H D (UpdateDisk path) (b, w) =
     (case update_disk_image D path b w of
        (None, _) \<Rightarrow> None
      | (Some _, b', w') \<Rightarrow> Some (b', w'))"
| "block_step H D Activate (b, w) = (case activate D b w of (_, b', w') \<Rightarrow> Some (b', w'))"
| "block_step H D (SetFeatures f) (b, w) = Some (set_acked_features f b, w)"
| "block_step H D (ReadConfig off data) (b, w) = Some (snd (read_config off data b), w)"
| "block_step H D (WriteConfig off data) (b, w) = Some (write_config off data b, w)"
| "block_step H D PrepareSave (b, w) = completed (prepare_save H D b w)"

text \<open>The parts of the device that its request processing does not touch.\<close>

definition core :: "virtio_block \<Rightarrow> virtio_block" where
  "core b = b\<lparr>metrics := zero_metrics, is_io_engine_throttled := False\<rparr>"

lemma core_simps [simp]:
  "core (b\<lparr>metrics := m\<rparr>) = core b" "core (b\<lparr>is_io_engine_throttled := t\<rparr>) = core b"
  by (simp_all add: core_def)

lemma core_handle_chain: "handle_chain H D head b w = (r, b', w') \<Longrightarrow> core b' = core b"
  by (auto simp: handle_chain_def split: sum.splits prod.splits bool.splits)

lemma core_chain_loop:
  assumes "chain_loop H D u b w = Some (res, b', w')"
  shows "core b' = core b"
proof -
  have "core (fst (snd r)) = core b" if "chain_loop H D u b w = Some r" for u b w r
    using that
  proof (induction rule: chain_loop.raw_induct [rotated, consumes 1, case_names step])
    case (step loop H D u b w r)
    from step(2) step(1) show ?case
      by (auto simp: Let_def split: sum.splits prod.splits option.splits processing_result.splits
          dest!: core_handle_chain)
  qed
  from this [OF assms] show ?thesis by simp
qed

lemma core_completion_loop:
  assumes "completion_loop H D b w = Some (b', w')"
  shows "core b' = core b"
proof -
  have "core (fst r) = core b" if "completion_loop H D b w = Some r" for b w r
    using that
  proof (induction rule: completion_loop.raw_induct [rotated, consumes 1, case_names step])
    case (step loop H D b w r)
    from step(2) step(1) show ?case by (auto split: sum.splits prod.splits option.splits)
  qed
  from this [OF assms] show ?thesis by simp
qed

lemma core_kick_guest: "kick_guest D b w = (b', w') \<Longrightarrow> core b' = core b"
  by (auto simp: kick_guest_def split: prod.splits bool.splits if_splits)

lemma core_finish_queue: "finish_queue D u b w = (b', w') \<Longrightarrow> core b' = core b"
  by (auto simp: finish_queue_def Let_def split: prod.splits if_splits dest!: core_kick_guest)

lemma core_process_queue: "process_queue H D b w = Some (r, b', w') \<Longrightarrow> core b' = core b"
  by (auto simp: process_queue_def split: if_splits option.splits sum.splits prod.splits
      dest!: core_chain_loop core_finish_queue)

lemma core_unwrap_queue:
  "unwrap_queue (process_queue H D b w) = Some (r, b', w') \<Longrightarrow> core b' = core b"
  by (cases "process_queue H D b w" rule: unwrap_queue.cases) (auto dest: core_process_queue)

lemma core_completion_queue: "process_async_completion_queue H D b w = Some (r, b', w') \<Longrightarrow> core b' = core b"
  by (auto simp: process_async_completion_queue_def split: if_splits option.splits prod.splits
      dest!: core_completion_loop core_kick_guest)

lemma core_events:
  "process_queue_event H D b w = Some (r, b', w') \<Longrightarrow> core b' = core b"
  "process_rate_limiter_event H D b w = Some (r, b', w') \<Longrightarrow> core b' = core b"
  "process_async_completion_event H D b w = Some (r, b', w') \<Longrightarrow> core b' = core b"
  "prepare_save H D b w = Some (r, b', w') \<Longrightarrow> core b' = core b"
  by (auto simp: process_queue_event_def process_virtio_queues_def process_rate_limiter_event_def
      process_async_completion_event_def prepare_save_def Let_def
      split: prod.splits bool.splits if_splits option.splits
      dest!: core_unwrap_queue core_completion_queue)

text \<open>
  The identity of a device: what it was created with, and an identifier of 20 bytes, which is what is
  copied into the buffer of an identification request.
\<close>

definition same_device :: "virtio_block \<Rightarrow> virtio_block \<Rightarrow> bool" where
  "same_device b0 b =
     (blk_id b = blk_id b0 \<and> partuuid b = partuuid b0 \<and> cache_kind b = cache_kind b0 \<and>
      root_device b = root_device b0 \<and> read_only b = read_only b0 \<and> avail_features b = avail_features b0 \<and>
      file_engine (disk b) = file_engine (disk b0) \<and>
      (length (image_id (disk b0)) = 20 \<longrightarrow> length (image_id (disk b)) = 20))"

lemma same_device_core: "same_device b0 b \<Longrightarrow> core b' = core b \<Longrightarrow> same_device b0 b'"
proof -
  assume s: "same_device b0 b" and c: "core b' = core b"
  have "same_device b0 (core b)" using s by (simp add: same_device_def core_def)
  then have "same_device b0 (core b')" using c by simp
  then show ?thesis by (simp add: same_device_def core_def)
qed

lemma completed_Some: "completed x = Some (b, w) \<longleftrightarrow> (\<exists>u. x = Some (Some u, b, w))"
  by (cases x rule: completed.cases) auto

lemma update_disk_image_device:
  assumes "update_disk_image D path b w = (r, b', w')" "same_device b0 b"
  shows "same_device b0 b'"
  using assms
  by (auto simp: update_disk_image_def update_disk_def same_device_def Let_def
      split: prod.splits sum.splits if_splits bool.splits)

lemma activate_device: "activate D b w = (r, b', w') \<Longrightarrow> same_device b0 b \<Longrightarrow> same_device b0 b'"
  by (auto simp: activate_def same_device_def Let_def split: prod.splits sum.splits bool.splits)

lemma block_step_device:
  assumes "block_step H D ev (b, w) = Some (b', w')" "same_device b0 b"
  shows "same_device b0 b'"
proof (cases ev)
  case (UpdateDisk path)
  with assms update_disk_image_device show ?thesis by (auto split: prod.splits option.splits)
next
  case Activate
  with assms activate_device show ?thesis by (auto split: prod.splits)
next
  case (SetFeatures f)
  with assms show ?thesis by (auto simp: set_acked_features_def same_device_def)
next
  case (ReadConfig off data)
  with assms show ?thesis by (auto simp: read_config_def cfg_fail_def same_device_def Let_def split: if_splits)
next
  case (WriteConfig off data)
  with assms show ?thesis by (auto simp: write_config_def cfg_fail_def same_device_def Let_def split: if_splits)
qed (use assms in \<open>auto simp: completed_Some dest: core_events intro: same_device_core\<close>)

interpretation block_machine: machine_invariant "block_step H D" "(b0, w0)" "\<lambda>s. same_device b0 (fst s)"
  by unfold_locales (auto simp: same_device_def [of b0 b0] dest: block_step_device)


section \<open>A concrete device\<close>

text \<open>An engine with a list of completions; the world is this list and the used entries.\<close>

definition comp_dev :: "((pending_request \<times> (string + u32)) list \<times> (u16 \<times> u32) list, unit, unit) dev_host" where
  "comp_dev = idle_dev
     \<lparr> e_pop := \<lambda>w. (case fst w of [] \<Rightarrow> (Inr None, w) | c # cs \<Rightarrow> (Inr (Some c), (cs, snd w))),
       q_add_used := \<lambda>i n w. (True, (fst w, snd w @ [(i, n)])) \<rparr>"

definition demo_pending :: "u16 \<Rightarrow> pending_request" where
  "demo_pending i = \<lparr>p_type = In, p_data_len = 512, p_status_addr = 0x3000, p_desc_idx = i\<rparr>"

definition demo_config :: "unit virtio_block_config" where
  "demo_config =
     \<lparr>vc_drive_id = ''rootfs'', vc_partuuid = None, vc_is_root_device = True, vc_cache_type = Writeback,
      vc_is_read_only = True, vc_path_on_host = ''disk.img'', vc_rate_limiter = None, vc_file_engine_type = Sync\<rparr>"

lemma comp_dev_contract: "completion_contract (queue_guest False) comp_dev fst snd"
  using queue_guest_framed(1) [of False fst] queue_guest_framed(1) [of False snd] queue_guest_framed(2) [of fst]
    queue_guest_framed(2) [of snd]
  by (auto simp: completion_contract_def queue_framed_def kick_framed_def comp_dev_def idle_dev_def
      split: list.splits)

theorem completions_answered_witness:
  "\<exists>b' w'. process_async_completion_queue (queue_guest False) comp_dev
       (demo_block\<lparr>disk := (disk demo_block)\<lparr>file_engine := Async\<rparr>\<rparr>)
       ([(demo_pending 4, Ok 512), (demo_pending 1, Err ''io'')], []) = Some (Some (), b', w') \<and>
     map fst (snd w') = [4, 1]"
proof -
  have "activated (demo_block\<lparr>disk := (disk demo_block)\<lparr>file_engine := Async\<rparr>\<rparr>)" by (simp add: demo_block_def)
  from completions_answered [OF comp_dev_contract this,
      of "([(demo_pending 4, Ok 512), (demo_pending 1, Err ''io'')], [])"]
  show ?thesis by (auto simp: demo_pending_def)
qed

lemma demo_new_block: "\<exists>b. new_block idle_dev demo_config (0 :: nat) = (Ok b, 0)"
  by (simp add: new_block_def new_disk_def open_file_def file_size_def idle_dev_def demo_config_def Let_def)

theorem block_config_roundtrip_witness:
  "\<exists>b w. new_block idle_dev demo_config (0 :: nat) = (Ok b, w) \<and> config idle_dev b w = demo_config"
proof -
  obtain b where b: "new_block idle_dev demo_config (0 :: nat) = (Ok b, 0)" using demo_new_block by blast
  have "rl_config idle_dev (0 :: nat) = vc_rate_limiter demo_config" by (simp add: idle_dev_def demo_config_def)
  with b block_config_roundtrip [of demo_config undefined idle_dev 0 b 0] show ?thesis by blast
qed

theorem config_space_roundtrip_witness:
  "fst (read_config 6 [0, 0] (write_config 6 [7, 9] demo_block)) = [7, 9] \<and>
   write_config 7 [7, 9] demo_block = cfg_fail demo_block"
  using config_space_roundtrip [of 0 demo_block 6 "[7, 9]"] config_space_roundtrip [of 0 demo_block 7 "[7, 9]"]
  by simp

theorem update_disk_image_outcome_witness:
  "\<exists>r b' w'. update_disk_image idle_dev ''new.img'' demo_block (0 :: nat) = (Some r, b', w') \<and>
     file_path (disk b') = ''f'' \<and> image_id (disk b') = build_disk_image_id idle_dev 3 (0 :: nat)"
proof -
  have "\<exists>r b' w'. update_disk_image idle_dev ''new.img'' demo_block (0 :: nat) = (Some r, b', w')"
    by (simp add: update_disk_image_def update_disk_def open_file_def file_size_def idle_dev_def Let_def)
  then obtain r b' w' where u: "update_disk_image idle_dev ''new.img'' demo_block (0 :: nat) = (Some r, b', w')"
    by blast
  from update_disk_image_outcome [OF _ _ _ u, of 3 0 4096 0 "Err ''busy''" 0] u show ?thesis
    by (simp add: idle_dev_def) (auto simp: demo_block_def)
qed


end
