(* ===== verification/Block_Storage.thy ===== *)
theory Block_Storage
  imports Block_Device_Props
begin

text \<open>
  What the block device does to data. The abstract specification is a disk of bytes and the memory of
  the guest; a request moves bytes between them. With an engine that completes requests at once, the
  processing of the queue carries out the available requests one after the other: this is the refinement
  of the specification by device.rs and request.rs. Consequences are that a guest reaches no byte
  outside its disk, that the device writes to no memory the guest has not handed out for writing, and that a
  read returns what was written before.
\<close>

section \<open>Storage\<close>

text \<open>
  The memory is the one that a request may use for data, without the rings of the queue: an address
  outside it is not mapped.
\<close>

record storage =
  st_disk :: "nat \<Rightarrow> u8"
  st_mem :: "nat \<rightharpoonup> u8"

abbreviation span :: "nat \<Rightarrow> nat \<Rightarrow> nat set" where "span a n \<equiv> {a ..< a + n}"

definition store :: "u8 list \<Rightarrow> nat \<Rightarrow> storage \<Rightarrow> storage" where
  "store bs a s =
     s\<lparr>st_mem := \<lambda>x. if x \<in> span a (length bs) \<and> st_mem s x \<noteq> None then Some (bs ! (x - a)) else st_mem s x\<rparr>"

text \<open>Reading from the disk into memory and writing from memory to the disk.\<close>

definition load :: "nat \<Rightarrow> nat \<Rightarrow> nat \<Rightarrow> storage \<Rightarrow> storage" where
  "load off a n s = store (map (\<lambda>i. st_disk s (off + i)) [0..<n]) a s"

definition save :: "nat \<Rightarrow> nat \<Rightarrow> nat \<Rightarrow> storage \<Rightarrow> storage" where
  "save off a n s =
     s\<lparr>st_disk := \<lambda>x. if x \<in> span off n then (case st_mem s (a + (x - off)) of Some v \<Rightarrow> v | None \<Rightarrow> st_disk s x)
                      else st_disk s x\<rparr>"

text \<open>A transfer that fails may have moved some bytes, within its range only.\<close>

definition mem_touched :: "nat set \<Rightarrow> storage \<Rightarrow> storage \<Rightarrow> bool" where
  "mem_touched A s s' \<longleftrightarrow>
     st_disk s' = st_disk s \<and> dom (st_mem s') = dom (st_mem s) \<and> (\<forall>x. x \<notin> A \<longrightarrow> st_mem s' x = st_mem s x)"

definition disk_touched :: "nat set \<Rightarrow> storage \<Rightarrow> storage \<Rightarrow> bool" where
  "disk_touched A s s' \<longleftrightarrow> st_mem s' = st_mem s \<and> (\<forall>x. x \<notin> A \<longrightarrow> st_disk s' x = st_disk s x)"

text \<open>Bytes of unmapped memory are not known, so a write leaves them open.\<close>

definition written :: "nat \<Rightarrow> nat \<Rightarrow> nat \<Rightarrow> storage \<Rightarrow> storage \<Rightarrow> bool" where
  "written off a n s s' \<longleftrightarrow>
     disk_touched (span off n) s s' \<and> (\<forall>i < n. \<forall>v. st_mem s (a + i) = Some v \<longrightarrow> st_disk s' (off + i) = v)"

definition header_at :: "storage \<Rightarrow> u64 \<Rightarrow> request_header option" where
  "header_at s a =
     map_option
       (\<lambda>bs. \<lparr>h_request_type = ucast (of_le_bytes (take 4 bs)),
             h_reserved = ucast (of_le_bytes (take 4 (drop 4 bs))), h_sector = of_le_bytes (drop 8 bs)\<rparr>)
       (those (map (\<lambda>i. st_mem s (unat a + i)) [0..<16]))"

lemma store_touched: "mem_touched (span a (length bs)) s (store bs a s)"
  by (auto simp: mem_touched_def store_def dom_def)

lemma load_touched: "mem_touched (span a n) s (load off a n s)"
  using store_touched [of a "map (\<lambda>i. st_disk s (off + i)) [0..<n]" s] by (simp add: load_def)

lemma touched_refl [simp]: "mem_touched A s s" "disk_touched A s s"
  by (simp_all add: mem_touched_def disk_touched_def)

lemma header_at_dom: "dom (st_mem s) = dom (st_mem s') \<Longrightarrow> (header_at s a = None) = (header_at s' a = None)"
proof -
  assume d: "dom (st_mem s) = dom (st_mem s')"
  have "(those (map f xs) = None) = (\<exists>x \<in> set xs. f x = None)" for f :: "nat \<Rightarrow> u8 option" and xs
    by (induction xs) (auto split: option.splits)
  moreover have "(st_mem s x = None) = (st_mem s' x = None)" for x using d by (metis domIff)
  ultimately show ?thesis by (simp add: header_at_def)
qed

section \<open>The contract of the host\<close>

text \<open>
  What the synchronous engine, guest memory and the queue promise of the storage: a transfer is
  complete or fails within its range, a failed engine call is not a request to try again, and nothing else
  changes data. The guest leaves the buffers of available requests alone while the device processes them.
\<close>

definition memory_contract :: "'w block_host \<Rightarrow> ('w \<Rightarrow> storage) \<Rightarrow> bool" where
  "memory_contract H view \<longleftrightarrow>
     (\<forall>a w h. header_at (view w) a = Some h \<longrightarrow> g_read_header H a w = Ok h) \<and>
     (\<forall>v a w r w'. g_write_status H v a w = (r, w') \<longrightarrow>
        view w' = (if is_ok r then store [v] (unat a) (view w) else view w)) \<and>
     (\<forall>bs a w r w'. g_write_slice H bs a w = (r, w') \<longrightarrow>
        (if is_ok r then view w' = store bs (unat a) (view w)
         else mem_touched (span (unat a) (length bs)) (view w) (view w')))"

definition engine_contract :: "'w block_host \<Rightarrow> ('w \<Rightarrow> storage) \<Rightarrow> bool" where
  "engine_contract H view \<longleftrightarrow>
     (\<forall>e. \<not> e_is_throttling_err H e) \<and>
     (\<forall>off a n p w r w'. e_read H off a n p w = (r, w') \<longrightarrow>
        r = EngineExecuted n p \<and> view w' = load (unat off) (unat a) (unat n) (view w) \<or>
        (\<exists>e. r = EngineErr e p) \<and> mem_touched (span (unat a) (unat n)) (view w) (view w')) \<and>
     (\<forall>off a n p w r w'. e_write H off a n p w = (r, w') \<longrightarrow>
        r = EngineExecuted n p \<and> written (unat off) (unat a) (unat n) (view w) (view w') \<or>
        (\<exists>e. r = EngineErr e p) \<and> disk_touched (span (unat off) (unat n)) (view w) (view w')) \<and>
     (\<forall>p w r w'. e_flush H p w = (r, w') \<longrightarrow>
        (r = EngineExecuted 0 p \<or> (\<exists>e. r = EngineErr e p)) \<and> view w' = view w)"

definition data_framed :: "'w block_host \<Rightarrow> ('w, 'rl, 'u) dev_host \<Rightarrow> ('w \<Rightarrow> 'v) \<Rightarrow> bool" where
  "data_framed H D view \<longleftrightarrow>
     (\<forall>n t w. view (snd (rl_consume H n t w)) = view w) \<and> (\<forall>n t w. view (rl_replenish H n t w) = view w) \<and>
     (\<forall>c w. view (t_set_cell H c w) = view w) \<and> (\<forall>w. view (snd (t_now H w)) = view w) \<and>
     (\<forall>path line w. view (t_append H path line w) = view w) \<and>
     (\<forall>w. view (snd (q_pop D w)) = view w) \<and> (\<forall>w. view (q_undo_pop D w) = view w) \<and>
     (\<forall>i n w. view (snd (q_add_used D i n w)) = view w)"

definition storage_contract :: "'w block_host \<Rightarrow> ('w, 'rl, 'u) dev_host \<Rightarrow> ('w \<Rightarrow> storage) \<Rightarrow> bool" where
  "storage_contract H D view \<longleftrightarrow>
     memory_contract H view \<and> engine_contract H view \<and> data_framed H D view \<and> kick_framed D view"

section \<open>The specification\<close>

text \<open>A host that holds the storage itself; every operation succeeds.\<close>

definition ram_host :: "('w \<Rightarrow> storage) \<Rightarrow> ((storage \<Rightarrow> storage) \<Rightarrow> 'w \<Rightarrow> 'w) \<Rightarrow> 'w block_host" where
  "ram_host get upd =
     \<lparr> g_read_header = (\<lambda>a w. case header_at (get w) a of None \<Rightarrow> Err ''InvalidGuestAddress'' | Some h \<Rightarrow> Ok h),
       g_write_status = (\<lambda>v a w. (Ok (), upd (store [v] (unat a)) w)),
       g_write_slice = (\<lambda>bs a w. (Ok (), upd (store bs (unat a)) w)),
       rl_consume = (\<lambda>_ _ w. (True, w)), rl_replenish = (\<lambda>_ _ w. w),
       e_read = (\<lambda>off a n p w. (EngineExecuted n p, upd (load (unat off) (unat a) (unat n)) w)),
       e_write = (\<lambda>off a n p w. (EngineExecuted n p, upd (save (unat off) (unat a) (unat n)) w)),
       e_flush = (\<lambda>p w. (EngineExecuted 0 p, w)), e_is_throttling_err = (\<lambda>_. False),
       t_var = (\<lambda>_ _. None), t_cell = (\<lambda>_. Some None), t_set_cell = (\<lambda>_ w. w),
       t_now = (\<lambda>w. (None, w)), t_append = (\<lambda>_ _ w. w) \<rparr>"

definition parsed :: "storage \<Rightarrow> desc_chain \<Rightarrow> u64 \<Rightarrow> virtio_block_error + request" where
  "parsed s head n = parse (ram_host (\<lambda>s. s) (\<lambda>f. f)) head n s"

text \<open>The transfer of a request: whether it succeeds and the storage it leaves.\<close>

inductive transfer :: "u8 list \<Rightarrow> request \<Rightarrow> storage \<Rightarrow> bool \<Rightarrow> storage \<Rightarrow> bool" for img req s where
  read_done: "rq_type req = In \<Longrightarrow>
    transfer img req s True (load (unat (offset req)) (unat (rq_data_addr req)) (unat (rq_data_len req)) s)"
| read_failed: "rq_type req = In \<Longrightarrow> mem_touched (span (unat (rq_data_addr req)) (unat (rq_data_len req))) s s' \<Longrightarrow>
    transfer img req s False s'"
| write_done: "rq_type req = Out \<Longrightarrow>
    written (unat (offset req)) (unat (rq_data_addr req)) (unat (rq_data_len req)) s s' \<Longrightarrow>
    transfer img req s True s'"
| write_failed: "rq_type req = Out \<Longrightarrow> disk_touched (span (unat (offset req)) (unat (rq_data_len req))) s s' \<Longrightarrow>
    transfer img req s False s'"
| flushed: "rq_type req = Flush \<Longrightarrow> transfer img req s ok s"
| id_done: "rq_type req = GetDeviceID \<Longrightarrow> transfer img req s True (store img (unat (rq_data_addr req)) s)"
| id_failed: "rq_type req = GetDeviceID \<Longrightarrow> mem_touched (span (unat (rq_data_addr req)) (length img)) s s' \<Longrightarrow>
    transfer img req s False s'"
| unsupported: "rq_type req = Unsupported op \<Longrightarrow> transfer img req s True s"

text \<open>The status byte and the number of bytes reported.\<close>

fun answer :: "request_type \<Rightarrow> u32 \<Rightarrow> bool \<Rightarrow> u8 \<times> u32" where
  "answer (Unsupported op) len ok = (VIRTIO_BLK_S_UNSUPP, 1)"
| "answer t len False = (VIRTIO_BLK_S_IOERR, 1)"
| "answer In len True = (VIRTIO_BLK_S_OK, len + 1)"
| "answer GetDeviceID len True = (if len = 20 then VIRTIO_BLK_S_OK else VIRTIO_BLK_S_IOERR, 21)"
| "answer t len True = (VIRTIO_BLK_S_OK, 1)"

definition serve_request :: "u8 list \<Rightarrow> request \<Rightarrow> storage \<Rightarrow> u32 \<Rightarrow> storage \<Rightarrow> bool" where
  "serve_request img req s n s' \<longleftrightarrow>
     (\<exists>ok s1. transfer img req s ok s1 \<and>
        (n = snd (answer (rq_type req) (rq_data_len req) ok) \<and>
         s' = store [fst (answer (rq_type req) (rq_data_len req) ok)] (unat (rq_status_addr req)) s1 \<or>
         n = 0 \<and> s' = s1))"

definition serve_chain :: "u8 list \<Rightarrow> u64 \<Rightarrow> desc_chain \<Rightarrow> storage \<Rightarrow> u32 \<Rightarrow> storage \<Rightarrow> bool" where
  "serve_chain img sectors head s n s' =
     (case parsed s head sectors of
        Inl _ \<Rightarrow> n = 0 \<and> s' = s
      | Inr req \<Rightarrow> serve_request img req s n s')"

text \<open>Chains served one after the other, with the entries of the used ring.\<close>

inductive served :: "u8 list \<Rightarrow> u64 \<Rightarrow> storage \<Rightarrow> desc_chain list \<Rightarrow> (u16 \<times> u32) list \<Rightarrow> storage \<Rightarrow> bool"
  for img sectors where
  served_none: "served img sectors s [] [] s"
| served_chain: "serve_chain img sectors head s n s1 \<Longrightarrow> served img sectors s1 heads es s' \<Longrightarrow>
    served img sectors s (head # heads) ((d_index head, n) # es) s'"

inductive_cases served_NilE: "served img sectors s [] es s'"
inductive_cases served_ConsE: "served img sectors s (h # hs) es s'"

section \<open>Refinement\<close>

lemma parse_parsed:
  assumes "memory_contract H view" "header_at (view w) (d_addr head) \<noteq> None"
  shows "parse H head n w = parsed (view w) head n"
proof -
  obtain h where h: "header_at (view w) (d_addr head) = Some h" using assms(2) by blast
  then have "g_read_header H (d_addr head) w = Ok h" using assms(1) by (auto simp: memory_contract_def)
  with h show ?thesis by (simp add: parsed_def parse_def ram_host_def)
qed

lemma answer_reply:
  assumes "status_reply (completion_status res t len) = (k, code, bad)"
    and "if ok then res = Ok (if t = Flush \<or> (\<exists>op. t = Unsupported op) then 0
           else if t = GetDeviceID then VIRTIO_BLK_ID_BYTES else len) else \<not> is_ok res"
  shows "answer t len ok = (code, k + 1)"
  using assms
  by (cases t; cases ok; cases res) (auto simp: status_reply_def status_from_data_def virtio_defs split: if_splits)

lemma finish_serves:
  assumes "memory_contract H view" "transfer img req s ok (view w)"
    and "finish H (to_pending_request req i) res m w = (f, m', w')"
    and "if ok then res = Ok (if rq_type req = Flush \<or> (\<exists>op. rq_type req = Unsupported op) then 0
           else if rq_type req = GetDeviceID then VIRTIO_BLK_ID_BYTES else rq_data_len req) else \<not> is_ok res"
  shows "serve_request img req s (num_bytes_to_mem f) (view w')"
proof -
  obtain k code bad where r: "status_reply (completion_status res (rq_type req) (rq_data_len req)) = (k, code, bad)"
    by (cases "status_reply (completion_status res (rq_type req) (rq_data_len req))")
  obtain x where x: "g_write_status H code (rq_status_addr req) w = (x, w')"
    and f: "num_bytes_to_mem f = (case x of Inr _ \<Rightarrow> k + 1 | Inl _ \<Rightarrow> 0)"
    using assms(3) r by (auto simp: finish_def write_status_and_finish_def Let_def to_pending_request_def split: prod.splits)
  have "view w' = (if is_ok x then store [code] (unat (rq_status_addr req)) (view w) else view w)"
    using assms(1) x unfolding memory_contract_def by blast
  moreover have "answer (rq_type req) (rq_data_len req) ok = (code, k + 1)"
    using answer_reply r assms(4) by blast
  ultimately show ?thesis unfolding serve_request_def using assms(2) f
    by (intro exI [of _ ok] exI [of _ "view w"]) (cases x, auto)
qed

lemma executed_serves:
  assumes "memory_contract H view" "transfer img req s ok (view w)"
    and "executed (finish H (to_pending_request req i) res m w) = (r, m', w')"
    and "if ok then res = Ok (if rq_type req = Flush \<or> (\<exists>op. rq_type req = Unsupported op) then 0
           else if rq_type req = GetDeviceID then VIRTIO_BLK_ID_BYTES else rq_data_len req) else \<not> is_ok res"
  shows "\<exists>f. r = Executed f \<and> serve_request img req s (num_bytes_to_mem f) (view w')"
proof -
  obtain f where "finish H (to_pending_request req i) res m w = (f, m', w')" "r = Executed f"
    using assms(3) by (auto simp: executed_def split: prod.splits)
  with finish_serves [OF assms(1,2) _ assms(4)] show ?thesis by blast
qed

lemma trace_record_data: "data_framed H D view \<Longrightarrow> view (trace_record H d oper off len w) = view w"
  by (simp add: data_framed_def trace_record_def trace_config_def Let_def split_beta split: option.split)

lemma engine_contract_facts:
  assumes "engine_contract H view"
  shows engine_read: "e_read H off a n p w = (r, w') \<Longrightarrow>
      r = EngineExecuted n p \<and> view w' = load (unat off) (unat a) (unat n) (view w) \<or>
      (\<exists>e. r = EngineErr e p) \<and> mem_touched (span (unat a) (unat n)) (view w) (view w')"
    and engine_write: "e_write H off a n p w = (r, w') \<Longrightarrow>
      r = EngineExecuted n p \<and> written (unat off) (unat a) (unat n) (view w) (view w') \<or>
      (\<exists>e. r = EngineErr e p) \<and> disk_touched (span (unat off) (unat n)) (view w) (view w')"
    and engine_flush: "e_flush H p w = (r, w') \<Longrightarrow>
      (r = EngineExecuted 0 p \<or> (\<exists>e. r = EngineErr e p)) \<and> view w' = view w"
  using assms unfolding engine_contract_def by blast+

lemma submit_transfers:
  assumes "storage_contract H D view" "rq_type req = In \<or> rq_type req = Out \<or> rq_type req = Flush"
    and "submit H d req p w = (r, w')"
  shows "\<exists>ok. transfer img req (view w) ok (view w') \<and>
    (if ok then r = EngineExecuted (if rq_type req = Flush then 0 else rq_data_len req) p else \<exists>e. r = EngineErr e p)"
proof -
  have tr: "view (trace_record H d oper off len v) = view v" for oper off len v
    using assms(1) trace_record_data by (auto simp: storage_contract_def)
  have e: "engine_contract H view" using assms(1) by (simp add: storage_contract_def)
  let ?a = "rq_data_addr req" and ?n = "rq_data_len req"
  consider "rq_type req = In" | "rq_type req = Out" | "rq_type req = Flush" using assms(2) by blast
  then show ?thesis
  proof cases
    case 1
    with assms(3) have "r = EngineExecuted ?n p \<and> view w' = load (unat (offset req)) (unat ?a) (unat ?n) (view w) \<or>
        (\<exists>e. r = EngineErr e p) \<and> mem_touched (span (unat ?a) (unat ?n)) (view w) (view w')"
      using engine_read [OF e, of "offset req" ?a ?n p "trace_record H d ''read'' (offset req) ?n w" r w'] by (simp add: submit_def tr)
    then show ?thesis
      by (rule disjE) (rule exI [of _ True], simp add: 1 read_done, rule exI [of _ False], simp add: 1 read_failed)
  next
    case 2
    with assms(3) have "r = EngineExecuted ?n p \<and> written (unat (offset req)) (unat ?a) (unat ?n) (view w) (view w') \<or>
        (\<exists>e. r = EngineErr e p) \<and> disk_touched (span (unat (offset req)) (unat ?n)) (view w) (view w')"
      using engine_write [OF e, of "offset req" ?a ?n p "trace_record H d ''write'' (offset req) ?n w" r w'] by (simp add: submit_def tr)
    then show ?thesis
      by (rule disjE) (rule exI [of _ True], simp add: 2 write_done, rule exI [of _ False], simp add: 2 write_failed)
  next
    case 3
    with assms(3) have "(r = EngineExecuted 0 p \<or> (\<exists>e. r = EngineErr e p)) \<and> view w' = view w"
      using engine_flush [OF e, of p "trace_record H d ''flush'' 0 0 w" r w'] by (simp add: submit_def tr)
    with 3 show ?thesis
      by (cases r) (auto simp: flushed)
  qed
qed

lemma process_serves:
  assumes "storage_contract H D view" "process H d img req i m w = (r, m', w')"
  shows "\<exists>f. r = Executed f \<and> serve_request img req (view w) (num_bytes_to_mem f) (view w')"
proof -
  have mc: "memory_contract H view" and th: "\<not> e_is_throttling_err H e" for e
    using assms(1) by (auto simp: storage_contract_def engine_contract_def)
  let ?p = "to_pending_request req i"
  consider (engine) "rq_type req = In \<or> rq_type req = Out \<or> rq_type req = Flush" | (id) "rq_type req = GetDeviceID"
    | (unsupp) op where "rq_type req = Unsupported op" by (cases "rq_type req") auto
  then show ?thesis
  proof cases
    case engine
    obtain x w1 where s: "submit H d req ?p w = (x, w1)" by (cases "submit H d req ?p w")
    obtain ok where t: "transfer img req (view w) ok (view w1)"
      and x: "if ok then x = EngineExecuted (if rq_type req = Flush then 0 else rq_data_len req) ?p
        else \<exists>e. x = EngineErr e ?p"
      using submit_transfers [OF assms(1) engine s] by blast
    have p: "process_engine_result H x m w1 = (r, m', w')"
      using assms(2) engine s by (auto simp: process_def Let_def)
    show ?thesis
    proof (cases ok)
      case True
      with p x engine show ?thesis
        by (intro executed_serves [OF mc t]) (auto simp: process_engine_result_def)
    next
      case False
      then obtain e where "x = EngineErr e ?p" using x by auto
      with p th False show ?thesis
        by (intro executed_serves [OF mc t, of i "Err (FileEngineIo e)"]) (auto simp: process_engine_result_def)
    qed
  next
    case id
    obtain x w1 where g: "g_write_slice H img (rq_data_addr req) w = (x, w1)"
      by (cases "g_write_slice H img (rq_data_addr req) w")
    have "if is_ok x then view w1 = store img (unat (rq_data_addr req)) (view w)
        else mem_touched (span (unat (rq_data_addr req)) (length img)) (view w) (view w1)"
      using mc g unfolding memory_contract_def by blast
    then have t: "transfer img req (view w) (is_ok x) (view w1)"
      using id by (cases "is_ok x") (simp_all add: id_done id_failed)
    show ?thesis
      using assms(2) id g
      by (intro executed_serves [OF mc t, of i "case x of Inr _ \<Rightarrow> Ok VIRTIO_BLK_ID_BYTES | Inl e \<Rightarrow> Err (GetIdErr e)" m r m'])
        (cases x; simp add: process_def Let_def)+
  next
    case unsupp
    show ?thesis
      using assms(2) unsupp
      by (intro executed_serves [OF mc unsupported [OF unsupp]]) (auto simp: process_def Let_def)
  qed
qed

text \<open>Which addresses are mapped never changes.\<close>

lemma transfer_dom: "transfer img req s ok s' \<Longrightarrow> dom (st_mem s') = dom (st_mem s)"
  by (induction rule: transfer.induct)
    (use load_touched store_touched in \<open>auto simp: mem_touched_def disk_touched_def written_def\<close>)

lemma store_dom [simp]: "dom (st_mem (store bs a s)) = dom (st_mem s)"
  using store_touched by (simp add: mem_touched_def)

lemma serve_request_dom: "serve_request img req s k s' \<Longrightarrow> dom (st_mem s') = dom (st_mem s)"
  unfolding serve_request_def by (metis store_dom transfer_dom)

lemma serve_chain_dom: "serve_chain img n h s k s' \<Longrightarrow> dom (st_mem s') = dom (st_mem s)"
  by (cases "parsed s h n") (simp_all add: serve_chain_def serve_request_dom)

definition readable_headers :: "storage \<Rightarrow> desc_chain list \<Rightarrow> bool" where
  "readable_headers s heads \<longleftrightarrow> (\<forall>h \<in> set heads. header_at s (d_addr h) \<noteq> None)"

lemma readable_headers_dom:
  "dom (st_mem s) = dom (st_mem s') \<Longrightarrow> readable_headers s heads = readable_headers s' heads"
  using header_at_dom [of s s'] by (simp add: readable_headers_def)

lemma limited_keeps:
  "storage_contract H D view \<Longrightarrow> view (snd (rate_limit H req w)) = view w"
  by (simp add: storage_contract_def data_framed_def rate_limit_def case_prod_beta split: bool.split)

lemma handle_chain_serves:
  assumes "storage_contract H D view" "readable_headers (view w) [head]" "handle_chain H D head b w = (r, b', w')"
  shows "r = None \<Longrightarrow> view w' = view w"
    and "r \<noteq> None \<Longrightarrow> \<exists>f. r = Some (Executed f) \<and>
      serve_chain (image_id (disk b)) (nsectors (disk b)) head (view w) (num_bytes_to_mem f) (view w')"
proof -
  have undo: "view (q_undo_pop D v) = view v" for v
    using assms(1) by (simp add: storage_contract_def data_framed_def)
  have p: "parse H head (nsectors (disk b)) w = parsed (view w) head (nsectors (disk b))"
    using assms(1,2) by (intro parse_parsed) (auto simp: storage_contract_def readable_headers_def)
  have rl: "view w1 = view w" if "rate_limit H req w = (x, w1)" for req x w1
    using limited_keeps [OF assms(1), of req w] that by simp
  show "view w' = view w" if "r = None"
    using assms(3) that undo rl by (auto simp: handle_chain_def split: sum.splits prod.splits bool.splits)
  show "\<exists>f. r = Some (Executed f) \<and>
      serve_chain (image_id (disk b)) (nsectors (disk b)) head (view w) (num_bytes_to_mem f) (view w')" if "r \<noteq> None"
  proof (cases "parse H head (nsectors (disk b)) w")
    case (Inl e)
    moreover have "parsed (view w) head (nsectors (disk b)) = Err e" using Inl p by simp
    ultimately show ?thesis using assms(3) by (auto simp: handle_chain_def serve_chain_def)
  next
    case (Inr req)
    with assms(3) that obtain w1 x m where "rate_limit H req w = (False, w1)" "r = Some x"
      "process H (blk_id b) (image_id (disk b)) req (d_index head) (metrics b) w1 = (x, m, w')"
      by (auto simp: handle_chain_def split: prod.splits bool.splits)
    moreover from process_serves [OF assms(1) this(3)] obtain f where "x = Executed f"
      "serve_request (image_id (disk b)) req (view w1) (num_bytes_to_mem f) (view w')" by blast
    moreover have "parsed (view w) head (nsectors (disk b)) = Ok req" using Inr p by simp
    ultimately show ?thesis using rl by (auto simp: serve_chain_def)
  qed
qed

text \<open>
  The outcome of processing a queue: the chains taken, a prefix of those available, have been served in
  order, and each has its used entry.
\<close>

definition processed ::
  "('w \<Rightarrow> queue_view) \<Rightarrow> ('w \<Rightarrow> storage) \<Rightarrow> virtio_block \<Rightarrow> 'w \<Rightarrow> 'w \<Rightarrow> desc_chain list \<Rightarrow> (u16 \<times> u32) list \<Rightarrow> bool" where
  "processed q view b w w' taken entries \<longleftrightarrow>
     qv_avail (q w) = taken @ qv_avail (q w') \<and> qv_used (q w') = qv_used (q w) @ entries \<and>
     served (image_id (disk b)) (nsectors (disk b)) (view w) taken entries (view w')"

lemma processed_none:
  "qv_avail (q w') = qv_avail (q w) \<Longrightarrow> qv_used (q w') = qv_used (q w) \<Longrightarrow> view w' = view w \<Longrightarrow>
     processed q view b w w' [] []"
  by (simp add: processed_def served_none)

lemma processed_chain:
  assumes "qv_avail (q w) = head # qv_avail (q w1)" "qv_used (q w1) = qv_used (q w) @ [(d_index head, n)]"
    and "serve_chain (image_id (disk b)) (nsectors (disk b)) head (view w) n (view w1)"
    and "processed q view b1 w1 w' taken entries" "disk b1 = disk b"
  shows "processed q view b w w' (head # taken) ((d_index head, n) # entries)"
  using assms by (auto simp: processed_def intro: served_chain)

text \<open>One iteration of the loop on a chain.\<close>

lemma chain_loop_serves_head:
  assumes "queue_contract D q" "queue_framed H q" "storage_contract H D view" "synchronous H D"
    and "q_pop D w = (Inr (Some head), w1)" "readable_headers (view w) [head]"
  obtains (stop) b' w' where "chain_loop H D used_any b w = Some (Ok used_any, b', w')"
      "processed q view b w w' [] []" "\<not> unthrottled H D"
  | (go) u' b' w' n where "chain_loop H D used_any b w = chain_loop H D u' b' w'" "disk b' = disk b"
      "qv_avail (q w) = head # qv_avail (q w')" "qv_used (q w') = qv_used (q w) @ [(d_index head, n)]"
      "serve_chain (image_id (disk b)) (nsectors (disk b)) head (view w) n (view w')"
proof -
  note pop = pop_Some [OF assms(1,5)]
  have v1: "view w1 = view w" and used: "view (snd (q_add_used D i n v)) = view v" for i n v
    using assms(3,5) by (auto simp: storage_contract_def data_framed_def) (metis snd_conv)
  define b1 where "b1 = b\<lparr>metrics := (metrics b)\<lparr>remaining_reqs_count :=
             remaining_reqs_count (metrics b) + q_len D w1\<rparr>\<rparr>"
  obtain r b2 w2 where h: "handle_chain H D head b1 w1 = (r, b2, w2)"
    by (cases "handle_chain H D head b1 w1")
  note unfold = chain_loop.simps [of H D used_any b w, unfolded assms(5) prod.case sum.case option.case
      Let_def b1_def [symmetric] h]
  have d: "disk b1 = disk b" "disk b2 = disk b"
    using arg_cong [OF core_handle_chain [OF h], of disk] by (simp_all add: b1_def core_def)
  note served = handle_chain_serves [OF assms(3) _ h]
  show ?thesis
  proof (cases r)
    case None
    then obtain v where v: "w2 = q_undo_pop D v" "q v = q w1"
      using handle_chain_view(1) [OF assms(2) h] by blast
    have "view w2 = view w" using served(1) None assms(6) v1 by simp
    moreover have "qv_avail (q w2) = qv_avail (q w)" "qv_used (q w2) = qv_used (q w)"
      using undo_pop [OF assms(1), of v head] pop v by simp_all
    ultimately show ?thesis
      using stop [of b2 w2] unfold None unthrottled_handle_chain(1) [OF _ h] by (auto intro: processed_none)
  next
    case (Some x)
    then obtain f where f: "r = Some (Executed f)"
      "serve_chain (image_id (disk b)) (nsectors (disk b)) head (view w) (num_bytes_to_mem f) (view w2)"
      using served(2) assms(6) v1 d by auto
    obtain ok w3 where u: "q_add_used D (d_index head) (num_bytes_to_mem f) w2 = (ok, w3)"
      by (cases "q_add_used D (d_index head) (num_bytes_to_mem f) w2")
    have "ok" using u assms(4) by (metis fst_conv synchronous_def)
    with u f d unfold pop used [of "d_index head" "num_bytes_to_mem f" w2] add_used [OF assms(1) u]
      handle_chain_view(2) [OF assms(2) h] show ?thesis
      by (intro go [of True b2 w3 "num_bytes_to_mem f"]) auto
  qed
qed

lemma chain_loop_serves:
  assumes "queue_contract D q" "queue_framed H q" "storage_contract H D view" "synchronous H D"
    and "readable_headers (view w) (qv_avail (q w))"
  shows "\<exists>res b' w' taken entries. chain_loop H D used_any b w = Some (res, b', w') \<and>
    processed q view b w w' taken entries \<and> (unthrottled H D \<longrightarrow> is_ok res \<and> qv_avail (q w') = [])"
  using assms(5)
proof (induction "length (qv_avail (q w))" arbitrary: used_any b w rule: less_induct)
  case less
  have vw: "view (snd (q_pop D w)) = view w"
    using assms(3) by (simp add: storage_contract_def data_framed_def)
  obtain x w1 where p: "q_pop D w = (x, w1)" by (cases "q_pop D w")
  consider (err) e where "x = Inl e" | (none) "x = Inr None" | (some) head where "x = Inr (Some head)"
    by (cases x; cases "projr x") auto
  then show ?case
  proof cases
    case err
    with p have "\<not> unthrottled H D" by (auto simp: unthrottled_def)
    with err pop_Err [OF assms(1), of w e w1] p vw show ?thesis
      by (subst chain_loop.simps) (auto intro!: processed_none exI [of _ "[]"])
  next
    case none
    with pop_None [OF assms(1), of w w1] p vw show ?thesis
      by (subst chain_loop.simps) (auto intro!: processed_none exI [of _ "[]"])
  next
    case some
    have head: "readable_headers (view w) [head]" using less(2) pop_Some [OF assms(1) p [unfolded some]]
      by (simp add: readable_headers_def)
    from assms(1-4) p [unfolded some] head show ?thesis
    proof (cases rule: chain_loop_serves_head [where used_any = used_any and b = b])
      case (stop b' w')
      then show ?thesis by blast
    next
      case (go u' b' w' n)
      have l: "length (qv_avail (q w')) < length (qv_avail (q w))" using go by simp
      have "readable_headers (view w') (qv_avail (q w'))"
        using less(2) go(3) readable_headers_dom [OF serve_chain_dom [OF go(5)]] by (simp add: readable_headers_def)
      from less(1) [OF l this, of u' b'] processed_chain [where q = q and view = view, OF go(3,4,5) _ go(2)] go(1)
      show ?thesis by metis
    qed
  qed
qed

lemma process_queue_processed:
  assumes "queue_contract D q" "queue_framed H q" "kick_framed D q" "storage_contract H D view" "synchronous H D"
    and "readable_headers (view w) (qv_avail (q w))" "activated b"
  shows "\<exists>res b' w' taken entries. process_queue H D b w = Some (Some res, b', w') \<and>
    processed q view b w w' taken entries \<and> (unthrottled H D \<longrightarrow> is_ok res \<and> qv_avail (q w') = [])"
proof -
  obtain res b1 w1 taken entries where l: "chain_loop H D False b w = Some (res, b1, w1)"
    and a: "processed q view b w w1 taken entries" and e: "unthrottled H D \<longrightarrow> is_ok res \<and> qv_avail (q w1) = []"
    using chain_loop_serves [OF assms(1,2,4,5,6)] by blast
  show ?thesis
  proof (cases res)
    case (Inl err)
    with l a e assms(7) show ?thesis by (auto simp: process_queue_def)
  next
    case (Inr u)
    obtain b2 w2 where f: "finish_queue D u b1 w1 = (b2, w2)" by (cases "finish_queue D u b1 w1")
    have "q w2 = q w1" "view w2 = view w1"
      using finish_queue_framed [OF assms(3), of u b1 w1] finish_queue_framed [of D view u b1 w1] assms(4) f
      by (simp_all add: storage_contract_def)
    with Inr l a e f assms(7) show ?thesis by (auto simp: process_queue_def processed_def)
  qed
qed

section \<open>Properties\<close>

text \<open>
  C14: the device implements the storage. Processing the queue of an active device returns, and what it
  does to disk and memory is what the specification does for the chains taken, one after the other and
  each on the storage that the previous one left; the used ring gets the index and length of
  each of them. When nothing holds requests back, all available chains are served.
\<close>

theorem queue_refines_storage:
  assumes "queue_contract D q" "queue_framed H q" "kick_framed D q" "storage_contract H D view" "synchronous H D"
    and "readable_headers (view w) (qv_avail (q w))" "activated b"
  shows "\<exists>res b' w' taken entries. process_queue H D b w = Some (Some res, b', w') \<and>
    processed q view b w w' taken entries \<and> (unthrottled H D \<longrightarrow> is_ok res \<and> qv_avail (q w') = [])"
  using assms by (rule process_queue_processed)

section \<open>What a device may touch\<close>

text \<open>The bytes of the descriptors that the guest has made writable for the device.\<close>

fun writable :: "desc_chain \<Rightarrow> nat set" where
  "writable (Desc i a len wo hn nx) =
     (if wo then span (unat a) (unat len) else {}) \<union> (case nx of None \<Rightarrow> {} | Some d \<Rightarrow> writable d)"

lemma writable_next: "next_descriptor d = Some e \<Longrightarrow> writable e \<subseteq> writable d"
  by (cases d) auto

lemma writable_self: "is_write_only d \<Longrightarrow> span (unat (d_addr d)) (unat (d_len d)) \<subseteq> writable d"
  by (cases d) auto

lemma transfer_disk:
  "transfer img req s ok s' \<Longrightarrow> rq_type req = Out \<longrightarrow> x \<notin> span (unat (offset req)) (unat (rq_data_len req)) \<Longrightarrow>
     st_disk s' x = st_disk s x"
  by (induction rule: transfer.induct) (auto simp: load_def store_def mem_touched_def disk_touched_def written_def)

lemma transfer_mem:
  "transfer img req s ok s' \<Longrightarrow>
     rq_type req = In \<longrightarrow> x \<notin> span (unat (rq_data_addr req)) (unat (rq_data_len req)) \<Longrightarrow>
     rq_type req = GetDeviceID \<longrightarrow> x \<notin> span (unat (rq_data_addr req)) (length img) \<Longrightarrow>
     st_mem s' x = st_mem s x"
  by (induction rule: transfer.induct) (auto simp: load_def store_def mem_touched_def disk_touched_def written_def)

lemma store_disk [simp]: "st_disk (store bs a s) = st_disk s"
  by (simp add: store_def)

lemma serve_chain_within_disk:
  assumes "serve_chain img (drop_bit SECTOR_SHIFT bytes) head s n s'" "unat bytes \<le> x"
  shows "st_disk s' x = st_disk s x"
proof (cases "parsed s head (drop_bit SECTOR_SHIFT bytes)")
  case (Inr req)
  with assms(1) obtain ok s1 where t: "transfer img req s ok s1" and d: "st_disk s' = st_disk s1"
    by (auto simp: serve_chain_def serve_request_def)
  have "x \<notin> span (unat (offset req)) (unat (rq_data_len req))" if "rq_type req = Out"
    using parse_within_disk [OF Inr [unfolded parsed_def] disjI2 [OF that]] assms(2) by simp
  with transfer_disk [OF t] d show ?thesis by simp
qed (use assms(1) in \<open>simp add: serve_chain_def\<close>)

lemma parsed_writable:
  assumes "parsed s head n = Ok req"
  shows "unat (rq_status_addr req) \<in> writable head"
    and "rq_type req = In \<Longrightarrow> span (unat (rq_data_addr req)) (unat (rq_data_len req)) \<subseteq> writable head"
    and "rq_type req = GetDeviceID \<Longrightarrow> span (unat (rq_data_addr req)) 20 \<subseteq> writable head"
proof -
  obtain st where st: "rq_status_addr req = d_addr st" "is_write_only st" "1 \<le> d_len st"
    and c: "next_descriptor head = Some st \<and> rq_type req = Flush \<and> rq_data_len req = 0 \<or>
      (\<exists>data. next_descriptor head = Some data \<and> next_descriptor data = Some st \<and>
         rq_data_addr req = d_addr data \<and> rq_data_len req = d_len data \<and>
         (rq_type req = In \<or> rq_type req = GetDeviceID \<longrightarrow> is_write_only data) \<and>
         (rq_type req = Out \<longrightarrow> \<not> is_write_only data))"
    using parse_directions [OF assms [unfolded parsed_def]] by blast
  have "unat (d_addr st) \<in> writable st"
    using writable_self [OF st(2)] st(3) by (auto simp: word_le_nat_alt)
  with st(1) c writable_next show "unat (rq_status_addr req) \<in> writable head" by (metis in_mono)
  have data: "span (unat (rq_data_addr req)) (unat (rq_data_len req)) \<subseteq> writable head"
    if dir: "rq_type req = In \<or> rq_type req = GetDeviceID"
  proof -
    obtain data where d: "next_descriptor head = Some data" "is_write_only data"
      "rq_data_addr req = d_addr data" "rq_data_len req = d_len data" using c dir by auto
    with writable_self [OF d(2)] writable_next [OF d(1)] show ?thesis by auto
  qed
  then show "span (unat (rq_data_addr req)) (unat (rq_data_len req)) \<subseteq> writable head" if "rq_type req = In"
    using that by blast
  have "check_validity (rq_type req) (rq_sector req) (rq_data_len req) n = Ok ()"
    using assms [unfolded parsed_def] by (rule parse_Ok)
  then have "20 \<le> unat (rq_data_len req)" if "rq_type req = GetDeviceID"
    using that by (simp add: check_validity_def VIRTIO_BLK_ID_BYTES_def word_less_nat_alt split: if_splits)
  with data show "span (unat (rq_data_addr req)) 20 \<subseteq> writable head" if "rq_type req = GetDeviceID"
    using that by fastforce
qed

lemma serve_chain_writable:
  assumes "serve_chain img n head s k s'" "length img = 20" "x \<notin> writable head"
  shows "st_mem s' x = st_mem s x"
proof (cases "parsed s head n")
  case (Inr req)
  note w = parsed_writable [OF Inr]
  from Inr assms(1) obtain ok s1 bs where t: "transfer img req s ok s1"
    and m: "s' = s1 \<or> s' = store [bs] (unat (rq_status_addr req)) s1"
    by (auto simp: serve_chain_def serve_request_def)
  have "rq_type req = In \<longrightarrow> x \<notin> span (unat (rq_data_addr req)) (unat (rq_data_len req))"
    using w(2) assms(3) by blast
  moreover have "rq_type req = GetDeviceID \<longrightarrow> x \<notin> span (unat (rq_data_addr req)) (length img)"
    unfolding assms(2) using w(3) assms(3) by blast
  ultimately have "st_mem s1 x = st_mem s x" by (rule transfer_mem [OF t])
  moreover have "x \<noteq> unat (rq_status_addr req)" using w(1) assms(3) by blast
  ultimately show ?thesis using m by (auto simp: store_def)
qed (use assms(1) in \<open>simp add: serve_chain_def\<close>)

lemma served_within:
  assumes "served img sectors s heads es s'"
  shows "sectors = drop_bit SECTOR_SHIFT bytes \<Longrightarrow> unat bytes \<le> x \<Longrightarrow> st_disk s' x = st_disk s x"
    and "length img = 20 \<Longrightarrow> \<forall>h \<in> set heads. y \<notin> writable h \<Longrightarrow> st_mem s' y = st_mem s y"
  using assms
  by (induction rule: served.induct) (simp_all add: serve_chain_within_disk serve_chain_writable)


section \<open>Reading what was written\<close>

lemma header_at_cong:
  "\<forall>i<16. st_mem s (unat a + i) = st_mem s' (unat a + i) \<Longrightarrow> header_at s a = header_at s' a"
  unfolding header_at_def by (rule arg_cong [where f = "\<lambda>xs. map_option _ (those xs)"], rule map_cong) auto

lemma parsed_cong: "header_at s (d_addr h) = header_at s' (d_addr h) \<Longrightarrow> parsed s h n = parsed s' h n"
  by (simp add: parsed_def parse_def ram_host_def)

lemma serve_requestE:
  assumes "serve_request img req s n s'"
  obtains ok s1 where "transfer img req s ok s1"
    "\<And>x. x \<noteq> unat (rq_status_addr req) \<Longrightarrow> st_mem s' x = st_mem s1 x" "st_disk s' = st_disk s1"
    "st_mem s' (unat (rq_status_addr req)) \<noteq> st_mem s1 (unat (rq_status_addr req)) \<Longrightarrow>
       st_mem s' (unat (rq_status_addr req)) = Some (fst (answer (rq_type req) (rq_data_len req) ok))"
proof -
  from assms obtain ok s1 where "transfer img req s ok s1"
    "s' = store [fst (answer (rq_type req) (rq_data_len req) ok)] (unat (rq_status_addr req)) s1 \<or> s' = s1"
    by (auto simp: serve_request_def)
  then show ?thesis by (intro that [of ok s1]) (auto simp: store_def split: if_splits)
qed

text \<open>
  A write followed by a read of the same sectors, as a driver queues them: the status bytes are preset to
  a value that is not OK, and the two chains keep the status bytes apart from the header and the buffer of
  the read.
\<close>

definition write_then_read :: "storage \<Rightarrow> u64 \<Rightarrow> desc_chain \<Rightarrow> request \<Rightarrow> desc_chain \<Rightarrow> request \<Rightarrow> bool" where
  "write_then_read s n wr rw rd rr \<longleftrightarrow>
     parsed s wr n = Ok rw \<and> rq_type rw = Out \<and> parsed s rd n = Ok rr \<and> rq_type rr = In \<and>
     rq_sector rr = rq_sector rw \<and> rq_data_len rr = rq_data_len rw \<and>
     unat (rq_status_addr rw) \<notin> span (unat (d_addr rd)) 16 \<and>
     unat (rq_status_addr rw) \<noteq> unat (rq_status_addr rr) \<and>
     unat (rq_status_addr rw) \<notin> span (unat (rq_data_addr rr)) (unat (rq_data_len rr)) \<and>
     unat (rq_status_addr rr) \<notin> span (unat (rq_data_addr rr)) (unat (rq_data_len rr)) \<and>
     st_mem s (unat (rq_status_addr rw)) \<noteq> Some VIRTIO_BLK_S_OK \<and>
     st_mem s (unat (rq_status_addr rr)) \<noteq> Some VIRTIO_BLK_S_OK \<and>
     (\<forall>i < unat (rq_data_len rw). st_mem s (unat (rq_data_addr rw) + i) \<noteq> None \<and>
        st_mem s (unat (rq_data_addr rr) + i) \<noteq> None)"

lemma write_served:
  assumes "serve_request img rw s n s1" "rq_type rw = Out"
  shows "x \<noteq> unat (rq_status_addr rw) \<Longrightarrow> st_mem s1 x = st_mem s x"
    and "st_mem s (unat (rq_status_addr rw)) \<noteq> Some VIRTIO_BLK_S_OK \<Longrightarrow>
      st_mem s1 (unat (rq_status_addr rw)) = Some VIRTIO_BLK_S_OK \<Longrightarrow> i < unat (rq_data_len rw) \<Longrightarrow>
      st_mem s (unat (rq_data_addr rw) + i) = Some v \<Longrightarrow> st_disk s1 (unat (offset rw) + i) = v"
proof -
  obtain ok s' where t: "transfer img rw s ok s'" "\<And>x. x \<noteq> unat (rq_status_addr rw) \<Longrightarrow> st_mem s1 x = st_mem s' x"
    "st_disk s1 = st_disk s'" "st_mem s1 (unat (rq_status_addr rw)) \<noteq> st_mem s' (unat (rq_status_addr rw)) \<Longrightarrow>
       st_mem s1 (unat (rq_status_addr rw)) = Some (fst (answer (rq_type rw) (rq_data_len rw) ok))"
    using assms(1) by (rule serve_requestE) blast
  have m: "st_mem s' = st_mem s" using transfer_mem [OF t(1)] assms(2) by auto
  show "st_mem s1 x = st_mem s x" if "x \<noteq> unat (rq_status_addr rw)" using t(2) m that by simp
  show "st_disk s1 (unat (offset rw) + i) = v"
    if "st_mem s (unat (rq_status_addr rw)) \<noteq> Some VIRTIO_BLK_S_OK" "i < unat (rq_data_len rw)"
      "st_mem s1 (unat (rq_status_addr rw)) = Some VIRTIO_BLK_S_OK" "st_mem s (unat (rq_data_addr rw) + i) = Some v"
  proof -
    have ok using t(4) m that(1,3) assms(2) by (cases ok) (simp_all add: virtio_defs)
    with t(1) assms(2) have "written (unat (offset rw)) (unat (rq_data_addr rw)) (unat (rq_data_len rw)) s s'"
      by (auto elim: transfer.cases)
    with that t(3) show ?thesis by (simp add: written_def)
  qed
qed

lemma read_served:
  assumes "serve_request img rr s n s2" "rq_type rr = In"
    and "unat (rq_status_addr rr) \<notin> span (unat (rq_data_addr rr)) (unat (rq_data_len rr))"
  shows "x \<noteq> unat (rq_status_addr rr) \<Longrightarrow> x \<notin> span (unat (rq_data_addr rr)) (unat (rq_data_len rr)) \<Longrightarrow>
      st_mem s2 x = st_mem s x"
    and "st_mem s (unat (rq_status_addr rr)) \<noteq> Some VIRTIO_BLK_S_OK \<Longrightarrow>
      st_mem s2 (unat (rq_status_addr rr)) = Some VIRTIO_BLK_S_OK \<Longrightarrow> i < unat (rq_data_len rr) \<Longrightarrow>
      st_mem s (unat (rq_data_addr rr) + i) \<noteq> None \<Longrightarrow>
      st_mem s2 (unat (rq_data_addr rr) + i) = Some (st_disk s (unat (offset rr) + i))"
proof -
  obtain ok s' where t: "transfer img rr s ok s'" "\<And>x. x \<noteq> unat (rq_status_addr rr) \<Longrightarrow> st_mem s2 x = st_mem s' x"
    "st_mem s2 (unat (rq_status_addr rr)) \<noteq> st_mem s' (unat (rq_status_addr rr)) \<Longrightarrow>
       st_mem s2 (unat (rq_status_addr rr)) = Some (fst (answer (rq_type rr) (rq_data_len rr) ok))"
    using assms(1) by (rule serve_requestE) blast
  have m: "st_mem s' x = st_mem s x" if "x \<notin> span (unat (rq_data_addr rr)) (unat (rq_data_len rr))" for x
    using transfer_mem [OF t(1), of x] assms(2) that by simp
  show "st_mem s2 x = st_mem s x" if "x \<noteq> unat (rq_status_addr rr)"
    "x \<notin> span (unat (rq_data_addr rr)) (unat (rq_data_len rr))" using t(2) m that by simp
  show "st_mem s2 (unat (rq_data_addr rr) + i) = Some (st_disk s (unat (offset rr) + i))"
    if "st_mem s (unat (rq_status_addr rr)) \<noteq> Some VIRTIO_BLK_S_OK" "i < unat (rq_data_len rr)"
      "st_mem s2 (unat (rq_status_addr rr)) = Some VIRTIO_BLK_S_OK" "st_mem s (unat (rq_data_addr rr) + i) \<noteq> None"
  proof -
    have ok using t(3) m [OF assms(3)] that(1,3) assms(2) by (cases ok) (simp_all add: virtio_defs)
    with t(1) assms(2)
    have "s' = load (unat (offset rr)) (unat (rq_data_addr rr)) (unat (rq_data_len rr)) s"
      by (auto elim: transfer.cases)
    moreover have "unat (rq_data_addr rr) + i \<noteq> unat (rq_status_addr rr)" using assms(3) that(2) by auto
    ultimately show ?thesis using t(2) that(2,4) by (simp add: load_def store_def)
  qed
qed

lemma write_then_read_served:
  assumes "write_then_read s n wr rw rd rr" "serve_chain img n wr s k1 s1" "serve_chain img n rd s1 k2 s2"
    and "st_mem s2 (unat (rq_status_addr rw)) = Some VIRTIO_BLK_S_OK"
    and "st_mem s2 (unat (rq_status_addr rr)) = Some VIRTIO_BLK_S_OK" "i < unat (rq_data_len rw)"
  shows "st_mem s2 (unat (rq_data_addr rr) + i) = st_mem s (unat (rq_data_addr rw) + i)"
proof -
  let ?sw = "unat (rq_status_addr rw)" and ?sr = "unat (rq_status_addr rr)"
  note P = assms(1) [unfolded write_then_read_def]
  have w: "serve_request img rw s k1 s1" using assms(2) P by (simp add: serve_chain_def)
  have tw: "rq_type rw = Out" and tr: "rq_type rr = In" using P by simp_all
  have "header_at s1 (d_addr rd) = header_at s (d_addr rd)"
    using write_served(1) [OF w tw] P by (intro header_at_cong allI impI) auto
  then have "parsed s1 rd n = Ok rr" using P parsed_cong by metis
  then have r: "serve_request img rr s1 k2 s2" using assms(3) by (simp add: serve_chain_def)
  have "?sr \<notin> span (unat (rq_data_addr rr)) (unat (rq_data_len rr))" using P by blast
  note read = read_served [OF r tr this]
  have sw: "st_mem s1 ?sw = Some VIRTIO_BLK_S_OK" using read(1) [of ?sw] assms(4) P by auto
  have sr: "st_mem s1 ?sr \<noteq> Some VIRTIO_BLK_S_OK" using write_served(1) [OF w tw, of ?sr] P by auto
  obtain v where v: "st_mem s (unat (rq_data_addr rw) + i) = Some v" using P assms(6) by blast
  have off: "offset rr = offset rw" using P by (simp add: offset_def)
  have "st_disk s1 (unat (offset rw) + i) = v"
    using write_served(2) [OF w tw _ sw assms(6) v] P by simp
  moreover have "dom (st_mem s1) = dom (st_mem s)" using w by (rule serve_request_dom)
  then have "st_mem s1 (unat (rq_data_addr rr) + i) \<noteq> None" using P assms(6) by (metis domIff)
  moreover have "i < unat (rq_data_len rr)" using P assms(6) by simp
  ultimately show ?thesis using read(2) [OF sr assms(5)] off v by simp
qed

text \<open>
  C17: a read returns what was written. A driver that queues a write and then a read of the same sectors,
  and finds both status bytes OK afterwards, has in the buffer of the read what was in the buffer of the
  write when it queued them.
\<close>

theorem read_returns_written:
  assumes "queue_contract D q" "queue_framed H q" "kick_framed D q" "storage_contract H D view" "synchronous H D"
    and "unthrottled H D" "activated b" "qv_avail (q w) = [wr, rd]"
    and "readable_headers (view w) [wr, rd]" "write_then_read (view w) (nsectors (disk b)) wr rw rd rr"
  shows "\<exists>b' w'. process_queue H D b w = Some (Some (Ok ()), b', w') \<and>
    (st_mem (view w') (unat (rq_status_addr rw)) = Some VIRTIO_BLK_S_OK \<and>
     st_mem (view w') (unat (rq_status_addr rr)) = Some VIRTIO_BLK_S_OK \<longrightarrow>
       (\<forall>i < unat (rq_data_len rw).
          st_mem (view w') (unat (rq_data_addr rr) + i) = st_mem (view w) (unat (rq_data_addr rw) + i)))"
proof -
  have "readable_headers (view w) (qv_avail (q w))" using assms(8,9) by simp
  then obtain res b' w' taken entries where p: "process_queue H D b w = Some (Some res, b', w')"
    and d: "processed q view b w w' taken entries" "is_ok res" "qv_avail (q w') = []"
    using process_queue_processed [OF assms(1-5) _ assms(7)] assms(6) by blast
  then have "served (image_id (disk b)) (nsectors (disk b)) (view w) [wr, rd] entries (view w')"
    using assms(8) by (simp add: processed_def)
  then obtain k1 s1 k2 where "serve_chain (image_id (disk b)) (nsectors (disk b)) wr (view w) k1 s1"
    "serve_chain (image_id (disk b)) (nsectors (disk b)) rd s1 k2 (view w')"
    by (auto elim!: served_ConsE served_NilE)
  from write_then_read_served [OF assms(10) this] p d(2) show ?thesis by (cases res) auto
qed

section \<open>A machine with a disk in memory\<close>

text \<open>A queue in a list beside the storage of \<open>ram_host\<close>.\<close>

type_synonym ram_world = "queue_view \<times> storage"

definition ram_dev :: "(ram_world, unit, unit) dev_host" where
  "ram_dev = idle_dev
     \<lparr> q_pop := \<lambda>(v, s). (case q_pop list_queue v of (r, v') \<Rightarrow> (r, v', s)),
       q_undo_pop := \<lambda>(v, s). (q_undo_pop list_queue v, s), q_len := \<lambda>(v, s). q_len list_queue v,
       q_add_used := \<lambda>i n (v, s). (case q_add_used list_queue i n v of (r, v') \<Rightarrow> (r, v', s)) \<rparr>"

definition ram_engine :: "ram_world block_host" where
  "ram_engine = ram_host snd (\<lambda>f (v, s). (v, f s))"

lemma save_written: "written off a n s (save off a n s)"
  by (auto simp: written_def disk_touched_def save_def split: option.splits)

lemma ram_contract:
  "queue_contract ram_dev fst" "queue_framed ram_engine fst" "kick_framed ram_dev fst"
  "storage_contract ram_engine ram_dev snd" "synchronous ram_engine ram_dev" "unthrottled ram_engine ram_dev"
proof -
  show "queue_contract ram_dev fst"
    by (auto simp: queue_contract_def ram_dev_def list_queue_def idle_dev_def split: list.splits prod.splits)
  show "queue_framed ram_engine fst" "kick_framed ram_dev fst" "synchronous ram_engine ram_dev"
    by (simp_all add: queue_framed_def engine_framed_def kick_framed_def synchronous_def ram_dev_def list_queue_def
        idle_dev_def ram_engine_def ram_host_def split_beta)
  show "unthrottled ram_engine ram_dev"
    by (auto simp: unthrottled_def ram_engine_def ram_host_def ram_dev_def list_queue_def idle_dev_def
        split: list.splits prod.splits)
  show "storage_contract ram_engine ram_dev snd"
    by (auto simp: storage_contract_def memory_contract_def engine_contract_def data_framed_def kick_framed_def
        ram_engine_def ram_host_def ram_dev_def list_queue_def idle_dev_def save_written
        split: list.splits prod.splits)
qed

definition write_chain :: desc_chain where
  "write_chain = Desc 0 0x1000 16 False True (Some (Desc 1 0x2000 512 False True (Some
     (Desc 2 0x3000 1 True False None))))"

definition read_chain :: desc_chain where
  "read_chain = Desc 3 0x1100 16 False True (Some (Desc 4 0x4000 512 True True (Some
     (Desc 5 0x3001 1 True False None))))"

text \<open>A request header is sixteen bytes; both name sector 3. The byte written is 7.\<close>

definition demo_memory :: storage where
  "demo_memory =
     \<lparr>st_disk = (\<lambda>x. 0),
      st_mem = (\<lambda>x. if x = 0x1000 then Some 1 else if x = 0x1008 \<or> x = 0x1108 then Some 3
                     else if x = 0x3000 \<or> x = 0x3001 then Some 255
                     else if x \<in> span 0x2000 512 then Some 7 else Some 0)\<rparr>"

definition demo_world :: ram_world where
  "demo_world = (\<lparr>qv_avail = [write_chain, read_chain], qv_used = [], qv_popped = None\<rparr>, demo_memory)"

definition demo_transfer :: "request_type \<Rightarrow> u64 \<Rightarrow> u64 \<Rightarrow> request" where
  "demo_transfer t status data =
     \<lparr>rq_type = t, rq_data_len = 512, rq_status_addr = status, rq_sector = 3, rq_data_addr = data\<rparr>"

lemma demo_headers:
  "header_at demo_memory 0x1000 = Some \<lparr>h_request_type = 1, h_reserved = 0, h_sector = 3\<rparr>"
  "header_at demo_memory 0x1100 = Some \<lparr>h_request_type = 0, h_reserved = 0, h_sector = 3\<rparr>"
  by (simp_all add: header_at_def demo_memory_def upt_rec)

lemma demo_readable: "readable_headers (snd demo_world) [write_chain, read_chain]"
  using demo_headers by (simp add: readable_headers_def demo_world_def write_chain_def read_chain_def)

lemma demo_parsed:
  "parsed demo_memory write_chain 8 = Ok (demo_transfer Out 0x3000 0x2000)"
  "parsed demo_memory read_chain 8 = Ok (demo_transfer In 0x3001 0x4000)"
  using demo_headers
  by (simp_all add: parsed_def parse_def ram_host_def write_chain_def read_chain_def request_type_from_def
      virtio_defs parse_descs_def check_data_desc_def check_validity_def check_status_desc_def checked_add_def
      demo_transfer_def Let_def)

lemma demo_pair:
  "write_then_read demo_memory 8 write_chain (demo_transfer Out 0x3000 0x2000)
     read_chain (demo_transfer In 0x3001 0x4000)"
  using demo_parsed
  by (simp add: write_then_read_def demo_transfer_def read_chain_def demo_memory_def virtio_defs)

lemma demo_device: "activated demo_block" "nsectors (disk demo_block) = 8" "length (image_id (disk demo_block)) = 20"
  by (simp_all add: demo_block_def)

lemma demo_world_simps: "qv_avail (fst demo_world) = [write_chain, read_chain]" "snd demo_world = demo_memory"
  by (simp_all add: demo_world_def)

theorem queue_refines_storage_witness:
  "\<exists>res b' w' taken entries. process_queue ram_engine ram_dev demo_block demo_world = Some (Some res, b', w') \<and>
    processed fst snd demo_block demo_world w' taken entries \<and>
    (unthrottled ram_engine ram_dev \<longrightarrow> is_ok res \<and> qv_avail (fst w') = [])"
  by (rule queue_refines_storage [OF ram_contract(1-5) _ demo_device(1)])
    (simp add: demo_world_simps demo_readable [unfolded demo_world_simps])


lemma ram_pop:
  "q_pop ram_dev (v, s) = (case qv_avail v of
     [] \<Rightarrow> (Inr None, v, s) | h # hs \<Rightarrow> (Inr (Some h), v\<lparr>qv_avail := hs, qv_popped := Some h\<rparr>, s))"
  by (simp add: ram_dev_def list_queue_def split: list.split)

lemma ram_queue:
  "q_len ram_dev (v, s) = length (qv_avail v)"
  "snd (q_add_used ram_dev i n (v, s)) = (v\<lparr>qv_used := qv_used v @ [(i, n)]\<rparr>, s)"
  by (simp_all add: ram_dev_def list_queue_def)

lemma ram_handle:
  assumes "header_at s (d_addr h) \<noteq> None" "parsed s h (nsectors (disk b)) = Ok req"
  shows "rq_type req = Out \<Longrightarrow> \<exists>f b'. handle_chain ram_engine ram_dev h b (v, s) = (Some (Executed f), b',
      v, store [0] (unat (rq_status_addr req)) (save (unat (offset req)) (unat (rq_data_addr req)) (unat (rq_data_len req)) s)) \<and>
      disk b' = disk b"
    and "rq_type req = In \<Longrightarrow> \<exists>f b'. handle_chain ram_engine ram_dev h b (v, s) = (Some (Executed f), b',
      v, store [0] (unat (rq_status_addr req)) (load (unat (offset req)) (unat (rq_data_addr req)) (unat (rq_data_len req)) s)) \<and>
      disk b' = disk b"
proof -
  have "memory_contract ram_engine snd" using ram_contract(4) by (simp add: storage_contract_def)
  from parse_parsed [OF this, of "(v, s)"] assms
  have p: "parse ram_engine h (nsectors (disk b)) (v, s) = Ok req" by simp
  note eval = handle_chain_def p ram_engine_def [symmetric] rate_limit_def process_def submit_def Let_def
    trace_record_def trace_config_def process_engine_result_def executed_def finish_def
    write_status_and_finish_def status_reply_def status_from_data_def to_pending_request_def VIRTIO_BLK_S_OK_def
  have host: "rl_consume ram_engine n t w = (True, w)" "t_cell ram_engine w = Some None"
    "e_read ram_engine off a len q (v, s) = (EngineExecuted len q, v, load (unat off) (unat a) (unat len) s)"
    "e_write ram_engine off a len q (v, s) = (EngineExecuted len q, v, save (unat off) (unat a) (unat len) s)"
    "g_write_status ram_engine c a (v, s') = (Ok (), v, store [c] (unat a) s')" for n t w off a len q c s'
    by (simp_all add: ram_engine_def ram_host_def)
  show "rq_type req = Out \<Longrightarrow> \<exists>f b'. handle_chain ram_engine ram_dev h b (v, s) = (Some (Executed f), b',
      v, store [0] (unat (rq_status_addr req)) (save (unat (offset req)) (unat (rq_data_addr req)) (unat (rq_data_len req)) s)) \<and>
      disk b' = disk b"
    by (simp add: eval host)
  show "rq_type req = In \<Longrightarrow> \<exists>f b'. handle_chain ram_engine ram_dev h b (v, s) = (Some (Executed f), b',
      v, store [0] (unat (rq_status_addr req)) (load (unat (offset req)) (unat (rq_data_addr req)) (unat (rq_data_len req)) s)) \<and>
      disk b' = disk b"
    by (simp add: eval host)
qed

lemma ram_loop:
  assumes "handle_chain ram_engine ram_dev h (b\<lparr>metrics := (metrics b)\<lparr>remaining_reqs_count :=
        remaining_reqs_count (metrics b) + length hs\<rparr>\<rparr>) (v\<lparr>qv_avail := hs, qv_popped := Some h\<rparr>, s)
      = (Some (Executed f), b', v\<lparr>qv_avail := hs, qv_popped := Some h\<rparr>, s')" "qv_avail v = h # hs"
  shows "\<exists>v'. qv_avail v' = hs \<and>
    chain_loop ram_engine ram_dev used b (v, s) = chain_loop ram_engine ram_dev True b' (v', s')"
  using assms
  by (intro exI [of _ "v\<lparr>qv_avail := hs, qv_popped := Some h,
        qv_used := qv_used v @ [(d_index h, num_bytes_to_mem f)]\<rparr>"], subst chain_loop.simps)
    (simp add: ram_pop ram_queue Let_def)

definition after_write :: storage where
  "after_write = store [0] 0x3000 (save 1536 0x2000 512 demo_memory)"

definition after_read :: storage where
  "after_read = store [0] 0x3001 (load 1536 0x4000 512 after_write)"

lemma after_write_parsed:
  "header_at after_write (d_addr read_chain) \<noteq> None"
  "parsed after_write read_chain 8 = Ok (demo_transfer In 0x3001 0x4000)"
proof -
  have "header_at after_write (d_addr read_chain) = header_at demo_memory (d_addr read_chain)"
    by (rule header_at_cong) (simp add: after_write_def store_def save_def read_chain_def)
  then show "header_at after_write (d_addr read_chain) \<noteq> None"
    "parsed after_write read_chain 8 = Ok (demo_transfer In 0x3001 0x4000)"
    using demo_headers demo_parsed parsed_cong [of after_write read_chain demo_memory]
    by (simp_all add: read_chain_def)
qed

lemma demo_loop:
  "\<exists>b' v'. chain_loop ram_engine ram_dev False demo_block demo_world = Some (Ok True, b', v', after_read)"
proof -
  let ?count = "\<lambda>b n. b\<lparr>metrics := (metrics b)\<lparr>remaining_reqs_count := remaining_reqs_count (metrics b) + n\<rparr>\<rparr>"
  have off: "unat (offset (demo_transfer t a c)) = 1536" for t a c
    by (simp add: offset_def demo_transfer_def SECTOR_SHIFT_def)
  let ?v = "fst demo_world" let ?v1 = "?v\<lparr>qv_avail := [read_chain], qv_popped := Some write_chain\<rparr>"
  have h: "header_at demo_memory (d_addr write_chain) \<noteq> None" using demo_headers by (simp add: write_chain_def)
  obtain f b1 where "handle_chain ram_engine ram_dev write_chain (?count demo_block 1) (?v1, demo_memory)
      = (Some (Executed f), b1, ?v1, after_write)" and b1: "disk b1 = disk demo_block"
    using ram_handle(1) [OF h, of "?count demo_block 1" "demo_transfer Out 0x3000 0x2000" ?v1] demo_parsed(1) off
    by (auto simp: demo_device after_write_def) (auto simp: demo_transfer_def)
  then obtain v2 where v2: "qv_avail v2 = [read_chain]"
    "chain_loop ram_engine ram_dev False demo_block (?v, demo_memory) = chain_loop ram_engine ram_dev True b1 (v2, after_write)"
    using ram_loop [of write_chain demo_block "[read_chain]" ?v demo_memory f b1 after_write False] demo_world_simps by auto
  let ?v3 = "v2\<lparr>qv_avail := [], qv_popped := Some read_chain\<rparr>"
  obtain f2 b2 where "handle_chain ram_engine ram_dev read_chain (?count b1 0) (?v3, after_write)
      = (Some (Executed f2), b2, ?v3, after_read)"
    using ram_handle(2) [OF after_write_parsed(1), of "?count b1 0" "demo_transfer In 0x3001 0x4000" ?v3]
      after_write_parsed(2) off b1
    by (auto simp: demo_device after_read_def) (auto simp: demo_transfer_def)
  then obtain v4 where "qv_avail v4 = []"
    "chain_loop ram_engine ram_dev True b1 (v2, after_write) = chain_loop ram_engine ram_dev True b2 (v4, after_read)"
    using ram_loop [of read_chain b1 "[]" v2 after_write f2 b2 after_read True] v2(1) by auto
  moreover have "chain_loop ram_engine ram_dev True b2 (v4, after_read) = Some (Ok True, b2, v4, after_read)"
    using calculation(1) by (subst chain_loop.simps) (simp add: ram_pop)
  ultimately show ?thesis using v2(2) demo_world_simps(2) by (metis prod.collapse)
qed

lemma demo_run:
  "\<exists>b' v'. process_queue ram_engine ram_dev demo_block demo_world = Some (Some (Ok ()), b', v', after_read)"
proof -
  obtain b1 v1 where l: "chain_loop ram_engine ram_dev False demo_block demo_world = Some (Ok True, b1, v1, after_read)"
    using demo_loop by blast
  have "snd (snd (finish_queue ram_dev True b1 (v1, after_read))) = after_read"
    using finish_queue_framed [of ram_dev snd True b1 "(v1, after_read)"] ram_contract(4)
    by (simp add: storage_contract_def)
  with l show ?thesis by (simp add: process_queue_def demo_device split: prod.split) (metis prod.collapse)
qed

lemma after_read_status: "st_mem after_read 0x3000 = Some 0" "st_mem after_read 0x3001 = Some 0"
  by (simp_all add: after_read_def after_write_def store_def load_def save_def demo_memory_def)

theorem read_returns_written_witness:
  "\<exists>b' w'. process_queue ram_engine ram_dev demo_block demo_world = Some (Some (Ok ()), b', w') \<and>
    st_mem (snd w') 0x3000 = Some 0 \<and> st_mem (snd w') 0x3001 = Some 0 \<and>
    (\<forall>i < 512. st_mem (snd w') (0x4000 + i) = Some 7)"
proof -
  let ?w = "demo_transfer Out 0x3000 0x2000" and ?r = "demo_transfer In 0x3001 0x4000"
  have "write_then_read (snd demo_world) (nsectors (disk demo_block)) write_chain ?w read_chain ?r"
    using demo_pair by (simp add: demo_world_simps demo_device)
  from read_returns_written [OF ram_contract demo_device(1) demo_world_simps(1) demo_readable this]
  show ?thesis using demo_run after_read_status
    by (auto simp: demo_transfer_def demo_world_simps virtio_defs) (simp add: demo_memory_def)
qed

end
