(* ===== verification/Block_Lifecycle.thy ===== *)
theory Block_Lifecycle
  imports Block_Device_Props "HOL-Library.Multiset"
begin

text \<open>
  The requests of a block device over its whole life, with an engine that may complete them later.
  Every chain the guest has made available is at any time in exactly one place: still in the queue,
  in flight in the engine, or answered in the used ring. Events of the queue, of the rate limiter
  and of completions, activation, configuration accesses and snapshots keep this account; only a change of the
  backing file may make the engine forget requests in flight.
\<close>

section \<open>The account\<close>

definition outstanding :: "('w \<Rightarrow> queue_view) \<Rightarrow> ('w \<Rightarrow> pending_request multiset) \<Rightarrow> 'w \<Rightarrow> u16 multiset" where
  "outstanding q flight w =
     mset (map d_index (qv_avail (q w))) + image_mset p_desc_idx (flight w) + mset (map fst (qv_used (q w)))"

text \<open>
  The engine: a submitted request is in flight until its completion is popped; replacing the file
  may drop what is in flight. The rest of the host has no part in it.
\<close>

definition flight_contract ::
  "'w block_host \<Rightarrow> ('w, 'rl, 'u) dev_host \<Rightarrow> ('w \<Rightarrow> pending_request multiset) \<Rightarrow> bool" where
  "flight_contract H D flight \<longleftrightarrow>
     (\<forall>off a n p w r w'. e_read H off a n p w = (r, w') \<longrightarrow>
        flight w' = flight w + (if r = EngineSubmitted then {#p#} else {#})) \<and>
     (\<forall>off a n p w r w'. e_write H off a n p w = (r, w') \<longrightarrow>
        flight w' = flight w + (if r = EngineSubmitted then {#p#} else {#})) \<and>
     (\<forall>p w r w'. e_flush H p w = (r, w') \<longrightarrow>
        flight w' = flight w + (if r = EngineSubmitted then {#p#} else {#})) \<and>
     (\<forall>w p r w'. e_pop D w = (Inr (Some (p, r)), w') \<longrightarrow> flight w = add_mset p (flight w')) \<and>
     (\<forall>w r w'. e_pop D w = (r, w') \<and> (\<forall>c. r \<noteq> Inr (Some c)) \<longrightarrow> flight w' = flight w) \<and>
     (\<forall>f w. flight (snd (e_update_file_path D f w)) \<subseteq># flight w)"

text \<open>What leaves a part of the world alone: all of the host but queue and engine.\<close>

definition host_framed :: "'w block_host \<Rightarrow> ('w \<Rightarrow> 'v) \<Rightarrow> bool" where
  "host_framed H view \<longleftrightarrow>
     (\<forall>v a w. view (snd (g_write_status H v a w)) = view w) \<and>
     (\<forall>bs a w. view (snd (g_write_slice H bs a w)) = view w) \<and>
     (\<forall>c w. view (t_set_cell H c w) = view w) \<and> (\<forall>w. view (snd (t_now H w)) = view w) \<and>
     (\<forall>path line w. view (t_append H path line w) = view w) \<and>
     (\<forall>n t w. view (snd (rl_consume H n t w)) = view w) \<and> (\<forall>n t w. view (rl_replenish H n t w) = view w)"

definition device_framed :: "('w, 'rl, 'u) dev_host \<Rightarrow> ('w \<Rightarrow> 'v) \<Rightarrow> bool" where
  "device_framed D view \<longleftrightarrow>
     kick_framed D view \<and>
     (\<forall>w. view (snd (q_initialize D w)) = view w) \<and> (\<forall>w. view (q_enable_notif_suppression D w) = view w) \<and>
     (\<forall>w. view (snd (i_trigger_config D w)) = view w) \<and> (\<forall>w. view (snd (ev_queue_read D w)) = view w) \<and>
     (\<forall>w. view (snd (ev_completion_read D w)) = view w) \<and> (\<forall>w. view (snd (ev_activate_write D w)) = view w) \<and>
     (\<forall>w. view (snd (rl_event_handler D w)) = view w) \<and>
     (\<forall>path rw w. view (snd (f_open D path rw w)) = view w) \<and> (\<forall>f w. view (snd (f_seek_end D f w)) = view w) \<and>
     (\<forall>x w. view (e_drain_and_flush D x w) = view w)"

text \<open>
  The contract of a device's host: queue and flight as above, used entries are accepted, and the
  operations of one part leave the other parts alone.
\<close>

definition life_contract ::
  "'w block_host \<Rightarrow> ('w, 'rl, 'u) dev_host \<Rightarrow> ('w \<Rightarrow> queue_view) \<Rightarrow> ('w \<Rightarrow> pending_request multiset) \<Rightarrow> bool" where
  "life_contract H D q flight \<longleftrightarrow>
     queue_contract D q \<and> queue_framed H q \<and> device_framed D q \<and>
     (\<forall>w. q (snd (e_pop D w)) = q w) \<and> (\<forall>f w. q (snd (e_update_file_path D f w)) = q w) \<and>
     (\<forall>i n w. fst (q_add_used D i n w)) \<and>
     flight_contract H D flight \<and> host_framed H flight \<and> device_framed D flight \<and>
     (\<forall>w. flight (snd (q_pop D w)) = flight w) \<and> (\<forall>w. flight (q_undo_pop D w) = flight w) \<and>
     (\<forall>i n w. flight (snd (q_add_used D i n w)) = flight w)"

lemma life_contract_parts:
  assumes "life_contract H D q flight"
  shows "queue_contract D q" "queue_framed H q" "device_framed D q" "flight_contract H D flight"
    "host_framed H flight" "device_framed D flight" "kick_framed D q" "kick_framed D flight"
    "\<And>w. q (snd (e_pop D w)) = q w" "\<And>f w. q (snd (e_update_file_path D f w)) = q w"
    "\<And>i n w. fst (q_add_used D i n w)"
    "\<And>w. flight (snd (q_pop D w)) = flight w" "\<And>w. flight (q_undo_pop D w) = flight w"
    "\<And>i n w. flight (snd (q_add_used D i n w)) = flight w"
  using assms by (simp_all add: life_contract_def device_framed_def)

lemma flight_contract_facts:
  assumes "flight_contract H D flight"
  shows flight_read: "e_read H off a n p w = (r, w') \<Longrightarrow>
      flight w' = flight w + (if r = EngineSubmitted then {#p#} else {#})"
    and flight_write: "e_write H off a n p w = (r, w') \<Longrightarrow>
      flight w' = flight w + (if r = EngineSubmitted then {#p#} else {#})"
    and flight_flush: "e_flush H p w = (r, w') \<Longrightarrow>
      flight w' = flight w + (if r = EngineSubmitted then {#p#} else {#})"
    and flight_pop: "e_pop D w = (Inr (Some (p, x)), w') \<Longrightarrow> flight w = add_mset p (flight w')"
    and flight_pop_none: "e_pop D w = (y, w') \<Longrightarrow> \<forall>c. y \<noteq> Inr (Some c) \<Longrightarrow> flight w' = flight w"
    and flight_update: "flight (snd (e_update_file_path D f w)) \<subseteq># flight w"
  using assms unfolding flight_contract_def by simp_all

text \<open>Multisets of which the sum is bounded by a list without repetitions are disjoint sets.\<close>

lemma split_distinct_mset:
  assumes "mset xs + F + mset us \<subseteq># mset ys" "distinct ys"
  shows "distinct us \<and> set us \<subseteq> set ys \<and> set us \<inter> (set xs \<union> set_mset F) = {}"
proof -
  have c: "count (mset xs) i + count F i + count (mset us) i \<le> 1" for i
    using mset_subset_eq_count [OF assms(1), of i] assms(2) by (auto simp: distinct_count_atmost_1)
      (metis (full_types) bot_nat_0.extremum le_trans not_less_eq_eq One_nat_def)+
  have "count (mset us) i = 1" if "i \<in> set us" for i
    using c [of i] that by (intro le_antisym) (simp_all add: Suc_le_eq)
  then have "distinct us" by (auto simp: distinct_count_atmost_1)
  moreover have "set us \<subseteq> set ys"
    using set_mset_mono [OF assms(1)] by auto
  moreover have "\<not> (i \<in> set us \<and> (i \<in> set xs \<or> i \<in># F))" for i
  proof
    assume "i \<in> set us \<and> (i \<in> set xs \<or> i \<in># F)"
    then have "1 \<le> count (mset us) i" "1 \<le> count (mset xs) i + count F i"
      by (auto simp: Suc_le_eq count_greater_zero_iff add_pos_pos)
    with c [of i] show False by simp
  qed
  ultimately show ?thesis by blast
qed

section \<open>Requests\<close>

lemma trace_record_flight: "host_framed H flight \<Longrightarrow> flight (trace_record H d oper off len w) = flight w"
  by (simp add: host_framed_def trace_record_def trace_config_def Let_def split_beta split: option.split)

lemma finish_flight: "host_framed H flight \<Longrightarrow> flight (snd (snd (finish H p res m w))) = flight w"
  by (simp add: host_framed_def finish_def write_status_and_finish_def Let_def split_beta)

lemma submit_flight:
  assumes "flight_contract H D flight" "host_framed H flight" "submit H d req p w = (r, w')"
  shows "flight w' = flight w + (if r = EngineSubmitted then {#p#} else {#})"
  using assms(3) flight_contract_facts(1-3) [OF assms(1)] trace_record_flight [OF assms(2)]
  by (simp add: submit_def split: request_type.splits)

lemma process_flight:
  assumes "flight_contract H D flight" "host_framed H flight" "process H d img req i m w = (r, m', w')"
  shows "flight w' = flight w + (if r = Submitted then {#to_pending_request req i#} else {#})"
proof -
  let ?p = "to_pending_request req i"
  have fin: "flight w2 = flight w1" if "executed (finish H p res m w1) = (x, m2, w2)" for p res w1 x m2 w2
    using finish_flight [OF assms(2), of p res m w1] that by (auto simp: executed_def split: prod.splits)
  have exe: "x \<noteq> Submitted" if "executed (finish H p res m w1) = (x, m2, w2)" for p res w1 x m2 w2
    using that by (auto simp: executed_def split: prod.splits)
  consider (engine) "rq_type req = In \<or> rq_type req = Out \<or> rq_type req = Flush" | (id) "rq_type req = GetDeviceID"
    | (unsupp) op where "rq_type req = Unsupported op" by (cases "rq_type req") auto
  then show ?thesis
  proof cases
    case engine
    obtain x w1 where s: "submit H d req ?p w = (x, w1)" by (cases "submit H d req ?p w")
    have f: "flight w1 = flight w + (if x = EngineSubmitted then {#?p#} else {#})"
      by (rule submit_flight [OF assms(1,2) s])
    have "process_engine_result H x m w1 = (r, m', w')"
      using assms(3) engine s by (auto simp: process_def Let_def)
    with f fin exe show ?thesis
      by (cases x) (auto simp: process_engine_result_def split: if_splits)
  next
    case id
    obtain x w1 where g: "g_write_slice H img (rq_data_addr req) w = (x, w1)"
      by (cases "g_write_slice H img (rq_data_addr req) w")
    then have "flight w1 = flight w" using assms(2) unfolding host_framed_def by (metis snd_conv)
    with g id assms(3) fin exe show ?thesis by (fastforce simp: process_def Let_def)
  next
    case unsupp
    with assms(3) fin exe show ?thesis by (fastforce simp: process_def Let_def)
  qed
qed

lemma rate_limit_flight: "host_framed H flight \<Longrightarrow> flight (snd (rate_limit H req w)) = flight w"
  by (simp add: host_framed_def rate_limit_def case_prod_beta split: bool.split)

lemma handle_chain_flight:
  assumes "life_contract H D q flight" "handle_chain H D head b w = (r, b', w')"
  shows "image_mset p_desc_idx (flight w') =
    image_mset p_desc_idx (flight w) + (if r = Some Submitted then {#d_index head#} else {#})"
proof -
  note L = life_contract_parts [OF assms(1)]
  have rl: "flight w1 = flight w" if "rate_limit H req w = (x, w1)" for req x w1
    using rate_limit_flight [OF L(5), of req w] that by simp
  show ?thesis
  proof (cases "parse H head (nsectors (disk b)) w")
    case (Inl e)
    with assms(2) show ?thesis by (auto simp: handle_chain_def)
  next
    case (Inr req)
    obtain limited w1 where x: "rate_limit H req w = (limited, w1)" by (cases "rate_limit H req w")
    show ?thesis
    proof (cases limited)
      case True
      with assms(2) Inr x rl [OF x] L(13) show ?thesis by (auto simp: handle_chain_def)
    next
      case False
      obtain y m w2 where p: "process H (blk_id b) (image_id (disk b)) req (d_index head) (metrics b) w1 = (y, m, w2)"
        by (cases "process H (blk_id b) (image_id (disk b)) req (d_index head) (metrics b) w1")
      with assms(2) Inr x False have "r = Some y" "w' = w2" by (auto simp: handle_chain_def)
      with process_flight [OF L(4,5) p] rl [OF x] show ?thesis by (simp add: to_pending_request_def)
    qed
  qed
qed

section \<open>The loops\<close>

lemma add_used_outstanding:
  assumes "life_contract H D q flight"
  shows "outstanding q flight (snd (q_add_used D i n w)) = outstanding q flight w + {#i#}"
proof -
  note L = life_contract_parts [OF assms]
  have "q_add_used D i n w = (True, snd (q_add_used D i n w))" using L(11) by (metis prod.collapse)
  from add_used [OF L(1) this] L(14) show ?thesis by (simp add: outstanding_def)
qed

lemma undo_outstanding:
  assumes "life_contract H D q flight" "qv_popped (q w) = Some h"
  shows "outstanding q flight (q_undo_pop D w) = outstanding q flight w + {#d_index h#}"
  using undo_pop [OF life_contract_parts(1) [OF assms(1)] assms(2)] life_contract_parts(13) [OF assms(1)]
  by (simp add: outstanding_def)

lemma pop_outstanding:
  assumes "life_contract H D q flight" "q_pop D w = (x, w')"
  shows "outstanding q flight w = outstanding q flight w' + (case x of Inr (Some h) \<Rightarrow> {#d_index h#} | _ \<Rightarrow> {#})"
proof -
  note L = life_contract_parts [OF assms(1)]
  have f: "flight w' = flight w" using L(12) [of w] assms(2) by simp
  consider e where "x = Inl e" | "x = Inr None" | h where "x = Inr (Some h)" by (cases x; cases "projr x") auto
  then show ?thesis
  proof cases
    case 1
    with f pop_Err [OF L(1)] assms(2) have "q w' = q w" by blast
    with 1 f show ?thesis by (simp add: outstanding_def)
  next
    case 2
    with f pop_None [OF L(1)] assms(2) have "q w' = q w" by blast
    with 2 f show ?thesis by (simp add: outstanding_def)
  next
    case (3 h)
    with f pop_Some [OF L(1), of w h w'] assms(2) show ?thesis by (simp add: outstanding_def)
  qed
qed

text \<open>A chain in hand: rate limited, it is back in the queue; otherwise it is submitted or still in hand.\<close>

lemma handle_chain_outstanding:
  assumes "life_contract H D q flight" "handle_chain H D head b w = (r, b', w')" "qv_popped (q w) = Some head"
  shows "outstanding q flight w' =
      outstanding q flight w + (if r = None \<or> r = Some Submitted then {#d_index head#} else {#})"
    and "r \<noteq> None \<Longrightarrow> qv_popped (q w') = Some head"
proof -
  note L = life_contract_parts [OF assms(1)]
  note fl = handle_chain_flight [OF assms(1,2)]
  show "qv_popped (q w') = Some head" if "r \<noteq> None"
    using handle_chain_view(2) [OF L(2) assms(2) that] assms(3) by simp
  show "outstanding q flight w' =
      outstanding q flight w + (if r = None \<or> r = Some Submitted then {#d_index head#} else {#})"
  proof (cases r)
    case None
    then obtain w1 where w1: "w' = q_undo_pop D w1" "q w1 = q w"
      using handle_chain_view(1) [OF L(2) assms(2)] by blast
    with undo_pop [OF L(1), of w1 head] assms(3) None fl show ?thesis by (simp add: outstanding_def)
  next
    case (Some y)
    with handle_chain_view(2) [OF L(2) assms(2)] fl show ?thesis by (simp add: outstanding_def)
  qed
qed

lemma chain_loop_outstanding:
  assumes "life_contract H D q flight" "chain_loop H D u b w = Some (res, b', w')"
  shows "outstanding q flight w' = outstanding q flight w"
proof -
  have "life_contract H D q flight \<Longrightarrow> outstanding q flight (snd (snd r)) = outstanding q flight w"
    if "chain_loop H D u b w = Some r" for u b w r
    using that
  proof (induction rule: chain_loop.raw_induct [rotated, consumes 1, case_names step])
    case (step loop H D u b w r)
    note C = step(3)
    obtain x w1 where p: "q_pop D w = (x, w1)" by (cases "q_pop D w")
    note pop = pop_outstanding [OF C p]
    consider e where "x = Inl e" | "x = Inr None" | head where "x = Inr (Some head)"
      by (cases x; cases "projr x") auto
    then show ?case
    proof cases
      case (3 head)
      define b1 where "b1 = b\<lparr>metrics := (metrics b)\<lparr>remaining_reqs_count :=
             remaining_reqs_count (metrics b) + q_len D w1\<rparr>\<rparr>"
      obtain y b2 w2 where h: "handle_chain H D head b1 w1 = (y, b2, w2)" by (cases "handle_chain H D head b1 w1")
      have popped: "qv_popped (q w1) = Some head"
        using pop_Some [OF life_contract_parts(1) [OF C] p [unfolded 3]] by simp
      note hc = handle_chain_outstanding [OF C h popped]
      note undo = undo_outstanding [OF C hc(2)] and add = add_used_outstanding [OF C]
      show ?thesis
        using step(1,2) C p 3 pop hc(1) h undo add
        by (auto simp: b1_def [symmetric] Let_def split: option.splits processing_result.splits)
    qed (use step(2) p pop in auto)
  qed
  from this [OF assms(2,1)] show ?thesis by simp
qed

lemma completion_loop_outstanding:
  assumes "life_contract H D q flight" "completion_loop H D b w = Some (b', w')"
  shows "outstanding q flight w' = outstanding q flight w"
proof -
  have "life_contract H D q flight \<Longrightarrow> outstanding q flight (snd r) = outstanding q flight w"
    if "completion_loop H D b w = Some r" for b w r
    using that
  proof (induction rule: completion_loop.raw_induct [rotated, consumes 1, case_names step])
    case (step loop H D b w r)
    note L = life_contract_parts [OF step(3)]
    obtain x w1 where p: "e_pop D w = (x, w1)" by (cases "e_pop D w")
    have qw1: "q w1 = q w" using L(9) [of w] p by simp
    show ?case
    proof (cases "\<exists>c. x = Inr (Some c)")
      case False
      then have "r = (b, w1)" using step(2) p by (auto split: sum.splits option.splits)
      with flight_pop_none [OF L(4) p] False qw1 show ?thesis by (simp add: outstanding_def)
    next
      case True
      then obtain pend res where x: "x = Inr (Some (pend, res))" by auto
      obtain f m w2 where f: "finish H pend (map_err FileEngineIo res) (metrics b) w1 = (f, m, w2)"
        by (cases "finish H pend (map_err FileEngineIo res) (metrics b) w1")
      have "engine_framed H q" using L(2) by (simp add: queue_framed_def)
      then have w2: "q w2 = q w1" "flight w2 = flight w1"
        using finish_framed [of H q pend "map_err FileEngineIo res" "metrics b" w1]
          finish_flight [OF L(5), of pend "map_err FileEngineIo res" "metrics b" w1] f by simp_all
      have "outstanding q flight w = outstanding q flight w2 + {#f_desc_idx f#}"
        using flight_pop [OF L(4) p [unfolded x]] w2 qw1 finish_desc_idx [OF f] by (simp add: outstanding_def)
      then have "outstanding q flight (snd (q_add_used D (f_desc_idx f) (num_bytes_to_mem f) w2)) = outstanding q flight w"
        using add_used_outstanding [OF step(3)] by simp
      with step(1) [OF _ step(3)] step(2) p x f show ?thesis by auto
    qed
  qed
  from this [OF assms(2,1)] show ?thesis by simp
qed

section \<open>The events of the device\<close>

lemma outstanding_cong: "q w' = q w \<Longrightarrow> flight w' = flight w \<Longrightarrow> outstanding q flight w' = outstanding q flight w"
  by (simp add: outstanding_def)

lemma kick_guest_outstanding:
  assumes "life_contract H D q flight" "kick_guest D b w = (b', w')"
  shows "outstanding q flight w' = outstanding q flight w"
  using kick_guest_framed [of D q b w] kick_guest_framed [of D flight b w] life_contract_parts [OF assms(1)] assms(2)
  by (intro outstanding_cong) simp_all

lemma finish_queue_outstanding:
  assumes "life_contract H D q flight" "finish_queue D u b w = (b', w')"
  shows "outstanding q flight w' = outstanding q flight w"
  using finish_queue_framed [of D q u b w] finish_queue_framed [of D flight u b w]
    life_contract_parts [OF assms(1)] assms(2)
  by (intro outstanding_cong) simp_all

lemma process_queue_outstanding:
  assumes "life_contract H D q flight" "process_queue H D b w = Some (r, b', w')"
  shows "outstanding q flight w' = outstanding q flight w"
  using assms(2) chain_loop_outstanding [OF assms(1)] finish_queue_outstanding [OF assms(1)]
  by (auto simp: process_queue_def split: if_splits option.splits sum.splits prod.splits)

lemma unwrap_queue_outstanding:
  assumes "life_contract H D q flight" "unwrap_queue (process_queue H D b w) = Some (r, b', w')"
  shows "outstanding q flight w' = outstanding q flight w"
  using assms(2) process_queue_outstanding [OF assms(1)]
  by (cases "process_queue H D b w" rule: unwrap_queue.cases) auto

lemma advance_outstanding:
  "life_contract H D q flight \<Longrightarrow> outstanding q flight (q_advance_used_ring_idx D w) = outstanding q flight w"
  using life_contract_parts [of H D q flight] by (intro outstanding_cong) (simp_all add: kick_framed_def)

lemma completion_queue_outstanding:
  assumes "life_contract H D q flight" "process_async_completion_queue H D b w = Some (r, b', w')"
  shows "outstanding q flight w' = outstanding q flight w"
  using assms(2) completion_loop_outstanding [OF assms(1)] kick_guest_outstanding [OF assms(1)]
    advance_outstanding [OF assms(1)]
  by (auto simp: process_async_completion_queue_def split: if_splits option.splits prod.splits)

lemma device_outstanding:
  assumes "life_contract H D q flight"
  shows "outstanding q flight (snd (q_initialize D w)) = outstanding q flight w"
    "outstanding q flight (q_enable_notif_suppression D w) = outstanding q flight w"
    "outstanding q flight (snd (i_trigger_config D w)) = outstanding q flight w"
    "outstanding q flight (snd (ev_queue_read D w)) = outstanding q flight w"
    "outstanding q flight (snd (ev_completion_read D w)) = outstanding q flight w"
    "outstanding q flight (snd (ev_activate_write D w)) = outstanding q flight w"
    "outstanding q flight (snd (rl_event_handler D w)) = outstanding q flight w"
    "outstanding q flight (snd (f_open D path rw w)) = outstanding q flight w"
    "outstanding q flight (snd (f_seek_end D f w)) = outstanding q flight w"
    "outstanding q flight (e_drain_and_flush D x w) = outstanding q flight w"
  using life_contract_parts(3,6) [OF assms] by (simp_all add: outstanding_def device_framed_def)

lemma event_outstanding:
  assumes "life_contract H D q flight"
  shows "process_queue_event H D b w = Some (r, b', w') \<Longrightarrow> outstanding q flight w' = outstanding q flight w"
    and "process_rate_limiter_event H D b w = Some (r, b', w') \<Longrightarrow> outstanding q flight w' = outstanding q flight w"
    and "process_async_completion_event H D b w = Some (r, b', w') \<Longrightarrow> outstanding q flight w' = outstanding q flight w"
    and "prepare_save H D b w = Some (r, b', w') \<Longrightarrow> outstanding q flight w' = outstanding q flight w"
    and "activate D b w = (x, b', w') \<Longrightarrow> outstanding q flight w' = outstanding q flight w"
proof -
  note D = device_outstanding [OF assms]
  note Q = unwrap_queue_outstanding [OF assms] and C = completion_queue_outstanding [OF assms]
  show "process_queue_event H D b w = Some (r, b', w') \<Longrightarrow> outstanding q flight w' = outstanding q flight w"
    using Q D(4) [of w]
    by (auto simp: process_queue_event_def process_virtio_queues_def Let_def split: prod.splits bool.splits if_splits)
  show "process_rate_limiter_event H D b w = Some (r, b', w') \<Longrightarrow> outstanding q flight w' = outstanding q flight w"
    using Q D(7) [of w]
    by (auto simp: process_rate_limiter_event_def Let_def split: prod.splits bool.splits)
  show "process_async_completion_event H D b w = Some (r, b', w') \<Longrightarrow> outstanding q flight w' = outstanding q flight w"
    using D(5) [of w]
    by (auto simp: process_async_completion_event_def split: prod.splits bool.splits if_splits option.splits
        dest!: Q C)
  show "prepare_save H D b w = Some (r, b', w') \<Longrightarrow> outstanding q flight w' = outstanding q flight w"
    using C D(10) by (auto simp: prepare_save_def drain_and_flush_def Let_def split: if_splits)
  show "activate D b w = (x, b', w') \<Longrightarrow> outstanding q flight w' = outstanding q flight w"
    using D(1) [of w] D(2) [of "snd (q_initialize D w)"] D(6)
    by (auto simp: activate_def Let_def split: prod.splits sum.splits bool.splits if_splits) (metis snd_conv)+
qed

lemma update_disk_outstanding:
  assumes "life_contract H D q flight" "update_disk D path ro d w = (r, d', w')"
  shows "outstanding q flight w' \<subseteq># outstanding q flight w"
proof -
  note L = life_contract_parts [OF assms(1)] and D = device_outstanding [OF assms(1)]
  have upd: "outstanding q flight (snd (e_update_file_path D f v)) \<subseteq># outstanding q flight v" for f v
    using flight_update [OF L(4), of f v] L(10)
    by (auto simp: outstanding_def intro!: subset_mset.add_mono image_mset_subseteq_mono)
  obtain y w1 where o: "f_open D path (\<not> ro) w = (y, w1)" by (cases "f_open D path (\<not> ro) w")
  have o1: "outstanding q flight w1 = outstanding q flight w" using D(8) [of path "\<not> ro" w] o by simp
  have sk: "outstanding q flight w2 = outstanding q flight w1" if "f_seek_end D f w1 = (z, w2)" for f z w2
    using D(9) [of f w1] that by simp
  have up: "outstanding q flight w3 \<subseteq># outstanding q flight w2" if "e_update_file_path D f w2 = (z, w3)" for f z w2 w3
    using upd [of f w2] that by simp
  show ?thesis
    using assms(2) o o1 sk up
    by (auto simp: update_disk_def open_file_def file_size_def Let_def split: prod.splits sum.splits) (metis)+
qed

text \<open>The events that leave the backing file as it is.\<close>

fun keeps_file :: "block_event \<Rightarrow> bool" where
  "keeps_file (UpdateDisk _) = False"
| "keeps_file _ = True"

definition calm_step ::
  "'w block_host \<Rightarrow> ('w, 'rl, 'u) dev_host \<Rightarrow> block_event \<Rightarrow> virtio_block \<times> 'w \<Rightarrow> (virtio_block \<times> 'w) option" where
  "calm_step H D ev s = (if keeps_file ev then block_step H D ev s else None)"

lemma block_step_outstanding:
  assumes "life_contract H D q flight" "block_step H D ev s = Some s'" "keeps_file ev"
  shows "outstanding q flight (snd s') = outstanding q flight (snd s)"
  using assms(2,3) event_outstanding [OF assms(1)]
  by (cases s; cases s'; cases ev) (auto simp: completed_Some split: prod.splits)

lemma block_step_no_new:
  assumes "life_contract H D q flight" "block_step H D ev s = Some s'"
  shows "outstanding q flight (snd s') \<subseteq># outstanding q flight (snd s)"
proof (cases "keeps_file ev")
  case True
  then show ?thesis using block_step_outstanding [OF assms] by simp
next
  case False
  then obtain path where ev: "ev = UpdateDisk path" by (cases ev) auto
  obtain b w where s: "s = (b, w)" by (cases s)
  obtain r d w1 where u: "update_disk D path (read_only b) (disk b) w = (r, d, w1)"
    by (cases "update_disk D path (read_only b) (disk b) w")
  have "outstanding q flight (snd s') = outstanding q flight w1"
    using assms(2) ev s u device_outstanding(3) [OF assms(1), of w1]
    by (auto simp: update_disk_image_def Let_def split: sum.splits prod.splits bool.splits if_splits)
  with update_disk_outstanding [OF assms(1) u] s show ?thesis by simp
qed

interpretation account_kept:
  machine_invariant "calm_step H D" s0
    "\<lambda>s. life_contract H D q flight \<longrightarrow> outstanding q flight (snd s) = outstanding q flight (snd s0)"
    for H D q flight s0
  by unfold_locales (auto simp: calm_step_def block_step_outstanding split: if_splits)

interpretation account_bounded:
  machine_invariant "block_step H D" s0
    "\<lambda>s. life_contract H D q flight \<longrightarrow> outstanding q flight (snd s) \<subseteq># outstanding q flight (snd s0)"
    for H D q flight s0
  by unfold_locales (auto dest: block_step_no_new intro: subset_mset.trans)

section \<open>Properties\<close>

text \<open>
  C12: no chain is answered twice. Let a device start with an empty used ring and nothing in flight, and
  with available chains of different indices. After any sequence of its events, completions in any order and
  changes of the backing file included, the used ring names each chain at most once, only chains that were
  available, and none that is still in the queue or in flight.
\<close>

theorem no_chain_answered_twice:
  assumes "life_contract H D q flight" "reaches (block_step H D) (b0, w0) (b, w)"
    and "qv_used (q w0) = []" "flight w0 = {#}" "distinct (map d_index (qv_avail (q w0)))"
  shows "distinct (map fst (qv_used (q w))) \<and>
    fst ` set (qv_used (q w)) \<subseteq> d_index ` set (qv_avail (q w0)) \<and>
    fst ` set (qv_used (q w)) \<inter> (d_index ` set (qv_avail (q w)) \<union> p_desc_idx ` set_mset (flight w)) = {}"
proof -
  have "outstanding q flight w \<subseteq># mset (map d_index (qv_avail (q w0)))"
    using account_bounded.invar_reachable [OF assms(2), rule_format, OF assms(1)] assms(3,4)
    by (simp add: outstanding_def)
  from split_distinct_mset [OF this [unfolded outstanding_def] assms(5)] show ?thesis by simp
qed

text \<open>
  C11: no chain is lost. As long as the backing file is not changed, every chain that was available is still
  in the queue, in flight, or answered; so when queue and engine have run empty, each of them has
  exactly one used entry.
\<close>

theorem no_chain_lost:
  assumes "life_contract H D q flight" "reaches (calm_step H D) (b0, w0) (b, w)"
    and "qv_used (q w0) = []" "flight w0 = {#}"
  shows "mset (map d_index (qv_avail (q w0))) =
      mset (map d_index (qv_avail (q w))) + image_mset p_desc_idx (flight w) + mset (map fst (qv_used (q w))) \<and>
    (qv_avail (q w) = [] \<and> flight w = {#} \<longrightarrow>
       mset (map fst (qv_used (q w))) = mset (map d_index (qv_avail (q w0))))"
  using account_kept.invar_reachable [OF assms(2), rule_format, OF assms(1)] assms(3,4)
  by (auto simp: outstanding_def)

section \<open>An engine with requests in flight\<close>

text \<open>A queue in a list beside the requests in flight, completed in order; a new file drops them.\<close>

type_synonym async_world = "queue_view \<times> pending_request list"

definition async_dev :: "(async_world, unit, unit) dev_host" where
  "async_dev = idle_dev
     \<lparr> q_pop := \<lambda>(v, fl). (case q_pop list_queue v of (r, v') \<Rightarrow> (r, v', fl)),
       q_undo_pop := \<lambda>(v, fl). (q_undo_pop list_queue v, fl),
       q_add_used := \<lambda>i n (v, fl). (case q_add_used list_queue i n v of (r, v') \<Rightarrow> (r, v', fl)),
       e_pop := \<lambda>(v, fl). (case fl of [] \<Rightarrow> (Inr None, v, []) | p # ps \<Rightarrow> (Inr (Some (p, Inr (p_data_len p))), v, ps)),
       e_update_file_path := \<lambda>_ (v, fl). (Ok (), v, []) \<rparr>"

definition async_engine :: "async_world block_host" where
  "async_engine = (queue_guest False)
     \<lparr> e_read := \<lambda>_ _ _ p (v, fl). (EngineSubmitted, v, fl @ [p]),
       e_write := \<lambda>_ _ _ p (v, fl). (EngineSubmitted, v, fl @ [p]),
       e_flush := \<lambda>p (v, fl). (EngineSubmitted, v, fl @ [p]) \<rparr>"

lemmas async_defs = async_dev_def async_engine_def list_queue_def idle_dev_def queue_guest_def

lemma async_contract: "life_contract async_engine async_dev fst (\<lambda>w. mset (snd w))"
proof -
  have "queue_contract async_dev fst"
    by (auto simp: queue_contract_def async_defs Let_def split: list.splits prod.splits)
  moreover have "flight_contract async_engine async_dev (\<lambda>w. mset (snd w))"
    by (auto simp: flight_contract_def async_defs Let_def split: list.splits prod.splits)
  ultimately show ?thesis
    by (simp add: life_contract_def queue_framed_def engine_framed_def device_framed_def kick_framed_def
        host_framed_def async_defs Let_def split_beta split: list.split)
qed

definition async_block :: virtio_block where
  "async_block = demo_block\<lparr>disk := (disk demo_block)\<lparr>file_engine := Async\<rparr>\<rparr>"

definition async_start :: async_world where
  "async_start = (\<lparr>qv_avail = [request_chain 0x1000 1024, status_chain], qv_used = [], qv_popped = None\<rparr>, [])"

lemma async_ops:
  "q_pop async_dev (v, fl) = (case qv_avail v of
     [] \<Rightarrow> (Inr None, v, fl) | h # hs \<Rightarrow> (Inr (Some h), v\<lparr>qv_avail := hs, qv_popped := Some h\<rparr>, fl))"
  "q_len async_dev w = 0" "q_add_used async_dev i n (v, fl) = (True, v\<lparr>qv_used := qv_used v @ [(i, n)]\<rparr>, fl)"
  "q_advance_used_ring_idx async_dev w = w" "q_prepare_kick async_dev w = (True, w)"
  "i_trigger_queue async_dev w = (True, w)" "ev_queue_read async_dev w = (True, w)"
  "ev_completion_read async_dev w = (True, w)" "rl_is_blocked async_dev w = False"
  "e_kick_submission_queue async_dev w = w"
  "e_pop async_dev (v, fl) =
     (case fl of [] \<Rightarrow> (Inr None, v, []) | p # ps \<Rightarrow> (Inr (Some (p, Inr (p_data_len p))), v, ps))"
  "g_write_status async_engine c a w = (Ok (), w)" "rl_consume async_engine k t w = (True, w)"
  "t_cell async_engine w = Some None" "e_read async_engine off a len p (v, fl) = (EngineSubmitted, v, fl @ [p])"
  by (simp_all add: async_defs Let_def split: list.split)

lemma async_handle:
  assumes "nsectors (disk b) = 8"
  shows "handle_chain async_engine async_dev (request_chain 0x1000 1024) b (v, fl) =
      (Some Submitted, b, v, fl @ [to_pending_request demo_read 0])"
    and "handle_chain async_engine async_dev status_chain b (v, fl) =
      (Some (Executed \<lparr>num_bytes_to_mem = 0, f_desc_idx = 2\<rparr>),
       b\<lparr>metrics := (metrics b)\<lparr>execute_fails := execute_fails (metrics b) + 1\<rparr>\<rparr>, v, fl)"
proof -
  have "g_read_header async_engine a w = Ok \<lparr>h_request_type = VIRTIO_BLK_T_IN, h_reserved = 0, h_sector = 3\<rparr>" for a w
    by (simp add: async_defs Let_def)
  then have p: "parse async_engine (request_chain 0x1000 1024) 8 w = Ok demo_read" for w
    by (simp add: parse_def request_chain_def status_chain_def request_type_from_def virtio_defs
        parse_descs_def check_data_desc_def check_validity_def check_status_desc_def demo_read_def
        checked_add_def Let_def)
  then show "handle_chain async_engine async_dev (request_chain 0x1000 1024) b (v, fl) =
      (Some Submitted, b, v, fl @ [to_pending_request demo_read 0])"
    using assms by (simp add: handle_chain_def rate_limit_def async_ops process_def submit_def trace_record_def
        trace_config_def process_engine_result_def Let_def demo_read_def request_chain_def)
  show "handle_chain async_engine async_dev status_chain b (v, fl) =
      (Some (Executed \<lparr>num_bytes_to_mem = 0, f_desc_idx = 2\<rparr>),
       b\<lparr>metrics := (metrics b)\<lparr>execute_fails := execute_fails (metrics b) + 1\<rparr>\<rparr>, v, fl)"
    by (simp add: handle_chain_def parse_def status_chain_def)
qed

lemma async_queue:
  "\<exists>b v. process_queue_event async_engine async_dev async_block async_start =
     Some (Some (), b, v, [to_pending_request demo_read 0]) \<and> qv_avail v = [] \<and> activated b \<and>
     file_engine (disk b) = Async \<and> \<not> is_io_engine_throttled b"
  by (simp add: process_queue_event_def process_virtio_queues_def process_queue_def async_start_def async_ops
      async_block_def demo_block_def chain_loop.simps async_handle Let_def finish_queue_def kick_guest_def)

lemma async_completion:
  assumes "activated b" "file_engine (disk b) = Async" "\<not> is_io_engine_throttled b"
  shows "\<exists>b' v'. process_async_completion_event async_engine async_dev b (v, [p]) = Some (Some (), b', v', []) \<and>
    qv_avail v' = qv_avail v"
proof -
  obtain f m where f: "finish async_engine p (Ok (p_data_len p)) (metrics b) (v, []) = (f, m, v, [])"
    by (simp add: finish_def write_status_and_finish_def Let_def async_ops split_beta)
  show ?thesis
    using assms f
    by (simp add: process_async_completion_event_def process_async_completion_queue_def async_ops
        completion_loop.simps kick_guest_def Let_def)
qed

lemma async_run:
  "\<exists>b v. exec_all (calm_step async_engine async_dev) [QueueEvent, CompletionEvent] (async_block, async_start)
       = Some (b, v, []) \<and> qv_avail v = []"
proof -
  obtain b v where q: "process_queue_event async_engine async_dev async_block async_start =
      Some (Some (), b, v, [to_pending_request demo_read 0])" "qv_avail v = []"
    and b: "activated b" "file_engine (disk b) = Async" "\<not> is_io_engine_throttled b"
    using async_queue by blast
  obtain b' v' where "process_async_completion_event async_engine async_dev b (v, [to_pending_request demo_read 0]) =
      Some (Some (), b', v', [])" "qv_avail v' = qv_avail v"
    using async_completion [OF b] by blast
  with q show ?thesis by (simp add: calm_step_def)
qed

lemma calm_reaches: "reaches (calm_step H D) s s' \<Longrightarrow> reaches (block_step H D) s s'"
  by (induction rule: reaches.induct)
    (auto simp: calm_step_def intro: reaches.intros split: if_splits)

lemma async_start_facts:
  "qv_used (fst async_start) = []" "mset (snd async_start) = {#}"
  "map d_index (qv_avail (fst async_start)) = [0, 2]"
  by (simp_all add: async_start_def request_chain_def status_chain_def)

theorem no_chain_lost_witness:
  "\<exists>b w. exec_all (calm_step async_engine async_dev) [QueueEvent, CompletionEvent] (async_block, async_start) = Some (b, w) \<and>
     mset (map fst (qv_used (fst w))) = {#0, 2#}"
proof -
  obtain b v where r: "exec_all (calm_step async_engine async_dev) [QueueEvent, CompletionEvent] (async_block, async_start)
      = Some (b, v, [])" and v: "qv_avail v = []" using async_run by blast
  have "mset (map fst (qv_used v)) = mset (map d_index (qv_avail (fst async_start)))"
    using conjunct2 [OF no_chain_lost [OF async_contract exec_all_reaches [OF r] async_start_facts(1,2)]] v by simp
  also have "\<dots> = {#0, 2#}" unfolding async_start_facts(3) by simp
  finally show ?thesis using r by (intro exI [of _ b] exI [of _ "(v, [])"]) simp
qed

theorem no_chain_answered_twice_witness:
  "\<exists>b w. exec_all (calm_step async_engine async_dev) [QueueEvent, CompletionEvent] (async_block, async_start) = Some (b, w) \<and>
     distinct (map fst (qv_used (fst w))) \<and> fst ` set (qv_used (fst w)) \<subseteq> {0, 2}"
proof -
  obtain b v where r: "exec_all (calm_step async_engine async_dev) [QueueEvent, CompletionEvent] (async_block, async_start)
      = Some (b, v, [])" using async_run by blast
  have "distinct (map d_index (qv_avail (fst async_start)))" "d_index ` set (qv_avail (fst async_start)) = {0, 2}"
    using async_start_facts(3) by (simp_all flip: set_map)
  with no_chain_answered_twice [OF async_contract calm_reaches [OF exec_all_reaches [OF r]] async_start_facts(1,2)] r
  show ?thesis by (intro exI [of _ b] exI [of _ "(v, [])"]) simp
qed

end
