(* ===== verification/Block_Wakeup.thy ===== *)
theory Block_Wakeup
  imports Block_Lifecycle
begin

text \<open>
  No lost wake-up in the block device. A device stops in the middle of its queue for two reasons: the rate limiter
  refuses a request, or the engine has no room for it. It remembers the second in a flag and then
  ignores queue events. This theory shows that a chain that waits in the queue always has an event to come that
  takes the queue up again, through any interleaving of the device's events with a guest that adds
  chains.
\<close>

section \<open>The contract\<close>

text \<open>
  Two event descriptors are part of the world: whether the guest has notified the queue, and whether the
  engine has signalled completions. Operations that touch neither of them leave the pair alone.
\<close>

definition quiet_framed :: "('w, 'rl, 'u) dev_host \<Rightarrow> ('w \<Rightarrow> 'v) \<Rightarrow> bool" where
  "quiet_framed D view \<longleftrightarrow>
     kick_framed D view \<and> (\<forall>w. view (snd (q_initialize D w)) = view w) \<and>
     (\<forall>w. view (q_enable_notif_suppression D w) = view w) \<and> (\<forall>w. view (snd (ev_activate_write D w)) = view w) \<and>
     (\<forall>w. view (snd (q_pop D w)) = view w) \<and> (\<forall>w. view (q_undo_pop D w) = view w) \<and>
     (\<forall>i n w. view (snd (q_add_used D i n w)) = view w) \<and> (\<forall>w. view (snd (e_pop D w)) = view w)"

text \<open>
  Reading a descriptor clears it when it succeeds. Requests that are waited for signal their
  completion. A refused request leaves the limiter blocked, until its event is handled, and the engine
  refuses a request for lack of room only while others are in flight.
\<close>

definition event_contract ::
  "'w block_host \<Rightarrow> ('w, 'rl, 'u) dev_host \<Rightarrow> ('w \<Rightarrow> pending_request multiset) \<Rightarrow> ('w \<Rightarrow> bool \<times> bool) \<Rightarrow> bool" where
  "event_contract H D flight events \<longleftrightarrow>
     queue_framed H events \<and> quiet_framed D events \<and>
     (\<forall>w. snd (events (snd (ev_queue_read D w))) = snd (events w)) \<and>
     (\<forall>w w'. ev_queue_read D w = (False, w') \<longrightarrow> events w' = events w) \<and>
     (\<forall>w. fst (events (snd (ev_completion_read D w))) = fst (events w)) \<and>
     (\<forall>w w'. ev_completion_read D w = (False, w') \<longrightarrow> events w' = events w) \<and>
     (\<forall>w. events (snd (rl_event_handler D w)) = events w) \<and>
     (\<forall>x w. fst (events (e_drain_and_flush D x w)) = fst (events w)) \<and>
     (\<forall>x w. flight w \<noteq> {#} \<or> snd (events w) \<longrightarrow> snd (events (e_drain_and_flush D x w)))"

definition limiter_blocks :: "'w block_host \<Rightarrow> ('w, 'rl, 'u) dev_host \<Rightarrow> bool" where
  "limiter_blocks H D \<longleftrightarrow>
     engine_framed H (rl_is_blocked D) \<and> quiet_framed D (rl_is_blocked D) \<and>
     (\<forall>n t w w'. rl_consume H n t w = (False, w') \<longrightarrow> rl_is_blocked D w') \<and>
     (\<forall>n t w. rl_is_blocked D (rl_replenish H n t w) = rl_is_blocked D w) \<and>
     (\<forall>w. rl_is_blocked D (snd (ev_queue_read D w)) = rl_is_blocked D w) \<and>
     (\<forall>w. rl_is_blocked D (snd (ev_completion_read D w)) = rl_is_blocked D w) \<and>
     (\<forall>w w'. rl_event_handler D w = (False, w') \<longrightarrow> rl_is_blocked D w' = rl_is_blocked D w) \<and>
     (\<forall>x w. rl_is_blocked D (e_drain_and_flush D x w) = rl_is_blocked D w)"

definition throttles_when_full :: "'w block_host \<Rightarrow> ('w \<Rightarrow> pending_request multiset) \<Rightarrow> bool" where
  "throttles_when_full H flight \<longleftrightarrow>
     (\<forall>off a n p w e p' w'. e_read H off a n p w = (EngineErr e p', w') \<and> e_is_throttling_err H e \<longrightarrow> flight w' \<noteq> {#}) \<and>
     (\<forall>off a n p w e p' w'. e_write H off a n p w = (EngineErr e p', w') \<and> e_is_throttling_err H e \<longrightarrow> flight w' \<noteq> {#}) \<and>
     (\<forall>p w e p' w'. e_flush H p w = (EngineErr e p', w') \<and> e_is_throttling_err H e \<longrightarrow> flight w' \<noteq> {#})"

text \<open>
  What happens outside the device: the guest adds chains, and notifies the queue if it was empty; requests complete
  and signal. Popping completions and handling the limiter's event is left to the device.
\<close>

definition guest_contract ::
  "('w, 'rl, 'u) dev_host \<Rightarrow> ('w \<Rightarrow> queue_view) \<Rightarrow> ('w \<Rightarrow> pending_request multiset) \<Rightarrow> ('w \<Rightarrow> bool \<times> bool) \<Rightarrow>
     ('g \<Rightarrow> 'w \<Rightarrow> 'w) \<Rightarrow> bool" where
  "guest_contract D q flight events guest \<longleftrightarrow>
     (\<forall>g w. flight (guest g w) = flight w \<and> rl_is_blocked D (guest g w) = rl_is_blocked D w \<and>
        (fst (events w) \<longrightarrow> fst (events (guest g w))) \<and> (snd (events w) \<longrightarrow> snd (events (guest g w))) \<and>
        (qv_avail (q w) = [] \<longrightarrow> qv_avail (q (guest g w)) = [] \<or> fst (events (guest g w))))"

text \<open>The part of the contract that the loop over the queue needs.\<close>

definition loop_contract ::
  "'w block_host \<Rightarrow> ('w, 'rl, 'u) dev_host \<Rightarrow> ('w \<Rightarrow> queue_view) \<Rightarrow> ('w \<Rightarrow> pending_request multiset) \<Rightarrow>
     ('w \<Rightarrow> bool \<times> bool) \<Rightarrow> bool" where
  "loop_contract H D q flight events \<longleftrightarrow>
     life_contract H D q flight \<and> queue_framed H events \<and> quiet_framed D events \<and> limiter_blocks H D \<and>
     throttles_when_full H flight"

lemma loop_contract_parts:
  assumes "loop_contract H D q flight events"
  shows "life_contract H D q flight" "queue_framed H events" "quiet_framed D events" "limiter_blocks H D"
    "throttles_when_full H flight"
  using assms by (simp_all only: loop_contract_def)

definition wake_contract ::
  "'w block_host \<Rightarrow> ('w, 'rl, 'u) dev_host \<Rightarrow> ('w \<Rightarrow> queue_view) \<Rightarrow> ('w \<Rightarrow> pending_request multiset) \<Rightarrow>
     ('w \<Rightarrow> bool \<times> bool) \<Rightarrow> ('g \<Rightarrow> 'w \<Rightarrow> 'w) \<Rightarrow> bool" where
  "wake_contract H D q flight events guest \<longleftrightarrow>
     life_contract H D q flight \<and> event_contract H D flight events \<and> limiter_blocks H D \<and>
     throttles_when_full H flight \<and> guest_contract D q flight events guest"

lemma wake_contract_parts:
  assumes "wake_contract H D q flight events guest"
  shows "life_contract H D q flight" "event_contract H D flight events" "limiter_blocks H D"
    "throttles_when_full H flight" "guest_contract D q flight events guest"
    "queue_framed H events" "quiet_framed D events" "engine_framed H (rl_is_blocked D)"
    "quiet_framed D (rl_is_blocked D)"
proof -
  show "life_contract H D q flight" and e: "event_contract H D flight events" and b: "limiter_blocks H D"
    and "throttles_when_full H flight" "guest_contract D q flight events guest"
    using assms by (simp_all only: wake_contract_def)
  from e show "queue_framed H events" "quiet_framed D events" unfolding event_contract_def by blast+
  from b show "engine_framed H (rl_is_blocked D)" "quiet_framed D (rl_is_blocked D)"
    unfolding limiter_blocks_def by blast+
qed

lemma wake_loop: "wake_contract H D q flight events guest \<Longrightarrow> loop_contract H D q flight events"
  using wake_contract_parts [of H D q flight events guest] by (simp only: loop_contract_def)

lemma event_contract_facts:
  assumes "event_contract H D flight events"
  shows "snd (events (snd (ev_queue_read D w))) = snd (events w)"
    and "ev_queue_read D w = (False, w') \<Longrightarrow> events w' = events w"
    and "fst (events (snd (ev_completion_read D w))) = fst (events w)"
    and "ev_completion_read D w = (False, w') \<Longrightarrow> events w' = events w"
    and "events (snd (rl_event_handler D w)) = events w"
    and "fst (events (e_drain_and_flush D x w)) = fst (events w)"
    and "flight w \<noteq> {#} \<or> snd (events w) \<Longrightarrow> snd (events (e_drain_and_flush D x w))"
  using assms unfolding event_contract_def by blast+

lemma limiter_blocks_facts:
  assumes "limiter_blocks H D"
  shows "rl_consume H n t w = (False, w') \<Longrightarrow> rl_is_blocked D w'"
    and "rl_is_blocked D (rl_replenish H n t w) = rl_is_blocked D w"
    and "rl_is_blocked D (snd (ev_queue_read D w)) = rl_is_blocked D w"
    and "rl_is_blocked D (snd (ev_completion_read D w)) = rl_is_blocked D w"
    and "rl_event_handler D w = (False, w') \<Longrightarrow> rl_is_blocked D w' = rl_is_blocked D w"
    and "rl_is_blocked D (e_drain_and_flush D x w) = rl_is_blocked D w"
proof -
  note laws = assms [unfolded limiter_blocks_def, THEN conjunct2, THEN conjunct2]
  show "rl_consume H n t w = (False, w') \<Longrightarrow> rl_is_blocked D w'" by (rule laws [THEN conjunct1, rule_format])
  note laws = laws [THEN conjunct2]
  show "rl_is_blocked D (rl_replenish H n t w) = rl_is_blocked D w" by (rule laws [THEN conjunct1, rule_format])
  note laws = laws [THEN conjunct2]
  show "rl_is_blocked D (snd (ev_queue_read D w)) = rl_is_blocked D w" by (rule laws [THEN conjunct1, rule_format])
  note laws = laws [THEN conjunct2]
  show "rl_is_blocked D (snd (ev_completion_read D w)) = rl_is_blocked D w"
    by (rule laws [THEN conjunct1, rule_format])
  note laws = laws [THEN conjunct2]
  show "rl_event_handler D w = (False, w') \<Longrightarrow> rl_is_blocked D w' = rl_is_blocked D w"
    by (rule laws [THEN conjunct1, rule_format])
  show "rl_is_blocked D (e_drain_and_flush D x w) = rl_is_blocked D w"
    by (rule laws [THEN conjunct2, rule_format])
qed

section \<open>The wake-up\<close>

text \<open>The flag is set only while an event of the engine is to come.\<close>

definition flag_backed :: "('w \<Rightarrow> pending_request multiset) \<Rightarrow> ('w \<Rightarrow> bool \<times> bool) \<Rightarrow> virtio_block \<Rightarrow> 'w \<Rightarrow> bool" where
  "flag_backed flight events b w \<longleftrightarrow> (is_io_engine_throttled b \<longrightarrow> flight w \<noteq> {#} \<or> snd (events w))"

text \<open>Why a queue is left with chains in it.\<close>

definition parked :: "('w, 'rl, 'u) dev_host \<Rightarrow> ('w \<Rightarrow> queue_view) \<Rightarrow> virtio_block \<Rightarrow> 'w \<Rightarrow> bool" where
  "parked D q b w \<longleftrightarrow> qv_avail (q w) = [] \<or> rl_is_blocked D w \<or> is_io_engine_throttled b"

definition wake_inv ::
  "('w, 'rl, 'u) dev_host \<Rightarrow> ('w \<Rightarrow> queue_view) \<Rightarrow> ('w \<Rightarrow> pending_request multiset) \<Rightarrow> ('w \<Rightarrow> bool \<times> bool) \<Rightarrow>
     virtio_block \<times> 'w \<Rightarrow> bool" where
  "wake_inv D q flight events s \<longleftrightarrow>
     (case s of (b, w) \<Rightarrow> flag_backed flight events b w \<and> (parked D q b w \<or> fst (events w)))"

section \<open>One chain\<close>

lemma rate_limit_blocks:
  assumes "limiter_blocks H D" "rate_limit H req w = (True, w')"
  shows "rl_is_blocked D w'"
proof -
  note refused = limiter_blocks_facts(1) [OF assms(1)] and given = limiter_blocks_facts(2) [OF assms(1)]
  obtain ok w1 where c: "rl_consume H 1 Ops w = (ok, w1)" by (cases "rl_consume H 1 Ops w")
  show ?thesis
  proof (cases ok)
    case False
    with c assms(2) refused [of 1 Ops w w1] show ?thesis by (simp add: rate_limit_def)
  next
    case True
    with c assms(2) obtain w2 where "rl_consume H (ucast (rq_data_len req)) Bytes w1 = (False, w2)"
      "w' = rl_replenish H 1 Ops w2"
      by (auto simp: rate_limit_def split: if_splits prod.splits bool.splits)
    with refused [of _ Bytes w1 w2] given show ?thesis by simp
  qed
qed

lemma limiter_quiet: "limiter_blocks H D \<Longrightarrow> quiet_framed D (rl_is_blocked D)"
  unfolding limiter_blocks_def by (rule conjunct1 [OF conjunct2])

lemma submit_throttled:
  assumes "throttles_when_full H flight" "submit H d req p w = (EngineErr e p', w')" "e_is_throttling_err H e"
  shows "flight w' \<noteq> {#}"
  using assms unfolding throttles_when_full_def by (auto simp: submit_def split: request_type.splits)

lemma process_throttled:
  assumes "throttles_when_full H flight" "process H d img req i m w = (Throttled, m', w')"
  shows "flight w' \<noteq> {#}"
proof -
  obtain x w1 where s: "submit H d req (to_pending_request req i) w = (x, w1)"
    by (cases "submit H d req (to_pending_request req i) w")
  from assms(2) obtain e p' where "x = EngineErr e p'" "e_is_throttling_err H e" "w' = w1"
    using s
    by (auto simp: process_def Let_def executed_def process_engine_result_def
        split: request_type.splits prod.splits engine_result.splits if_splits)
  with submit_throttled [OF assms(1)] s show ?thesis by simp
qed

lemma handle_chain_wake:
  assumes "loop_contract H D q flight events" "handle_chain H D head b w = (r, b', w')"
  shows "is_io_engine_throttled b' = is_io_engine_throttled b" "events w' = events w" "flight w \<subseteq># flight w'"
    "r = None \<Longrightarrow> rl_is_blocked D w'" "r = Some Throttled \<Longrightarrow> flight w' \<noteq> {#}"
proof -
  note W = loop_contract_parts [OF assms(1)]
  note L = life_contract_parts [OF W(1)]
  have ev: "events (q_undo_pop D v) = events v" "rl_is_blocked D (q_undo_pop D v) = rl_is_blocked D v" for v
    using W(3) limiter_quiet [OF W(4)] by (simp_all add: quiet_framed_def)
  have rl: "events w1 = events w" "flight w1 = flight w" if "rate_limit H req w = (x, w1)" for req x w1
    using rate_limit_framed [OF W(2), of req w] rate_limit_flight [OF L(5), of req w] that by simp_all
  have pr: "events w2 = events w1" "flight w1 \<subseteq># flight w2"
    if "process H d img req i m w1 = (y, m', w2)" for d img req i m w1 y m' w2
    using process_framed [of H events d img req i m w1] process_flight [OF L(4,5) that] that W(2)
    by (simp_all add: queue_framed_def)
  show "is_io_engine_throttled b' = is_io_engine_throttled b"
    using assms(2) by (auto simp: handle_chain_def split: sum.splits prod.splits bool.splits)
  show "events w' = events w"
    using assms(2) rl(1) pr(1) ev(1) by (auto simp: handle_chain_def split: sum.splits prod.splits bool.splits)
  show "flight w \<subseteq># flight w'"
    using assms(2) rl(2) pr(2) L(13)
    by (auto simp: handle_chain_def split: sum.splits prod.splits bool.splits) metis+
  show "rl_is_blocked D w'" if "r = None"
    using assms(2) that rate_limit_blocks [OF W(4)] ev(2)
    by (auto simp: handle_chain_def split: sum.splits prod.splits bool.splits)
  show "flight w' \<noteq> {#}" if "r = Some Throttled"
    using assms(2) that process_throttled [OF W(5)]
    by (auto simp: handle_chain_def split: sum.splits prod.splits bool.splits)
qed

section \<open>The loops\<close>

lemma chain_loop_wake:
  assumes "loop_contract H D q flight events" "chain_loop H D u b w = Some (res, b', w')"
    and "flag_backed flight events b w"
  shows "flag_backed flight events b' w'" "is_ok res \<Longrightarrow> parked D q b' w'"
proof -
  have "loop_contract H D q flight events \<Longrightarrow> flag_backed flight events b w \<Longrightarrow>
      flag_backed flight events (fst (snd r)) (snd (snd r)) \<and>
      (is_ok (fst r) \<longrightarrow> parked D q (fst (snd r)) (snd (snd r)))"
    if "chain_loop H D u b w = Some r" for u b w r
    using that
  proof (induction rule: chain_loop.raw_induct [rotated, consumes 1, case_names step])
    case (step loop H D u b w r)
    note W = loop_contract_parts [OF step(3)]
    note L = life_contract_parts [OF W(1)]
    have quiet: "events (q_undo_pop D v) = events v" "events (snd (q_add_used D i n v)) = events v"
      "events (snd (q_pop D v)) = events v" for v i n
      using W(3) by (simp_all add: quiet_framed_def)
    obtain x w1 where p: "q_pop D w = (x, w1)" by (cases "q_pop D w")
    have w1: "events w1 = events w" "flight w1 = flight w" using quiet(3) [of w] L(12) [of w] p by simp_all
    consider e where "x = Inl e" | "x = Inr None" | head where "x = Inr (Some head)"
      by (cases x; cases "projr x") auto
    then show ?case
    proof cases
      case 1
      with step(2,4) p w1 show ?thesis by (auto simp: flag_backed_def)
    next
      case 2
      with step(2,4) p w1 pop_None [OF L(1), of w w1] show ?thesis by (auto simp: flag_backed_def parked_def)
    next
      case (3 head)
      define b1 where "b1 = b\<lparr>metrics := (metrics b)\<lparr>remaining_reqs_count :=
             remaining_reqs_count (metrics b) + q_len D w1\<rparr>\<rparr>"
      obtain y b2 w2 where h: "handle_chain H D head b1 w1 = (y, b2, w2)" by (cases "handle_chain H D head b1 w1")
      note hw = handle_chain_wake [OF step(3) h]
      have "flight w \<noteq> {#} \<Longrightarrow> flight w2 \<noteq> {#}" using hw(3) w1(2) by auto
      then have backed: "flag_backed flight events b2 w2"
        using step(4) hw(1,2) w1 by (auto simp: flag_backed_def b1_def)
      have used: "flag_backed flight events b2 (snd (q_add_used D i n w2))" for i n
        using backed quiet(2) L(14) by (simp add: flag_backed_def)
      show ?thesis
        using step(1) [OF _ step(3) backed] step(1) [OF _ step(3) used] step(2) p 3 h hw(4,5) backed L(13)
        by (auto simp: b1_def [symmetric] Let_def flag_backed_def parked_def
            split: option.splits processing_result.splits)
    qed
  qed
  from this [OF assms(2,1,3)] show "flag_backed flight events b' w'" "is_ok res \<Longrightarrow> parked D q b' w'"
    by simp_all
qed

lemma finish_queue_flag: "finish_queue D u b w = (b', w') \<Longrightarrow> is_io_engine_throttled b' = is_io_engine_throttled b"
  by (auto simp: finish_queue_def kick_guest_def Let_def split: prod.splits bool.splits if_splits)

lemma kick_guest_flag: "kick_guest D b w = (b', w') \<Longrightarrow> is_io_engine_throttled b' = is_io_engine_throttled b"
  by (auto simp: kick_guest_def split: prod.splits bool.splits if_splits)

lemma kick_views:
  assumes "wake_contract H D q flight events guest"
  shows "kick_framed D q" "kick_framed D flight" "kick_framed D events" "kick_framed D (rl_is_blocked D)"
  using life_contract_parts(7,8) [OF wake_contract_parts(1) [OF assms]] wake_contract_parts(7,9) [OF assms]
  by (simp_all only: quiet_framed_def)

text \<open>Taking up the queue leaves it empty or parked for a reason.\<close>

lemma process_queue_wake:
  assumes "wake_contract H D q flight events guest" "flag_backed flight events b w"
    and "unwrap_queue (process_queue H D b w) = Some (Some (), b', w')"
  shows "flag_backed flight events b' w'" "parked D q b' w'"
proof -
  from assms(3) have "process_queue H D b w = Some (Some (Ok ()), b', w')"
    by (cases "process_queue H D b w" rule: unwrap_queue.cases) auto
  then obtain u b1 w1 where l: "chain_loop H D False b w = Some (Ok u, b1, w1)" "finish_queue D u b1 w1 = (b', w')"
    by (auto simp: process_queue_def split: if_splits option.splits sum.splits prod.splits)
  note c = chain_loop_wake [OF wake_loop [OF assms(1)] l(1) assms(2)]
  note K = kick_views [OF assms(1)]
  have same: "q w' = q w1" "flight w' = flight w1" "events w' = events w1" "rl_is_blocked D w' = rl_is_blocked D w1"
    using finish_queue_framed [OF K(1), of u b1 w1] finish_queue_framed [OF K(2), of u b1 w1]
      finish_queue_framed [OF K(3), of u b1 w1] finish_queue_framed [OF K(4), of u b1 w1] l(2) by simp_all
  from c same finish_queue_flag [OF l(2)] show "flag_backed flight events b' w'" "parked D q b' w'"
    by (simp_all add: flag_backed_def parked_def)
qed

lemma completion_loop_wake:
  assumes "wake_contract H D q flight events guest" "completion_loop H D b w = Some (b', w')"
  shows "is_io_engine_throttled b' = is_io_engine_throttled b" "events w' = events w"
    "rl_is_blocked D w' = rl_is_blocked D w" "qv_avail (q w') = qv_avail (q w)"
proof -
  have "wake_contract H D q flight events guest \<Longrightarrow>
      is_io_engine_throttled (fst r) = is_io_engine_throttled b \<and> events (snd r) = events w \<and>
      rl_is_blocked D (snd r) = rl_is_blocked D w \<and> qv_avail (q (snd r)) = qv_avail (q w)"
    if "completion_loop H D b w = Some r" for b w r
    using that
  proof (induction rule: completion_loop.raw_induct [rotated, consumes 1, case_names step])
    case (step loop H D b w r)
    note W = wake_contract_parts [OF step(3)] and L = life_contract_parts [OF wake_contract_parts(1) [OF step(3)]]
    obtain x w1 where p: "e_pop D w = (x, w1)" by (cases "e_pop D w")
    have w1: "events w1 = events w" "rl_is_blocked D w1 = rl_is_blocked D w" "q w1 = q w"
      using W(7,9) L(9) [of w] p by (auto simp: quiet_framed_def) (metis snd_conv)+
    show ?case
    proof (cases "\<exists>c. x = Inr (Some c)")
      case False
      then have "r = (b, w1)" using step(2) p by (auto split: sum.splits option.splits)
      with w1 show ?thesis by simp
    next
      case True
      then obtain pend res where x: "x = Inr (Some (pend, res))" by auto
      obtain f m w2 where f: "finish H pend (map_err FileEngineIo res) (metrics b) w1 = (f, m, w2)"
        by (cases "finish H pend (map_err FileEngineIo res) (metrics b) w1")
      have fr: "engine_framed H q" "engine_framed H events" using L(2) W(6) by (simp_all add: queue_framed_def)
      have w2: "q w2 = q w1" "events w2 = events w1" "rl_is_blocked D w2 = rl_is_blocked D w1"
        using finish_framed [OF fr(1), of pend "map_err FileEngineIo res" "metrics b" w1]
          finish_framed [OF fr(2), of pend "map_err FileEngineIo res" "metrics b" w1]
          finish_framed [OF W(8), of pend "map_err FileEngineIo res" "metrics b" w1] f by simp_all
      define w3 where "w3 = snd (q_add_used D (f_desc_idx f) (num_bytes_to_mem f) w2)"
      have "q_add_used D (f_desc_idx f) (num_bytes_to_mem f) w2 = (True, w3)"
        unfolding w3_def using L(11) by (metis prod.collapse)
      from add_used [OF L(1) this] have "qv_avail (q w3) = qv_avail (q w2)" by simp
      moreover have "events w3 = events w2" "rl_is_blocked D w3 = rl_is_blocked D w2"
        using W(7,9) by (simp_all only: w3_def quiet_framed_def)
      moreover have "loop H D (b\<lparr>metrics := m\<rparr>) w3 = Some r"
        using step(2) p x f by (simp add: w3_def)
      ultimately show ?thesis using step(1) [OF _ step(3)] w1 w2 by fastforce
    qed
  qed
  from this [OF assms(2,1)] show "is_io_engine_throttled b' = is_io_engine_throttled b" "events w' = events w"
    "rl_is_blocked D w' = rl_is_blocked D w" "qv_avail (q w') = qv_avail (q w)" by simp_all
qed

section \<open>The events\<close>

lemma completion_queue_wake:
  assumes "wake_contract H D q flight events guest" "process_async_completion_queue H D b w = Some (Some (), b', w')"
  shows "is_io_engine_throttled b' = is_io_engine_throttled b" "events w' = events w"
    "rl_is_blocked D w' = rl_is_blocked D w" "qv_avail (q w') = qv_avail (q w)"
proof -
  note K = kick_views [OF assms(1)]
  have kick: "view (snd (kick_guest D c (q_advance_used_ring_idx D v))) = view v"
    if "kick_framed D view" for view :: "_ \<Rightarrow> 'z" and c v
    using kick_guest_framed [OF that] that by (simp add: kick_framed_def)
  have "is_io_engine_throttled b' = is_io_engine_throttled b \<and> events w' = events w \<and>
    rl_is_blocked D w' = rl_is_blocked D w \<and> qv_avail (q w') = qv_avail (q w)"
  proof (cases "file_engine (disk b) = Sync")
    case True
    with assms(2) show ?thesis by (simp add: process_async_completion_queue_def)
  next
    case False
    with assms(2) obtain b1 w1 where l: "completion_loop H D b w = Some (b1, w1)"
      "kick_guest D b1 (q_advance_used_ring_idx D w1) = (b', w')"
      by (auto simp: process_async_completion_queue_def split: if_splits option.splits prod.splits)
    from completion_loop_wake [OF assms(1) l(1)] kick_guest_flag [OF l(2)]
      kick [OF K(1), of b1 w1] kick [OF K(3), of b1 w1] kick [OF K(4), of b1 w1] l(2)
    show ?thesis by simp
  qed
  then show "is_io_engine_throttled b' = is_io_engine_throttled b" "events w' = events w"
    "rl_is_blocked D w' = rl_is_blocked D w" "qv_avail (q w') = qv_avail (q w)" by simp_all
qed

lemma wake_inv_cong:
  "is_io_engine_throttled b' = is_io_engine_throttled b \<Longrightarrow> flight w' = flight w \<Longrightarrow> events w' = events w \<Longrightarrow>
     rl_is_blocked D w' = rl_is_blocked D w \<Longrightarrow> qv_avail (q w') = qv_avail (q w) \<Longrightarrow>
     wake_inv D q flight events (b', w') = wake_inv D q flight events (b, w)"
  by (simp add: wake_inv_def flag_backed_def parked_def)

lemma wake_inv_taken_up:
  "wake_contract H D q flight events guest \<Longrightarrow> flag_backed flight events b w \<Longrightarrow>
     unwrap_queue (process_queue H D b w) = Some (Some (), b', w') \<Longrightarrow> wake_inv D q flight events (b', w')"
  using process_queue_wake by (fastforce simp: wake_inv_def)

lemma queue_event_wake:
  assumes "wake_contract H D q flight events guest" "wake_inv D q flight events (b, w)"
    and "process_queue_event H D b w = Some (Some (), b', w')"
  shows "wake_inv D q flight events (b', w')"
proof -
  note W = wake_contract_parts [OF assms(1)] and L = life_contract_parts [OF wake_contract_parts(1) [OF assms(1)]]
  note E = event_contract_facts [OF W(2)] and B = limiter_blocks_facts [OF W(3)]
  obtain ok w1 where r: "ev_queue_read D w = (ok, w1)" by (cases "ev_queue_read D w")
  have "q w1 = q w" "flight w1 = flight w" using L(3,6) r by (auto simp: device_framed_def) (metis snd_conv)+
  moreover have "rl_is_blocked D w1 = rl_is_blocked D w" "snd (events w1) = snd (events w)"
    using B(3) [of w] E(1) [of w] r by simp_all
  moreover have "events w1 = events w" if "\<not> ok" using E(2) r that by simp
  moreover define b1 where "b1 = b\<lparr>metrics := (metrics b)\<lparr>queue_event_count := queue_event_count (metrics b) + 1\<rparr>\<rparr>"
  moreover have "flag_backed flight events b1 w1"
    using assms(2) calculation by (simp add: wake_inv_def flag_backed_def)
  ultimately show ?thesis
    using assms(2,3) r wake_inv_taken_up [OF assms(1), of b1 w1 b' w']
    by (cases ok; cases "rl_is_blocked D w1"; cases "is_io_engine_throttled b")
      (auto simp: process_queue_event_def process_virtio_queues_def Let_def wake_inv_def flag_backed_def parked_def)
qed

lemma rate_limiter_event_wake:
  assumes "wake_contract H D q flight events guest" "wake_inv D q flight events (b, w)"
    and "process_rate_limiter_event H D b w = Some (Some (), b', w')"
  shows "wake_inv D q flight events (b', w')"
proof -
  note W = wake_contract_parts [OF assms(1)] and L = life_contract_parts [OF wake_contract_parts(1) [OF assms(1)]]
  note E = event_contract_facts [OF W(2)] and B = limiter_blocks_facts [OF W(3)]
  obtain ok w1 where r: "rl_event_handler D w = (ok, w1)" by (cases "rl_event_handler D w")
  have "q w1 = q w" "flight w1 = flight w" using L(3,6) r by (auto simp: device_framed_def) (metis snd_conv)+
  moreover have "events w1 = events w" using E(5) [of w] r by simp
  moreover have "rl_is_blocked D w1 = rl_is_blocked D w" if "\<not> ok" using B(5) r that by simp
  moreover define b1 where "b1 = b\<lparr>metrics := (metrics b)\<lparr>rate_limiter_event_count :=
      rate_limiter_event_count (metrics b) + 1\<rparr>\<rparr>"
  moreover have "flag_backed flight events b1 w1"
    using assms(2) calculation by (simp add: wake_inv_def flag_backed_def)
  ultimately show ?thesis
    using assms(2,3) r wake_inv_taken_up [OF assms(1), of b1 w1 b' w']
    by (cases ok) (auto simp: process_rate_limiter_event_def Let_def wake_inv_def flag_backed_def parked_def)
qed

lemma completion_event_wake:
  assumes "wake_contract H D q flight events guest" "wake_inv D q flight events (b, w)"
    and "process_async_completion_event H D b w = Some (Some (), b', w')"
  shows "wake_inv D q flight events (b', w')"
proof (cases "file_engine (disk b) = Sync")
  case True
  with assms(2,3) show ?thesis by (simp add: process_async_completion_event_def)
next
  case False
  note W = wake_contract_parts [OF assms(1)] and L = life_contract_parts [OF wake_contract_parts(1) [OF assms(1)]]
  note E = event_contract_facts [OF W(2)] and B = limiter_blocks_facts [OF W(3)]
  obtain ok w1 where r: "ev_completion_read D w = (ok, w1)" by (cases "ev_completion_read D w")
  have w1: "q w1 = q w" "flight w1 = flight w" using L(3,6) r by (auto simp: device_framed_def) (metis snd_conv)+
  have w1': "rl_is_blocked D w1 = rl_is_blocked D w" "fst (events w1) = fst (events w)"
    using B(4) [of w] E(3) [of w] r by simp_all
  show ?thesis
  proof (cases ok)
    case False
    then have ev: "events w1 = events w" and b': "b' = b" "w' = w1"
      using E(4) r assms(3) \<open>file_engine (disk b) \<noteq> Sync\<close> by (auto simp: process_async_completion_event_def)
    have "wake_inv D q flight events (b, w1) = wake_inv D q flight events (b, w)"
      using w1 w1'(1) ev by (intro wake_inv_cong) simp_all
    with assms(2) b' show ?thesis by simp
  next
    case True
    with assms(3) r False obtain b2 w2 where c: "process_async_completion_queue H D b w1 = Some (Some (), b2, w2)"
      and rest: "(if is_io_engine_throttled b2 then unwrap_queue (process_queue H D (b2\<lparr>is_io_engine_throttled := False\<rparr>) w2)
        else Some (Some (), b2, w2)) = Some (Some (), b', w')"
      by (auto simp: process_async_completion_event_def split: option.splits)
    note cw = completion_queue_wake [OF assms(1) c]
    have "flag_backed flight events (b2\<lparr>is_io_engine_throttled := False\<rparr>) w2" by (simp add: flag_backed_def)
    from wake_inv_taken_up [OF assms(1) this] rest cw w1 w1' assms(2) show ?thesis
      by (auto simp: wake_inv_def flag_backed_def parked_def split: if_splits)
  qed
qed

lemma prepare_save_wake:
  assumes "wake_contract H D q flight events guest" "wake_inv D q flight events (b, w)"
    and "prepare_save H D b w = Some (Some (), b', w')"
  shows "wake_inv D q flight events (b', w')"
proof -
  note W = wake_contract_parts [OF assms(1)] and L = life_contract_parts [OF wake_contract_parts(1) [OF assms(1)]]
  note E = event_contract_facts [OF W(2)] and B = limiter_blocks_facts [OF W(3)]
  let ?w = "e_drain_and_flush D False w"
  have w: "q ?w = q w" "flight ?w = flight w" "rl_is_blocked D ?w = rl_is_blocked D w" "fst (events ?w) = fst (events w)"
    using L(3,6) B(6) E(6) by (simp_all add: device_framed_def)
  have sig: "snd (events ?w)" if "is_io_engine_throttled b"
    using E(7) assms(2) that by (simp add: wake_inv_def flag_backed_def)
  show ?thesis
  proof (cases "activated b \<and> file_engine (disk b) = Async")
    case True
    with assms(3) have "process_async_completion_queue H D b ?w = Some (Some (), b', w')"
      by (simp add: prepare_save_def drain_and_flush_def)
    from completion_queue_wake [OF assms(1) this] w sig assms(2) show ?thesis
      by (auto simp: wake_inv_def flag_backed_def parked_def)
  next
    case False
    with assms(3) have "b' = b \<and> (w' = w \<or> w' = ?w)"
      by (auto simp: prepare_save_def drain_and_flush_def Let_def split: if_splits)
    with w sig assms(2) show ?thesis by (auto simp: wake_inv_def flag_backed_def parked_def)
  qed
qed

lemma activate_view:
  assumes "activate D b w = (x, b', w')" "\<And>v. view (snd (q_initialize D v)) = view v"
    "\<And>v. view (q_enable_notif_suppression D v) = view v" "\<And>v. view (snd (ev_activate_write D v)) = view v"
  shows "view w' = view w"
proof -
  obtain y w1 where i: "q_initialize D w = (y, w1)" by (cases "q_initialize D w")
  define w2 where "w2 = (if has_feature b VIRTIO_RING_F_EVENT_IDX then q_enable_notif_suppression D w1 else w1)"
  have w1: "view w1 = view w" using assms(2) [of w] i by simp
  then have w2: "view w2 = view w" using assms(3) [of w1] by (simp add: w2_def)
  have "w' = w1 \<or> w' = snd (ev_activate_write D w2)"
    using assms(1) i by (auto simp: activate_def w2_def Let_def split: sum.splits prod.splits bool.splits)
  with w1 w2 assms(4) [of w2] show ?thesis by auto
qed

lemma activate_framed:
  assumes "activate D b w = (x, b', w')"
  shows "device_framed D view \<Longrightarrow> view w' = view w"
    and "quiet_framed D view' \<Longrightarrow> view' w' = view' w"
  by (rule activate_view [OF assms]; simp only: device_framed_def quiet_framed_def)+

lemma activate_wake:
  assumes "wake_contract H D q flight events guest" "activate D b w = (x, b', w')"
  shows "wake_inv D q flight events (b', w') = wake_inv D q flight events (b, w)"
proof -
  note W = wake_contract_parts [OF assms(1)] and L = life_contract_parts [OF wake_contract_parts(1) [OF assms(1)]]
  have "is_io_engine_throttled b' = is_io_engine_throttled b"
    using assms(2) by (auto simp: activate_def Let_def split: prod.splits sum.splits bool.splits)
  from wake_inv_cong [where flight = flight and events = events and q = q and D = D, OF this]
  show ?thesis
    using activate_framed [OF assms(2)] L(3,6) W(7,9) by metis
qed

lemma calm_step_wake:
  assumes "wake_contract H D q flight events guest" "wake_inv D q flight events s" "calm_step H D ev s = Some s'"
  shows "wake_inv D q flight events s'"
proof -
  obtain b w b' w' where s: "s = (b, w)" "s' = (b', w')" by (cases s; cases s')
  note inv = assms(2) [unfolded s]
  have e: "block_step H D ev (b, w) = Some (b', w')" "keeps_file ev"
    using assms(3) s by (auto simp: calm_step_def split: if_splits)
  show ?thesis unfolding s
  proof (cases ev)
    case QueueEvent
    with e(1) queue_event_wake [OF assms(1) inv] show "wake_inv D q flight events (b', w')"
      by (simp add: completed_Some)
  next
    case RateLimiterEvent
    with e(1) rate_limiter_event_wake [OF assms(1) inv] show "wake_inv D q flight events (b', w')"
      by (simp add: completed_Some)
  next
    case CompletionEvent
    with e(1) completion_event_wake [OF assms(1) inv] show "wake_inv D q flight events (b', w')"
      by (simp add: completed_Some)
  next
    case (UpdateDisk path)
    with e(2) show "wake_inv D q flight events (b', w')" by simp
  next
    case Activate
    with e(1) activate_wake [OF assms(1)] inv show "wake_inv D q flight events (b', w')"
      by (fastforce split: prod.splits)
  next
    case PrepareSave
    with e(1) prepare_save_wake [OF assms(1) inv] show "wake_inv D q flight events (b', w')"
      by (simp add: completed_Some)
  qed (use e(1) inv in \<open>auto simp: set_acked_features_def read_config_def write_config_def cfg_fail_def Let_def
      wake_inv_def flag_backed_def parked_def split: if_splits\<close>)
qed

text \<open>The device together with what happens outside it.\<close>

datatype 'g life_event = DeviceEvent block_event | GuestEvent 'g

fun life_step ::
  "'w block_host \<Rightarrow> ('w, 'rl, 'u) dev_host \<Rightarrow> ('g \<Rightarrow> 'w \<Rightarrow> 'w) \<Rightarrow> 'g life_event \<Rightarrow> virtio_block \<times> 'w \<Rightarrow>
     (virtio_block \<times> 'w) option" where
  "life_step H D guest (DeviceEvent ev) s = calm_step H D ev s"
| "life_step H D guest (GuestEvent g) s = (case s of (b, w) \<Rightarrow> Some (b, guest g w))"

lemma guest_wake:
  assumes "wake_contract H D q flight events guest" "wake_inv D q flight events (b, w)"
  shows "wake_inv D q flight events (b, guest g w)"
proof -
  have "flight (guest g w) = flight w" "rl_is_blocked D (guest g w) = rl_is_blocked D w"
    "fst (events w) \<Longrightarrow> fst (events (guest g w))" "snd (events w) \<Longrightarrow> snd (events (guest g w))"
    "qv_avail (q w) = [] \<Longrightarrow> qv_avail (q (guest g w)) = [] \<or> fst (events (guest g w))"
    using wake_contract_parts(5) [OF assms(1)] unfolding guest_contract_def by blast+
  with assms(2) show ?thesis by (auto simp: wake_inv_def flag_backed_def parked_def)
qed

lemma life_step_wake:
  assumes "wake_contract H D q flight events guest" "wake_inv D q flight events s" "life_step H D guest ev s = Some s'"
  shows "wake_inv D q flight events s'"
proof (cases ev)
  case (DeviceEvent e)
  with assms calm_step_wake show ?thesis by (metis life_step.simps(1))
next
  case (GuestEvent g)
  with assms guest_wake [OF assms(1)] show ?thesis by (cases s) auto
qed

interpretation wakeup:
  machine_invariant "life_step H D guest" s0
    "\<lambda>s. wake_contract H D q flight events guest \<and> wake_inv D q flight events s0 \<longrightarrow> wake_inv D q flight events s"
    for H D q flight events guest s0
  by unfold_locales (auto intro: life_step_wake)

section \<open>Property\<close>

text \<open>
  C9: a chain that waits has an event to come. Start with an empty queue and a device that is not throttled, and let
  guest, engine and device go on in any order, without a change of the backing file. Whenever there are chains in the
  queue, the guest's notification is pending, or the limiter is blocked until its event, or the device
  is throttled while requests are in flight or their completion is signalled.
\<close>

theorem waiting_chain_has_wakeup:
  assumes "wake_contract H D q flight events guest" "reaches (life_step H D guest) (b0, w0) (b, w)"
    and "qv_avail (q w0) = []" "\<not> is_io_engine_throttled b0" "qv_avail (q w) \<noteq> []"
  shows "fst (events w) \<or> rl_is_blocked D w \<or>
    is_io_engine_throttled b \<and> (flight w \<noteq> {#} \<or> snd (events w))"
proof -
  have "wake_inv D q flight events (b0, w0)"
    using assms(3,4) by (simp add: wake_inv_def flag_backed_def parked_def)
  with wakeup.invar_reachable [OF assms(2)] assms(1) have "wake_inv D q flight events (b, w)" by blast
  with assms(5) show ?thesis by (auto simp: wake_inv_def flag_backed_def parked_def)
qed

section \<open>An engine with room for one request\<close>

type_synonym full_world = "async_world \<times> bool \<times> bool"

definition full_dev :: "(full_world, unit, unit) dev_host" where
  "full_dev = idle_dev
     \<lparr> q_pop := \<lambda>(a, e). (case q_pop async_dev a of (r, a') \<Rightarrow> (r, a', e)),
       q_undo_pop := \<lambda>(a, e). (q_undo_pop async_dev a, e),
       q_add_used := \<lambda>i n (a, e). (case q_add_used async_dev i n a of (r, a') \<Rightarrow> (r, a', e)),
       e_pop := \<lambda>(a, e). (case e_pop async_dev a of (r, a') \<Rightarrow> (r, a', e)),
       ev_queue_read := \<lambda>(a, notified, signalled). (notified, a, False, signalled),
       ev_completion_read := \<lambda>(a, notified, signalled). (True, a, notified, False),
       e_drain_and_flush := \<lambda>_ (a, notified, signalled). (a, notified, signalled \<or> snd a \<noteq> []) \<rparr>"

definition one_slot :: "pending_request \<Rightarrow> full_world \<Rightarrow> engine_result \<times> full_world" where
  "one_slot p w = (case w of ((v, fl), e) \<Rightarrow>
     if fl = [] then (EngineSubmitted, (v, [p]), e) else (EngineErr ''full'' p, w))"

definition full_engine :: "full_world block_host" where
  "full_engine = (queue_guest True)
     \<lparr> e_read := \<lambda>_ _ _. one_slot, e_write := \<lambda>_ _ _. one_slot, e_flush := one_slot \<rparr>"

text \<open>The guest queues a chain and notifies the device.\<close>

definition full_guest :: "desc_chain \<Rightarrow> full_world \<Rightarrow> full_world" where
  "full_guest h w = (case w of ((v, fl), _, signalled) \<Rightarrow> ((v\<lparr>qv_avail := qv_avail v @ [h]\<rparr>, fl), True, signalled))"

lemmas full_defs = full_dev_def full_engine_def one_slot_def full_guest_def async_defs

lemma full_contract:
  "wake_contract full_engine full_dev (fst \<circ> fst) (\<lambda>w. mset (snd (fst w))) snd full_guest"
proof -
  have "queue_contract full_dev (fst \<circ> fst)"
    by (auto simp: queue_contract_def full_defs Let_def split: list.splits prod.splits)
  moreover have "flight_contract full_engine full_dev (\<lambda>w. mset (snd (fst w)))"
    by (auto simp: flight_contract_def full_defs Let_def split: list.splits prod.splits if_splits)
  ultimately have "life_contract full_engine full_dev (fst \<circ> fst) (\<lambda>w. mset (snd (fst w)))"
    by (simp add: life_contract_def queue_framed_def engine_framed_def device_framed_def kick_framed_def
        host_framed_def full_defs Let_def split_beta split: list.split)
  moreover have "event_contract full_engine full_dev (\<lambda>w. mset (snd (fst w))) snd"
    by (auto simp: event_contract_def queue_framed_def engine_framed_def quiet_framed_def kick_framed_def full_defs
        Let_def split_beta split: list.split)
  moreover have "limiter_blocks full_engine full_dev"
    by (simp add: limiter_blocks_def engine_framed_def quiet_framed_def kick_framed_def full_defs Let_def)
  moreover have "throttles_when_full full_engine (\<lambda>w. mset (snd (fst w)))"
    by (auto simp: throttles_when_full_def full_defs Let_def split: prod.splits if_splits)
  moreover have "guest_contract full_dev (fst \<circ> fst) (\<lambda>w. mset (snd (fst w))) snd full_guest"
    by (auto simp: guest_contract_def full_defs split_beta)
  ultimately show ?thesis by (simp add: wake_contract_def)
qed

definition full_start :: full_world where
  "full_start = ((\<lparr>qv_avail = [], qv_used = [], qv_popped = None\<rparr>, []), False, False)"

definition slot_run :: "desc_chain life_event list" where
  "slot_run = [GuestEvent (request_chain 0x1000 1024), GuestEvent (request_chain 0x1000 1024), DeviceEvent QueueEvent]"

lemma full_ops:
  "q_pop full_dev ((v, fl), e) = (case qv_avail v of
     [] \<Rightarrow> (Inr None, (v, fl), e)
   | h # hs \<Rightarrow> (Inr (Some h), (v\<lparr>qv_avail := hs, qv_popped := Some h\<rparr>, fl), e))"
  "q_undo_pop full_dev ((v, fl), e) =
     ((v\<lparr>qv_avail := (case qv_popped v of None \<Rightarrow> [] | Some h \<Rightarrow> [h]) @ qv_avail v\<rparr>, fl), e)"
  "q_len full_dev w = 0" "q_advance_used_ring_idx full_dev w = w" "e_kick_submission_queue full_dev w = w"
  "ev_queue_read full_dev (a, notified, signalled) = (notified, a, False, signalled)"
  "rl_is_blocked full_dev w = False"
  by (simp_all add: full_defs split: list.split)

lemma full_handle:
  assumes "nsectors (disk b) = 8"
  shows "handle_chain full_engine full_dev (request_chain 0x1000 1024) b ((v, fl), e) =
    (if fl = [] then (Some Submitted, b, (v, [to_pending_request demo_read 0]), e) else (Some Throttled, b, (v, fl), e))"
proof -
  have ops: "g_read_header full_engine a w = Ok \<lparr>h_request_type = VIRTIO_BLK_T_IN, h_reserved = 0, h_sector = 3\<rparr>"
    "rl_consume full_engine k t w = (True, w)" "t_cell full_engine w = Some None"
    "e_read full_engine off a len = one_slot" "e_is_throttling_err full_engine x" for a w k t off len x
    by (simp_all add: full_engine_def queue_guest_def Let_def)
  have "parse full_engine (request_chain 0x1000 1024) 8 w = Ok demo_read" for w
    by (simp add: parse_def ops request_chain_def status_chain_def request_type_from_def virtio_defs
        parse_descs_def check_data_desc_def check_validity_def check_status_desc_def demo_read_def
        checked_add_def Let_def)
  with assms ops show ?thesis
    by (simp add: handle_chain_def rate_limit_def process_def submit_def trace_record_def one_slot_def
        trace_config_def process_engine_result_def Let_def demo_read_def request_chain_def)
qed

lemma slot_run_reaches:
  "\<exists>b w. exec_all (life_step full_engine full_dev full_guest) slot_run (async_block, full_start) = Some (b, w) \<and>
     qv_avail (fst (fst w)) \<noteq> []"
  by (simp add: slot_run_def full_start_def full_guest_def calm_step_def process_queue_event_def
      process_virtio_queues_def process_queue_def full_ops full_handle async_block_def demo_block_def
      chain_loop.simps Let_def finish_queue_def)

theorem waiting_chain_has_wakeup_witness:
  "\<exists>b w. exec_all (life_step full_engine full_dev full_guest) slot_run (async_block, full_start) = Some (b, w) \<and>
     qv_avail (fst (fst w)) \<noteq> [] \<and>
     (fst (snd w) \<or> rl_is_blocked full_dev w \<or>
      is_io_engine_throttled b \<and> (mset (snd (fst w)) \<noteq> {#} \<or> snd (snd w)))"
proof -
  obtain b w where r: "exec_all (life_step full_engine full_dev full_guest) slot_run (async_block, full_start) = Some (b, w)"
    and a: "qv_avail (fst (fst w)) \<noteq> []" using slot_run_reaches by blast
  have start: "qv_avail ((fst \<circ> fst) full_start) = []" "\<not> is_io_engine_throttled async_block"
    by (simp_all add: full_start_def async_block_def demo_block_def)
  have w: "qv_avail ((fst \<circ> fst) w) \<noteq> []" using a by simp
  from waiting_chain_has_wakeup [OF full_contract exec_all_reaches [OF r] start w] r a show ?thesis by blast
qed

end
