(* ===== verification/Block_Drain.thy ===== *)
theory Block_Drain
  imports Block_Wakeup
begin

text \<open>
  A throttled block device makes progress. The engine had no room, the device put the chain back and set its
  flag; from here on it is the completion events that take the queue up again. If the engine
  completes something before each of them, a bounded number of events empties the queue.
\<close>

section \<open>The assumptions\<close>

text \<open>
  No limiter is in the way and the queue of the guest is well formed. The engine completes at least one
  of the requests in flight before it signals, which is all that is asked of it.
\<close>

definition unobstructed :: "('w, 'rl, 'u) dev_host \<Rightarrow> bool" where
  "unobstructed D \<longleftrightarrow> (\<forall>w. is_ok (fst (q_pop D w))) \<and> (\<forall>w. \<not> rl_is_blocked D w)"

definition engine_progress ::
  "('w, 'rl, 'u) dev_host \<Rightarrow> ('w \<Rightarrow> queue_view) \<Rightarrow> ('w \<Rightarrow> pending_request multiset) \<Rightarrow> ('w \<Rightarrow> 'w) \<Rightarrow> bool" where
  "engine_progress D q flight complete \<longleftrightarrow>
     (\<forall>w. q (complete w) = q w \<and> flight (complete w) = flight w \<and> fst (ev_completion_read D (complete w))) \<and>
     (\<forall>w. flight w \<noteq> {#} \<longrightarrow> (\<exists>c. fst (e_pop D (snd (ev_completion_read D (complete w)))) = Inr (Some c)))"

text \<open>What is still to be answered.\<close>

definition backlog :: "('w \<Rightarrow> queue_view) \<Rightarrow> ('w \<Rightarrow> pending_request multiset) \<Rightarrow> 'w \<Rightarrow> nat" where
  "backlog q flight w = length (qv_avail (q w)) + size (flight w)"

text \<open>The events of a descriptor play no part here.\<close>

abbreviation no_events :: "'w \<Rightarrow> bool \<times> bool" where
  "no_events \<equiv> \<lambda>_. (False, False)"

section \<open>The loops\<close>

lemma chain_loop_ok:
  assumes "unobstructed D" "chain_loop H D u b w = Some (res, b', w')"
  shows "is_ok res"
proof -
  have "unobstructed D \<Longrightarrow> is_ok (fst r)" if "chain_loop H D u b w = Some r" for u b w r
    using that
  proof (induction rule: chain_loop.raw_induct [rotated, consumes 1, case_names step])
    case (step loop H D u b w r)
    then have "is_ok (fst (q_pop D w))" by (simp add: unobstructed_def)
    with step(2) step(1) [OF _ step(3)] show ?case
      by (auto simp: Let_def split: sum.splits prod.splits option.splits processing_result.splits)
  qed
  from this [OF assms(2,1)] show ?thesis by simp
qed

text \<open>A chain that leaves the queue is in flight or answered, so the backlog does not grow.\<close>

lemma account_backlog:
  assumes "outstanding q flight w' = outstanding q flight w" "queue_account every (q w) (q w')"
  shows "backlog q flight w' \<le> backlog q flight w"
proof -
  have "length (qv_used (q w)) \<le> length (qv_used (q w'))"
    using assms(2) unfolding queue_account_def by auto
  moreover have "backlog q flight v + length (qv_used (q v)) = size (outstanding q flight v)" for v
    by (simp add: backlog_def outstanding_def)
  ultimately show ?thesis using assms(1) by (metis add_le_imp_le_right add_le_mono nat_add_left_cancel_le order_refl)
qed

lemma process_queue_drains:
  assumes "loop_contract H D q flight no_events" "unobstructed D" "activated b" "\<not> is_io_engine_throttled b"
  shows "\<exists>b' w'. process_queue H D b w = Some (Some (Ok ()), b', w') \<and>
    (qv_avail (q w') = [] \<or> is_io_engine_throttled b' \<and> flight w' \<noteq> {#}) \<and>
    backlog q flight w' \<le> backlog q flight w"
proof -
  note L = life_contract_parts [OF loop_contract_parts(1) [OF assms(1)]]
  obtain res b1 w1 where l: "chain_loop H D False b w = Some (res, b1, w1)"
    and a: "queue_account (synchronous H D) (q w) (q w1)"
    using chain_loop_account [OF L(1,2)] by blast
  obtain u where u: "res = Ok u" using chain_loop_ok [OF assms(2) l] by (cases res) auto
  have "flag_backed flight no_events b w" using assms(4) by (simp add: flag_backed_def)
  from chain_loop_wake [OF assms(1) l this] u assms(2)
  have stop: "qv_avail (q w1) = [] \<or> is_io_engine_throttled b1 \<and> flight w1 \<noteq> {#}"
    by (auto simp: flag_backed_def parked_def unobstructed_def)
  have less: "backlog q flight w1 \<le> backlog q flight w"
    by (rule account_backlog [OF chain_loop_outstanding [OF loop_contract_parts(1) [OF assms(1)] l] a])
  obtain b2 w2 where f: "finish_queue D u b1 w1 = (b2, w2)" by (cases "finish_queue D u b1 w1")
  have "q w2 = q w1" "flight w2 = flight w1"
    using finish_queue_framed [OF L(7), of u b1 w1] finish_queue_framed [OF L(8), of u b1 w1] f by simp_all
  with stop less finish_queue_flag [OF f] assms(3) l u f show ?thesis
    by (simp add: process_queue_def backlog_def)
qed

text \<open>The completions are all popped, and the first of them makes the difference.\<close>

lemma completion_loop_drains:
  assumes "life_contract H D q flight"
  shows "\<exists>b' w'. completion_loop H D b w = Some (b', w') \<and>
    is_io_engine_throttled b' = is_io_engine_throttled b \<and> qv_avail (q w') = qv_avail (q w) \<and>
    size (flight w') + (if \<exists>c. fst (e_pop D w) = Inr (Some c) then 1 else 0) \<le> size (flight w)"
proof (induction "size (flight w)" arbitrary: b w rule: less_induct)
  case less
  note L = life_contract_parts [OF assms]
  obtain x w1 where p: "e_pop D w = (x, w1)" by (cases "e_pop D w")
  have qw1: "q w1 = q w" using L(9) [of w] p by simp
  show ?case
  proof (cases "\<exists>c. x = Inr (Some c)")
    case False
    then have "completion_loop H D b w = Some (b, w1)"
      using p by (subst completion_loop.simps) (auto split: sum.splits option.splits)
    with flight_pop_none [OF L(4) p] False p qw1 show ?thesis by simp
  next
    case True
    then obtain pend res where x: "x = Inr (Some (pend, res))" by auto
    obtain f m w2 where f: "finish H pend (map_err FileEngineIo res) (metrics b) w1 = (f, m, w2)"
      by (cases "finish H pend (map_err FileEngineIo res) (metrics b) w1")
    have "engine_framed H q" using L(2) by (simp add: queue_framed_def)
    then have w2: "q w2 = q w1" "flight w2 = flight w1"
      using finish_framed [of H q pend "map_err FileEngineIo res" "metrics b" w1]
        finish_flight [OF L(5), of pend "map_err FileEngineIo res" "metrics b" w1] f by simp_all
    define w3 where "w3 = snd (q_add_used D (f_desc_idx f) (num_bytes_to_mem f) w2)"
    have "q_add_used D (f_desc_idx f) (num_bytes_to_mem f) w2 = (True, w3)"
      unfolding w3_def using L(11) by (metis prod.collapse)
    from add_used [OF L(1) this] L(14) qw1 w2 have w3: "qv_avail (q w3) = qv_avail (q w)" "flight w3 = flight w1"
      by (simp_all add: w3_def)
    have popped: "size (flight w) = Suc (size (flight w3))" using flight_pop [OF L(4) p [unfolded x]] w3 by simp
    moreover have "completion_loop H D b w = completion_loop H D (b\<lparr>metrics := m\<rparr>) w3"
      using p x f by (subst completion_loop.simps) (simp add: w3_def)
    ultimately show ?thesis using less [of w3 "b\<lparr>metrics := m\<rparr>"] w3(1)
      by (fastforce split: if_splits)
  qed
qed

section \<open>One completion event\<close>

lemma completion_event_drains:
  assumes "loop_contract H D q flight no_events" "unobstructed D" "engine_progress D q flight complete"
    and "activated b" "file_engine (disk b) = Async" "is_io_engine_throttled b" "flight w \<noteq> {#}"
  shows "\<exists>b' w'. process_async_completion_event H D b (complete w) = Some (Some (), b', w') \<and>
    (qv_avail (q w') = [] \<or> is_io_engine_throttled b' \<and> flight w' \<noteq> {#}) \<and>
    backlog q flight w' < backlog q flight w"
proof -
  note L = life_contract_parts [OF loop_contract_parts(1) [OF assms(1)]]
  define w1 where "w1 = snd (ev_completion_read D (complete w))"
  have r: "ev_completion_read D (complete w) = (True, w1)"
    using assms(3) unfolding engine_progress_def w1_def by (metis prod.collapse)
  have w1: "q w1 = q w" "flight w1 = flight w"
    using assms(3) L(3,6) by (simp_all add: w1_def engine_progress_def device_framed_def)
  have pop: "\<exists>c. fst (e_pop D w1) = Inr (Some c)"
    using assms(3,7) unfolding engine_progress_def w1_def by blast
  obtain b2 w2 where l: "completion_loop H D b w1 = Some (b2, w2)" "is_io_engine_throttled b2"
    "qv_avail (q w2) = qv_avail (q w)" "size (flight w2) < size (flight w)"
    using completion_loop_drains [OF loop_contract_parts(1) [OF assms(1)], of b w1] pop w1 assms(6) by auto
  obtain b3 w3 where k: "kick_guest D b2 (q_advance_used_ring_idx D w2) = (b3, w3)"
    by (cases "kick_guest D b2 (q_advance_used_ring_idx D w2)")
  have w3: "q w3 = q w2" "flight w3 = flight w2"
    using kick_guest_framed [OF L(7), of b2 "q_advance_used_ring_idx D w2"] L(7,8)
      kick_guest_framed [OF L(8), of b2 "q_advance_used_ring_idx D w2"] k by (simp_all add: kick_framed_def)
  have act: "activated b3" using core_kick_guest [OF k] core_completion_loop [OF l(1)] assms(4)
    by (auto simp: core_def dest: arg_cong [of _ _ activated])
  have c: "process_async_completion_queue H D b w1 = Some (Some (), b3, w3)"
    using assms(4,5) l(1) k by (simp add: process_async_completion_queue_def)
  have "\<not> is_io_engine_throttled (b3\<lparr>is_io_engine_throttled := False\<rparr>)" "activated (b3\<lparr>is_io_engine_throttled := False\<rparr>)"
    using act by simp_all
  from process_queue_drains [OF assms(1,2) this(2,1), of w3] obtain b' w' where
    p: "process_queue H D (b3\<lparr>is_io_engine_throttled := False\<rparr>) w3 = Some (Some (Ok ()), b', w')"
    "qv_avail (q w') = [] \<or> is_io_engine_throttled b' \<and> flight w' \<noteq> {#}" "backlog q flight w' \<le> backlog q flight w3"
    by blast
  have "backlog q flight w3 < backlog q flight w" using w3 l(3,4) by (simp add: backlog_def)
  with p r c kick_guest_flag [OF k] l(2) assms(5) show ?thesis
    by (auto simp: process_async_completion_event_def)
qed

section \<open>Property\<close>

text \<open>A round: the engine completes something, and the device handles the event.\<close>

definition drain_round :: "unit life_event list" where
  "drain_round = [GuestEvent (), DeviceEvent CompletionEvent]"

lemma round_step:
  "exec_all (life_step H D (\<lambda>_. complete)) drain_round (b, w) =
     completed (process_async_completion_event H D b (complete w))"
  by (simp add: drain_round_def calm_step_def split: option.split)

text \<open>
  C10: a throttled device drains its queue. Take an activated asynchronous device that has throttled the
  queue while requests are in flight, with no limiter in the way and a well formed queue, and let
  the engine complete at least one request before each of its events. After at most as many events as
  chains are queued or in flight, none of which fails, the queue is empty.
\<close>

theorem throttled_queue_drains:
  assumes "loop_contract H D q flight no_events" "unobstructed D" "engine_progress D q flight complete"
    and "activated b" "file_engine (disk b) = Async" "is_io_engine_throttled b" "flight w \<noteq> {#}"
  shows "\<exists>n b' w'. n \<le> length (qv_avail (q w)) + size (flight w) \<and>
    exec_all (life_step H D (\<lambda>_. complete)) (concat (replicate n drain_round)) (b, w) = Some (b', w') \<and>
    qv_avail (q w') = []"
  using assms(4-7)
proof (induction "backlog q flight w" arbitrary: b w rule: less_induct)
  case less
  from completion_event_drains [OF assms(1-3) less(2-5)] obtain b1 w1 where
    e: "process_async_completion_event H D b (complete w) = Some (Some (), b1, w1)" and
    s: "qv_avail (q w1) = [] \<or> is_io_engine_throttled b1 \<and> flight w1 \<noteq> {#}" and
    d: "backlog q flight w1 < backlog q flight w" by blast
  have first: "exec_all (life_step H D (\<lambda>_. complete)) drain_round (b, w) = Some (b1, w1)"
    using e by (simp add: round_step)
  show ?case
  proof (cases "qv_avail (q w1) = []")
    case True
    with first d show ?thesis by (intro exI [of _ 1] exI [of _ b1] exI [of _ w1]) (simp add: backlog_def)
  next
    case False
    have "activated b1" "file_engine (disk b1) = Async"
      using core_events(3) [OF e] less(2,3) by (auto simp: core_def dest: arg_cong [of _ _ activated] arg_cong [of _ _ disk])
    with less(1) [OF d] s False obtain n b' w' where "n \<le> backlog q flight w1"
      "exec_all (life_step H D (\<lambda>_. complete)) (concat (replicate n drain_round)) (b1, w1) = Some (b', w')"
      "qv_avail (q w') = []" unfolding backlog_def by blast
    with first d show ?thesis
      by (intro exI [of _ "Suc n"] exI [of _ b'] exI [of _ w']) (simp add: backlog_def exec_all_append)
  qed
qed

section \<open>The engine with room for one request\<close>

definition full_now :: full_world where
  "full_now = ((\<lparr>qv_avail = [request_chain 0x1000 1024, request_chain 0x1000 1024], qv_used = [], qv_popped = None\<rparr>,
     [to_pending_request demo_read 0]), False, False)"

lemma full_progress: "engine_progress full_dev (fst \<circ> fst) (\<lambda>w. mset (snd (fst w))) id"
  by (auto simp: engine_progress_def full_defs split: list.split)

lemma full_unobstructed: "unobstructed full_dev"
  by (simp add: unobstructed_def full_ops) (auto simp: full_defs split: list.split)

lemma full_loop: "loop_contract full_engine full_dev (fst \<circ> fst) (\<lambda>w. mset (snd (fst w))) no_events"
  using wake_contract_parts [OF full_contract]
  by (simp add: loop_contract_def queue_framed_def engine_framed_def quiet_framed_def kick_framed_def)

theorem throttled_queue_drains_witness:
  "\<exists>n b' w'. n \<le> 3 \<and> exec_all (life_step full_engine full_dev (\<lambda>_. id)) (concat (replicate n drain_round))
     (async_block\<lparr>is_io_engine_throttled := True\<rparr>, full_now) = Some (b', w') \<and> qv_avail (fst (fst w')) = []"
proof -
  let ?b = "async_block\<lparr>is_io_engine_throttled := True\<rparr>"
  have b: "activated ?b" "file_engine (disk ?b) = Async" "is_io_engine_throttled ?b" "mset (snd (fst full_now)) \<noteq> {#}"
    by (simp_all add: async_block_def demo_block_def full_now_def)
  have "length (qv_avail ((fst \<circ> fst) full_now)) + size (mset (snd (fst full_now))) = 3"
    by (simp add: full_now_def)
  with throttled_queue_drains [OF full_loop full_unobstructed full_progress b] show ?thesis by simp
qed

end
