(* ===== verification/Block_Device_Spec.thy ===== *)
theory Block_Device_Spec
  imports Block_Request_Spec Block_Drain
begin

text \<open>
  Unit tests of device.rs as a specification of the device: those of the configuration, the configuration space and
  the backing file, and the scenarios that fill the queues of the asynchronous engine. The tests
  run on temporary files and on io_uring, which are not part of this code: what they rely on is
  a hypothesis, and the theorems hold for every host that meets it.
\<close>

unbundle bit_operations_syntax

section \<open>Configuration and backing file\<close>

definition test_from_config :: bool where
  "test_from_config \<longleftrightarrow>
     (let block_config = (\<lambda>ro path sock. \<lparr>bc_drive_id = '''', bc_partuuid = None, bc_is_root_device = False,
        bc_cache_type = Unsafe, bc_is_read_only = ro, bc_path_on_host = path, bc_rate_limiter = None :: unit option,
        bc_file_engine_type = None, bc_socket = sock\<rparr>) in
      is_ok (try_from_config (block_config (Some True) (Some ''path'') None)) \<and>
      \<not> is_ok (try_from_config (block_config None None (Some ''sock''))) \<and>
      \<not> is_ok (try_from_config (block_config (Some True) (Some ''path'') (Some ''sock''))))"

text \<open>The body of a test's loop over both engines: \<open>None\<close> is a failed assertion or a panic.\<close>

definition test_disk_backing_file_helper ::
  "('w, 'rl, 'u) dev_host \<Rightarrow> string \<Rightarrow> file_engine_type \<Rightarrow> 'w \<Rightarrow> 'w option" where
  "test_disk_backing_file_helper D path engine w =
     (case new_disk D path True engine w of
        (Inl _, w1) \<Rightarrow> None
      | (Inr disk_properties, w1) \<Rightarrow>
          (if nsectors disk_properties \<noteq> 2 then None
           else
             (case new_disk D ''invalid-disk-path'' True engine w1 of
                (Inl (BackingFile _ _), w2) \<Rightarrow> Some w2
              | _ \<Rightarrow> None)))"

definition test_virtio_read_config :: "virtio_block \<Rightarrow> bool" where
  "test_virtio_read_config block \<longleftrightarrow>
     (case read_config 0 (le_bytes 8 0) block of (actual, block1) \<Rightarrow>
      let expected_config_space = le_bytes 8 696969 in
      actual = le_bytes 8 8 \<and> fst (read_config (8 + 1) expected_config_space block1) = expected_config_space)"

definition test_virtio_write_config :: "virtio_block \<Rightarrow> bool" where
  "test_virtio_write_config block \<longleftrightarrow>
     (let expected1 = le_bytes 8 696969; block1 = write_config 0 expected1 block in
      case read_config 0 (le_bytes 8 0) block1 of (actual1, block2) \<Rightarrow>
      let expected = le_bytes 8 0x1122334455667788;
          block3 = fold (\<lambda>(i, b). write_config (of_nat i) [b]) (List.enumerate 0 expected) block2 in
      case read_config 0 actual1 block3 of (actual2, block4) \<Rightarrow>
      let new_config_space = le_bytes 8 0xDEADBEEF; block5 = write_config 5 new_config_space block4 in
      case read_config 0 actual2 block5 of (actual3, block6) \<Rightarrow>
      let block7 = write_config (- 1) new_config_space block6 in
      case read_config 0 actual3 block7 of (actual4, _) \<Rightarrow>
        actual1 = expected1 \<and> actual2 = expected \<and> actual3 = expected \<and> actual4 = expected)"

text \<open>The metadata is that of the file which the update opens.\<close>

definition test_update_disk_image ::
  "('w, 'rl, 'u) dev_host \<Rightarrow> string \<Rightarrow> nat \<times> nat \<times> nat \<Rightarrow> virtio_block \<Rightarrow> 'w \<Rightarrow> (virtio_block \<times> 'w) option" where
  "test_update_disk_image D path mdata block w =
     (case mdata of (st_dev, st_rdev, st_ino) \<Rightarrow>
      let part_id = map of_char (show_nat st_dev @ show_nat st_rdev @ show_nat st_ino);
          n = min (length part_id) (unat VIRTIO_BLK_ID_BYTES);
          id = take n part_id @ drop n (replicate (unat VIRTIO_BLK_ID_BYTES) 0) in
      case update_disk_image D path block w of
        (Some (Inr _), block', w') \<Rightarrow> (if image_id (disk block') = id then Some (block', w') else None)
      | _ \<Rightarrow> None)"

text \<open>
  What the tests ask of their host: a file of the given size at a path, which the engine accepts, no
  file at the other path, and an interrupt that can be raised.
\<close>

definition file_at :: "('w, 'rl, 'u) dev_host \<Rightarrow> string \<Rightarrow> u64 \<Rightarrow> nat \<times> nat \<times> nat \<Rightarrow> bool" where
  "file_at D path bytes mdata \<longleftrightarrow>
     (\<forall>rw w. \<exists>f w1 w2. f_open D path rw w = (Ok f, w1) \<and> f_seek_end D f w1 = (Ok bytes, w2) \<and>
        f_metadata D f w2 = Ok mdata \<and> (\<forall>e. is_ok (fst (e_from_file D f e w2))) \<and>
        is_ok (fst (e_update_file_path D f w2)))"

definition no_file_at :: "('w, 'rl, 'u) dev_host \<Rightarrow> string \<Rightarrow> bool" where
  "no_file_at D path \<longleftrightarrow> (\<forall>rw w. \<not> is_ok (fst (f_open D path rw w)))"

lemma from_config_test: test_from_config
  by (simp add: test_from_config_def try_from_config_def)

lemma backing_file_test:
  assumes "file_at D path 1024 mdata" "no_file_at D ''invalid-disk-path''"
  shows "test_disk_backing_file_helper D path engine w \<noteq> None"
proof -
  obtain f w1 w2 where f: "f_open D path False w = (Ok f, w1)" "f_seek_end D f w1 = (Ok 1024, w2)"
    "is_ok (fst (e_from_file D f engine w2))"
    using assms(1) unfolding file_at_def by blast
  obtain u w3 where e: "e_from_file D f engine w2 = (Ok u, w3)"
    using f(3) by (cases "e_from_file D f engine w2") (auto simp: is_ok_iff)
  obtain x w4 where n: "f_open D ''invalid-disk-path'' False w3 = (Err x, w4)"
    using assms(2) unfolding no_file_at_def
    by (metis is_ok.simps(2) old.sum.exhaust prod.collapse)
  show ?thesis
    using f e n by (simp add: test_disk_backing_file_helper_def new_disk_def open_file_def file_size_def Let_def
        SECTOR_SHIFT_def drop_bit_eq_div)
qed

text \<open>The configuration space as bytes: what is read, and what a write leaves.\<close>

lemma length_config_space [simp]: "length (config_space_bytes b) = 8"
  by (simp add: config_space_bytes_def)

lemma read_config_all:
  "length data = 8 \<Longrightarrow> read_config 0 data b = (config_space_bytes b, b)"
  by (simp add: read_config_def Let_def)

lemma write_config_bytes:
  "config_space_bytes (write_config off data b) =
     (if unat off + length data \<le> 8
      then take (unat off) (config_space_bytes b) @ data @ drop (unat off + length data) (config_space_bytes b)
      else config_space_bytes b)"
proof (cases "unat off + length data \<le> 8")
  case True
  let ?bytes = "take (unat off) (config_space_bytes b) @ data @ drop (unat off + length data) (config_space_bytes b)"
  have len: "length ?bytes = 8" using True by simp
  have "unat off + length data \<le> u64_max" using True by (simp add: u64_max_def)
  with True have "capacity (write_config off data b) = of_le_bytes ?bytes"
    by (simp add: write_config_def Let_def)
  then have "config_space_bytes (write_config off data b) = le_bytes (length ?bytes) (of_le_bytes ?bytes)"
    using len by (simp add: config_space_bytes_def)
  also have "\<dots> = ?bytes" using len by (intro le_of_le_bytes) simp
  finally show ?thesis using True by simp
next
  case False
  then show ?thesis by (simp add: write_config_def Let_def cfg_fail_def config_space_bytes_def)
qed

lemma write_config_each:
  assumes "length done + length xs = 8" "take (length done) (config_space_bytes b) = done"
  shows "config_space_bytes (fold (\<lambda>(i, x). write_config (of_nat i) [x]) (List.enumerate (length done) xs) b) = done @ xs"
  using assms
proof (induction xs arbitrary: "done" b)
  case Nil
  then show ?case by simp
next
  case (Cons x xs)
  have n: "unat (of_nat (length done) :: u64) = length done" using Cons(2) by (simp add: unat_of_nat take_bit_nat_eq_self_iff)
  let ?b = "write_config (of_nat (length done)) [x] b"
  have "take (length (done @ [x])) (config_space_bytes ?b) = done @ [x]"
    using Cons(2,3) n by (simp add: write_config_bytes)
  from Cons.IH [of "done @ [x]" ?b] this Cons(2) show ?case by simp
qed

lemma read_config_test: "capacity b = 8 \<Longrightarrow> test_virtio_read_config b"
  by (simp add: test_virtio_read_config_def read_config_all) (simp add: read_config_def config_space_bytes_def)

lemma write_config_test: "test_virtio_write_config b"
proof -
  have "config_space_bytes (fold (\<lambda>(i, x). write_config (of_nat i) [x])
      (List.enumerate 0 (le_bytes 8 0x1122334455667788)) c) = le_bytes 8 0x1122334455667788" for c
    using write_config_each [of "[]" "le_bytes 8 0x1122334455667788" c] by simp
  then show ?thesis
    by (simp add: test_virtio_write_config_def read_config_all write_config_bytes Let_def unsigned_eq_0_iff del: le_bytes.simps)
qed

lemma update_disk_image_test:
  assumes "file_at D path bytes mdata" "\<forall>v. fst (i_trigger_config D v)"
  shows "test_update_disk_image D path mdata b w \<noteq> None"
proof -
  obtain st_dev st_rdev st_ino where m: "mdata = (st_dev, st_rdev, st_ino)" by (cases mdata)
  obtain f w1 w2 where f: "f_open D path (\<not> read_only b) w = (Ok f, w1)" "f_seek_end D f w1 = (Ok bytes, w2)"
    "f_metadata D f w2 = Ok mdata" "is_ok (fst (e_update_file_path D f w2))"
    using assms(1) unfolding file_at_def by blast
  obtain u w3 where e: "e_update_file_path D f w2 = (Ok u, w3)"
    using f(4) by (cases "e_update_file_path D f w2") (auto simp: is_ok_iff)
  obtain w4 where t: "i_trigger_config D w3 = (True, w4)" using assms(2) by (metis prod.collapse)
  show ?thesis
    using f e t m by (simp add: test_update_disk_image_def update_disk_image_def update_disk_def open_file_def
        file_size_def build_disk_image_id_def build_device_id_def Let_def split_beta)
qed


section \<open>Batches of flush requests\<close>

text \<open>
  Request k of a batch: the header that all of them share, and a status word of its own, in the
  descriptors 2k and 2k + 1.
\<close>

definition flush_chain :: "u64 \<Rightarrow> u64 \<Rightarrow> nat \<Rightarrow> desc_chain" where
  "flush_chain hdr_addr status_addr k =
     (let idx = of_nat (2 * k) in
      Desc idx hdr_addr 0 False True
        (Some (Desc (idx + 1) (status_addr + 4 * of_nat k) 4 True False None)))"

definition add_flush_requests_batch :: "(desc_chain list \<Rightarrow> 'w \<Rightarrow> 'w) \<Rightarrow> u64 \<Rightarrow> u64 \<Rightarrow> u16 \<Rightarrow> 'w \<Rightarrow> 'w" where
  "add_flush_requests_batch set_queue hdr_addr status_addr cnt =
     set_queue (map (flush_chain hdr_addr status_addr) [0..<unat cnt])"

text \<open>The status word of a used entry, in the descriptor that follows the one the entry names.\<close>

definition status_word :: "u64 \<Rightarrow> u16 \<Rightarrow> u64" where
  "status_word status_addr i = status_addr + 4 * of_nat (unat i div 2)"

definition check_flush_requests_batch ::
  "('w \<Rightarrow> queue_view) \<Rightarrow> ('w \<Rightarrow> u64 \<Rightarrow> u8) \<Rightarrow> u64 \<Rightarrow> u16 \<Rightarrow> 'w \<Rightarrow> bool" where
  "check_flush_requests_batch q status_at status_addr cnt w \<longleftrightarrow>
     length (qv_used (q w)) = unat cnt \<and>
     list_all (\<lambda>(i, n). n = 1 \<and> status_at w (status_word status_addr i) = VIRTIO_BLK_S_OK) (qv_used (q w))"

text \<open>
  The statements of the scenarios; an assertion that fails ends the run. The test of snapshots also runs on the
  synchronous engine, where nothing is ever in flight; its scenario is for the asynchronous one.
\<close>

datatype test_step = AddFlush u16 | Handle block_event | AssertThrottled bool | CheckFlush u16

fun scenario_step ::
  "'w block_host \<Rightarrow> ('w, 'rl, 'u) dev_host \<Rightarrow> ('w \<Rightarrow> queue_view) \<Rightarrow> ('w \<Rightarrow> u64 \<Rightarrow> u8) \<Rightarrow>
     (desc_chain list \<Rightarrow> 'w \<Rightarrow> 'w) \<Rightarrow> u64 \<Rightarrow> u64 \<Rightarrow> test_step \<Rightarrow> virtio_block \<times> 'w \<Rightarrow> (virtio_block \<times> 'w) option" where
  "scenario_step H D q status_at set_queue hdr_addr status_addr (AddFlush cnt) (b, w) =
     Some (b, add_flush_requests_batch set_queue hdr_addr status_addr cnt w)"
| "scenario_step H D q status_at set_queue hdr_addr status_addr (Handle ev) (b, w) = block_step H D ev (b, w)"
| "scenario_step H D q status_at set_queue hdr_addr status_addr (AssertThrottled t) (b, w) =
     (if is_io_engine_throttled b = t then Some (b, w) else None)"
| "scenario_step H D q status_at set_queue hdr_addr status_addr (CheckFlush cnt) (b, w) =
     (if check_flush_requests_batch q status_at status_addr cnt w then Some (b, w) else None)"

definition IO_URING_NUM_ENTRIES :: u16 where "IO_URING_NUM_ENTRIES = 128"

definition test_full_sq :: "test_step list" where
  "test_full_sq =
     [AddFlush IO_URING_NUM_ENTRIES, Handle QueueEvent, AssertThrottled False, Handle CompletionEvent,
      CheckFlush IO_URING_NUM_ENTRIES,
      AddFlush (IO_URING_NUM_ENTRIES + 10), Handle QueueEvent, AssertThrottled True, Handle CompletionEvent,
      AssertThrottled False, CheckFlush IO_URING_NUM_ENTRIES, Handle CompletionEvent, AssertThrottled False,
      CheckFlush (IO_URING_NUM_ENTRIES + 10)]"

definition test_full_cq :: "test_step list" where
  "test_full_cq =
     [AddFlush IO_URING_NUM_ENTRIES, Handle QueueEvent, AssertThrottled False,
      AddFlush IO_URING_NUM_ENTRIES, Handle QueueEvent, AssertThrottled False,
      AddFlush 1, Handle QueueEvent, AssertThrottled True, Handle CompletionEvent, AssertThrottled False,
      CheckFlush (IO_URING_NUM_ENTRIES * 2)]"

definition test_prepare_save :: "test_step list" where
  "test_prepare_save = [AddFlush 5, Handle QueueEvent, Handle PrepareSave, CheckFlush 5]"

section \<open>An io\_uring engine\<close>

text \<open>
  The engine of the tests: a submission queue of the given size, which a kick hands over to the
  kernel, and a completion queue of twice the size. A flush is refused, with an error that
  throttles the device, when either is full. Requests are completed when their completions are taken.
\<close>

definition untouched :: "('w, 'rl, 'u) dev_host \<Rightarrow> ('w \<Rightarrow> 'v) \<Rightarrow> bool" where
  "untouched D view \<longleftrightarrow>
     (\<forall>w. view (snd (q_pop D w)) = view w) \<and> (\<forall>w. view (q_undo_pop D w) = view w) \<and>
     (\<forall>i n w. view (snd (q_add_used D i n w)) = view w) \<and> (\<forall>w. view (q_advance_used_ring_idx D w) = view w) \<and>
     (\<forall>w. view (snd (q_prepare_kick D w)) = view w) \<and> (\<forall>w. view (snd (i_trigger_queue D w)) = view w) \<and>
     (\<forall>w. view (snd (ev_queue_read D w)) = view w) \<and> (\<forall>w. view (snd (ev_completion_read D w)) = view w) \<and>
     (\<forall>w. view (snd (e_pop D w)) = view w) \<and> (\<forall>x w. view (e_drain_and_flush D x w) = view w)"

definition uring_engine ::
  "'w block_host \<Rightarrow> ('w, 'rl, 'u) dev_host \<Rightarrow> ('w \<Rightarrow> pending_request multiset) \<Rightarrow> ('w \<Rightarrow> nat) \<Rightarrow> nat \<Rightarrow> bool" where
  "uring_engine H D flight sq n \<longleftrightarrow>
     host_framed H sq \<and> untouched D sq \<and> (\<forall>w. sq (e_kick_submission_queue D w) = 0) \<and>
     (\<forall>p w r w'. e_flush H p w = (r, w') \<longrightarrow>
        (if sq w < n \<and> size (flight w) < 2 * n then r = EngineSubmitted \<and> sq w' = sq w + 1
         else (\<exists>e. r = EngineErr e p \<and> e_is_throttling_err H e) \<and> sq w' = sq w)) \<and>
     (\<forall>w. flight w \<noteq> {#} \<longrightarrow> (\<exists>p x. fst (e_pop D w) = Inr (Some (p, Inr x))))"

text \<open>Guest memory: the shared header stays readable, and the status words are written by status writes only.\<close>

definition status_memory ::
  "'w block_host \<Rightarrow> ('w, 'rl, 'u) dev_host \<Rightarrow> ('w \<Rightarrow> u64 \<Rightarrow> u8) \<Rightarrow> u64 \<Rightarrow> bool" where
  "status_memory H D status_at hdr_addr \<longleftrightarrow>
     untouched D status_at \<and> (\<forall>w. status_at (e_kick_submission_queue D w) = status_at w) \<and>
     (\<forall>p w. status_at (snd (e_flush H p w)) = status_at w) \<and>
     (\<forall>c w. status_at (t_set_cell H c w) = status_at w) \<and> (\<forall>w. status_at (snd (t_now H w)) = status_at w) \<and>
     (\<forall>path line w. status_at (t_append H path line w) = status_at w) \<and>
     (\<forall>n t w. status_at (snd (rl_consume H n t w)) = status_at w) \<and>
     (\<forall>v a w. is_ok (fst (g_write_status H v a w)) \<and> status_at (snd (g_write_status H v a w)) = (status_at w)(a := v)) \<and>
     (\<forall>w. g_read_header H hdr_addr w = Ok (new_header VIRTIO_BLK_T_FLUSH 0))"

text \<open>The rest: no limiter, a queue without errors that the test can refill, and event descriptors that are set.\<close>

definition flush_bench ::
  "'w block_host \<Rightarrow> ('w, 'rl, 'u) dev_host \<Rightarrow> ('w \<Rightarrow> queue_view) \<Rightarrow> ('w \<Rightarrow> pending_request multiset) \<Rightarrow>
     ('w \<Rightarrow> nat) \<Rightarrow> ('w \<Rightarrow> u64 \<Rightarrow> u8) \<Rightarrow> (desc_chain list \<Rightarrow> 'w \<Rightarrow> 'w) \<Rightarrow> u64 \<Rightarrow> nat \<Rightarrow> bool" where
  "flush_bench H D q flight sq status_at set_queue hdr_addr n \<longleftrightarrow>
     life_contract H D q flight \<and> uring_engine H D flight sq n \<and> status_memory H D status_at hdr_addr \<and>
     unobstructed D \<and> (\<forall>k t w. fst (rl_consume H k t w)) \<and>
     (\<forall>w. fst (ev_queue_read D w) \<and> fst (ev_completion_read D w)) \<and>
     (\<forall>ds w. qv_avail (q (set_queue ds w)) = ds \<and> qv_used (q (set_queue ds w)) = [] \<and>
        flight (set_queue ds w) = flight w \<and> sq (set_queue ds w) = sq w)"

lemma flush_bench_parts:
  assumes "flush_bench H D q flight sq status_at set_queue hdr_addr n"
  shows "life_contract H D q flight" "uring_engine H D flight sq n" "status_memory H D status_at hdr_addr"
    "unobstructed D" "fst (rl_consume H k t w)" "fst (ev_queue_read D w)" "fst (ev_completion_read D w)"
    "qv_avail (q (set_queue ds w)) = ds" "qv_used (q (set_queue ds w)) = []"
    "flight (set_queue ds w) = flight w" "sq (set_queue ds w) = sq w"
  using assms by (simp_all only: flush_bench_def)

lemma status_memory_facts:
  assumes "status_memory H D status_at hdr_addr"
  shows "untouched D status_at" "status_at (e_kick_submission_queue D w) = status_at w"
    "status_at (snd (e_flush H p w)) = status_at w" "status_at (t_set_cell H c w) = status_at w"
    "status_at (snd (t_now H w)) = status_at w" "status_at (t_append H path line w) = status_at w"
    "status_at (snd (rl_consume H k t w)) = status_at w" "is_ok (fst (g_write_status H v a w))"
    "status_at (snd (g_write_status H v a w)) = (status_at w)(a := v)"
    "g_read_header H hdr_addr w = Ok (new_header VIRTIO_BLK_T_FLUSH 0)"
  using assms unfolding status_memory_def by blast+

lemma uring_engine_facts:
  assumes "uring_engine H D flight sq n"
  shows "host_framed H sq" "untouched D sq" "sq (e_kick_submission_queue D w) = 0"
    "e_flush H p w = (r, w') \<Longrightarrow>
      if sq w < n \<and> size (flight w) < 2 * n then r = EngineSubmitted \<and> sq w' = sq w + 1
      else (\<exists>e. r = EngineErr e p \<and> e_is_throttling_err H e) \<and> sq w' = sq w"
    "flight w \<noteq> {#} \<Longrightarrow> \<exists>p x. fst (e_pop D w) = Inr (Some (p, Inr x))"
  using assms unfolding uring_engine_def by blast+

section \<open>One flush request\<close>

definition flush_pending :: "u64 \<Rightarrow> nat \<Rightarrow> pending_request" where
  "flush_pending status_addr k =
     \<lparr>p_type = Flush, p_data_len = 0, p_status_addr = status_addr + 4 * of_nat k, p_desc_idx = of_nat (2 * k)\<rparr>"

lemma parse_flush:
  assumes "g_read_header H hdr_addr w = Ok (new_header VIRTIO_BLK_T_FLUSH 0)"
  shows "\<exists>req. parse H (flush_chain hdr_addr status_addr k) sectors w = Ok req \<and> rq_type req = Flush \<and>
    to_pending_request req (d_index (flush_chain hdr_addr status_addr k)) = flush_pending status_addr k"
  using assms
  by (simp add: flush_chain_def parse_def Let_def new_header_def request_type_from_def virtio_defs parse_descs_def
      check_validity_def check_status_desc_def to_pending_request_def flush_pending_def)

lemma trace_record_status:
  "status_memory H D status_at hdr_addr \<Longrightarrow> status_at (trace_record H d oper off len w) = status_at w"
  by (simp add: status_memory_def trace_record_def trace_config_def Let_def split_beta split: option.split)

lemma flush_handle:
  assumes "flush_bench H D q flight sq status_at set_queue hdr_addr n"
  defines "room \<equiv> \<lambda>w. sq w < n \<and> size (flight w) < 2 * n"
  shows "\<exists>w'. handle_chain H D (flush_chain hdr_addr status_addr k) b w =
      (Some (if room w then Submitted else Throttled), b, w') \<and>
    q w' = q w \<and> status_at w' = status_at w \<and> sq w' = (if room w then sq w + 1 else sq w) \<and>
    flight w' = flight w + (if room w then {#flush_pending status_addr k#} else {#})"
proof -
  note B = flush_bench_parts [OF assms(1)]
  note L = life_contract_parts [OF B(1)]
  obtain req where req: "parse H (flush_chain hdr_addr status_addr k) (nsectors (disk b)) w = Ok req" "rq_type req = Flush"
    "to_pending_request req (d_index (flush_chain hdr_addr status_addr k)) = flush_pending status_addr k"
    using parse_flush [OF status_memory_facts(10) [OF B(3)]] by blast
  let ?p = "flush_pending status_addr k"
  obtain w1 where rl: "rl_consume H 1 Ops w = (True, w1)" using B(5) by (metis prod.collapse)
  define w2 where "w2 = trace_record H (blk_id b) ''flush'' 0 0 w1"
  obtain r w3 where e: "e_flush H ?p w2 = (r, w3)" by (cases "e_flush H ?p w2")
  note M = status_memory_facts [OF B(3)] and U = uring_engine_facts [OF B(2)]
  have law: "if sq w2 < n \<and> size (flight w2) < 2 * n then r = EngineSubmitted \<and> sq w3 = sq w2 + 1
      else (\<exists>x. r = EngineErr x ?p \<and> e_is_throttling_err H x) \<and> sq w3 = sq w2"
    by (rule U(4) [OF e])
  have "q w1 = q w" "flight w1 = flight w" "sq w1 = sq w" "status_at w1 = status_at w"
    using rl L(2,5) U(1) M(7) [of 1 Ops w] unfolding queue_framed_def host_framed_def by (metis snd_conv)+
  moreover have "q w2 = q w1" "flight w2 = flight w1" "sq w2 = sq w1" "status_at w2 = status_at w1"
    using trace_record_framed [of H q] trace_record_flight [OF L(5)] trace_record_flight [OF U(1)] trace_record_status [OF B(3)] L(2)
    by (simp_all add: w2_def queue_framed_def)
  moreover have "q w3 = q w2" "status_at w3 = status_at w2"
    using L(2) M(3) [of ?p w2] e unfolding queue_framed_def engine_framed_def by (metis snd_conv)+
  moreover have "flight w3 = flight w2 + (if r = EngineSubmitted then {#?p#} else {#})"
    by (rule flight_flush [OF L(4) e])
  moreover have "handle_chain H D (flush_chain hdr_addr status_addr k) b w =
      (Some (if r = EngineSubmitted then Submitted else Throttled), b, w3)"
    using req rl e law by (auto simp: handle_chain_def rate_limit_def process_def submit_def
        process_engine_result_def w2_def [symmetric] Let_def split: if_splits)
  ultimately show ?thesis using law unfolding room_def by (auto split: if_splits)
qed

section \<open>A batch\<close>

text \<open>How many of a batch the engine takes before one of its queues is full.\<close>

definition accepted :: "nat \<Rightarrow> nat \<Rightarrow> nat \<Rightarrow> nat \<Rightarrow> nat" where
  "accepted n queued inflight batch = min batch (min (n - queued) (2 * n - inflight))"

lemma accepted_Suc:
  "accepted n queued inflight (Suc batch) =
     (if queued < n \<and> inflight < 2 * n then Suc (accepted n (Suc queued) (Suc inflight) batch) else 0)"
  by (auto simp: accepted_def min_def)

lemma untouched_facts:
  assumes "untouched D view"
  shows "view (snd (q_pop D w)) = view w" "view (q_undo_pop D w) = view w" "view (snd (q_add_used D i k w)) = view w"
    "view (q_advance_used_ring_idx D w) = view w" "view (snd (q_prepare_kick D w)) = view w"
    "view (snd (i_trigger_queue D w)) = view w" "view (snd (ev_queue_read D w)) = view w"
    "view (snd (ev_completion_read D w)) = view w" "view (snd (e_pop D w)) = view w"
    "view (e_drain_and_flush D x w) = view w"
  using assms unfolding untouched_def by blast+

lemma pop_cases:
  assumes "queue_contract D q" "unobstructed D"
  obtains (empty) w' where "q_pop D w = (Inr None, w')" "qv_avail (q w) = []" "q w' = q w"
  | (head) h w' where "q_pop D w = (Inr (Some h), w')" "qv_avail (q w) = h # qv_avail (q w')"
      "qv_used (q w') = qv_used (q w)" "qv_popped (q w') = Some h"
proof -
  obtain x w' where p: "q_pop D w = (x, w')" by (cases "q_pop D w")
  have "is_ok x" using assms(2) p unfolding unobstructed_def by (metis fst_conv)
  then obtain y where x: "x = Inr y" by (auto simp: is_ok_iff)
  show thesis
  proof (cases y)
    case None
    with p x have e: "q_pop D w = (Inr None, w')" by simp
    from empty [OF e] pop_None [OF assms(1) e] show thesis by blast
  next
    case (Some h)
    with p x have e: "q_pop D w = (Inr (Some h), w')" by simp
    from head [OF e] pop_Some [OF assms(1) e] show thesis by blast
  qed
qed

lemma flush_loop:
  assumes "flush_bench H D q flight sq status_at set_queue hdr_addr n"
    and "qv_avail (q w) = map (flush_chain hdr_addr status_addr) ks"
  defines "m \<equiv> accepted n (sq w) (size (flight w)) (length ks)"
  shows "\<exists>b' w'. chain_loop H D u b w = Some (Ok u, b', w') \<and> core b' = core b \<and>
    is_io_engine_throttled b' = (is_io_engine_throttled b \<or> m < length ks) \<and>
    qv_avail (q w') = map (flush_chain hdr_addr status_addr) (drop m ks) \<and> qv_used (q w') = qv_used (q w) \<and>
    status_at w' = status_at w \<and> sq w' = sq w + m \<and>
    flight w' = flight w + mset (map (flush_pending status_addr) (take m ks))"
  using assms(2) unfolding m_def
proof (induction ks arbitrary: b w)
  note B = flush_bench_parts [OF assms(1)]
  note L = life_contract_parts [OF B(1)] and M = status_memory_facts [OF B(3)] and U = uring_engine_facts [OF B(2)]
  case Nil
  from Nil obtain w1 where p: "q_pop D w = (Inr None, w1)" and "q w1 = q w" "qv_avail (q w) = []"
    by (cases rule: pop_cases [OF L(1) B(4), of w]) simp_all
  moreover have "status_at w1 = status_at w" "sq w1 = sq w" "flight w1 = flight w"
    using untouched_facts(1) [OF M(1), of w] untouched_facts(1) [OF U(2), of w] L(12) [of w] p by simp_all
  ultimately show ?case using p by (subst chain_loop.simps) (simp add: accepted_def)
next
  note B = flush_bench_parts [OF assms(1)]
  note L = life_contract_parts [OF B(1)] and M = status_memory_facts [OF B(3)] and U = uring_engine_facts [OF B(2)]
  case (Cons k ks)
  let ?h = "flush_chain hdr_addr status_addr k"
  from Cons.prems obtain w1 where x: "q_pop D w = (Inr (Some ?h), w1)"
    and q1: "qv_avail (q w1) = map (flush_chain hdr_addr status_addr) ks" "qv_used (q w1) = qv_used (q w)"
    and popped: "qv_popped (q w1) = Some ?h"
    by (cases rule: pop_cases [OF L(1) B(4), of w]) simp_all
  have w1: "status_at w1 = status_at w" "sq w1 = sq w" "flight w1 = flight w"
    using untouched_facts(1) [OF M(1), of w] untouched_facts(1) [OF U(2), of w] L(12) [of w] x by simp_all
  define b1 where "b1 = b\<lparr>metrics := (metrics b)\<lparr>remaining_reqs_count :=
         remaining_reqs_count (metrics b) + q_len D w1\<rparr>\<rparr>"
  define room where "room \<longleftrightarrow> sq w < n \<and> size (flight w) < 2 * n"
  obtain w2 where h: "handle_chain H D ?h b1 w1 = (Some (if room then Submitted else Throttled), b1, w2)"
    and w2: "q w2 = q w1" "status_at w2 = status_at w1" "sq w2 = (if room then sq w + 1 else sq w)"
      "flight w2 = flight w + (if room then {#flush_pending status_addr k#} else {#})"
    using flush_handle [OF assms(1), of status_addr k b1 w1] w1 unfolding room_def by metis
  show ?case
  proof (cases room)
    case True
    have "accepted n (sq w) (size (flight w)) (length (k # ks)) = Suc (accepted n (sq w2) (size (flight w2)) (length ks))"
      using True w2 by (simp add: accepted_Suc room_def)
    moreover have "chain_loop H D u b w = chain_loop H D u b1 w2"
      using x h True by (subst chain_loop.simps) (simp add: Let_def b1_def [symmetric])
    moreover have "qv_avail (q w2) = map (flush_chain hdr_addr status_addr) ks" using q1(1) w2(1) by simp
    from Cons.IH [OF this, of b1] obtain b' w' where "chain_loop H D u b1 w2 = Some (Ok u, b', w')" "core b' = core b1"
      "is_io_engine_throttled b' = (is_io_engine_throttled b1 \<or> accepted n (sq w2) (size (flight w2)) (length ks) < length ks)"
      "qv_avail (q w') = map (flush_chain hdr_addr status_addr) (drop (accepted n (sq w2) (size (flight w2)) (length ks)) ks)"
      "qv_used (q w') = qv_used (q w2)" "status_at w' = status_at w2"
      "sq w' = sq w2 + accepted n (sq w2) (size (flight w2)) (length ks)"
      "flight w' = flight w2 + mset (map (flush_pending status_addr) (take (accepted n (sq w2) (size (flight w2)) (length ks)) ks))"
      by blast
    moreover have "core b1 = core b" "is_io_engine_throttled b1 = is_io_engine_throttled b" by (simp_all add: b1_def)
    ultimately show ?thesis using q1(2) w1 w2 True by (intro exI [of _ b'] exI [of _ w']) simp
  next
    case False
    let ?w = "q_undo_pop D w2"
    have "accepted n (sq w) (size (flight w)) (length (k # ks)) = 0" using False by (simp add: accepted_Suc room_def)
    moreover have "status_at ?w = status_at w" "sq ?w = sq w" "flight ?w = flight w"
      using untouched_facts(2) [OF M(1), of w2] untouched_facts(2) [OF U(2), of w2] L(13) [of w2] w1 w2 False by simp_all
    moreover have "qv_popped (q w2) = Some ?h" using popped w2(1) by simp
    then have "qv_used (q ?w) = qv_used (q w)" "qv_avail (q ?w) = map (flush_chain hdr_addr status_addr) (k # ks)"
      using undo_pop [OF L(1), of w2 ?h] w2 q1 by simp_all
    moreover have "chain_loop H D u b w = Some (Ok u, b1\<lparr>is_io_engine_throttled := True\<rparr>, ?w)"
      using x h False by (subst chain_loop.simps) (simp add: Let_def b1_def [symmetric])
    moreover have "core b1 = core b" by (simp add: b1_def)
    ultimately show ?thesis by (intro exI [of _ "b1\<lparr>is_io_engine_throttled := True\<rparr>"] exI [of _ ?w]) simp
  qed
qed

text \<open>Taking the completions answers all that is in flight, each with its status word.\<close>

definition flushes_in_flight :: "('w \<Rightarrow> pending_request multiset) \<Rightarrow> u64 \<Rightarrow> 'w \<Rightarrow> bool" where
  "flushes_in_flight flight status_addr w \<longleftrightarrow> (\<forall>p\<in>#flight w. \<exists>k<32768. p = flush_pending status_addr k)"

definition all_answered :: "('w \<Rightarrow> queue_view) \<Rightarrow> ('w \<Rightarrow> u64 \<Rightarrow> u8) \<Rightarrow> u64 \<Rightarrow> 'w \<Rightarrow> bool" where
  "all_answered q status_at status_addr w \<longleftrightarrow>
     list_all (\<lambda>(i, n). n = 1 \<and> status_at w (status_word status_addr i) = VIRTIO_BLK_S_OK) (qv_used (q w))"

lemma status_word_pending:
  "k < 32768 \<Longrightarrow> status_word status_addr (p_desc_idx (flush_pending status_addr k)) = p_status_addr (flush_pending status_addr k)"
proof -
  assume "k < 32768"
  then have "unat (of_nat (2 * k) :: u16) = 2 * k" by (simp only: unat_of_nat) (simp add: take_bit_nat_eq_self_iff)
  then show ?thesis by (simp add: status_word_def flush_pending_def)
qed

lemma flush_completions:
  assumes "flush_bench H D q flight sq status_at set_queue hdr_addr n"
    and "flushes_in_flight flight status_addr w" "all_answered q status_at status_addr w"
  shows "\<exists>b' w'. completion_loop H D b w = Some (b', w') \<and> core b' = core b \<and>
    is_io_engine_throttled b' = is_io_engine_throttled b \<and> qv_avail (q w') = qv_avail (q w) \<and>
    length (qv_used (q w')) = length (qv_used (q w)) + size (flight w) \<and> all_answered q status_at status_addr w' \<and>
    sq w' = sq w \<and> flight w' = {#}"
  using assms(2,3)
proof (induction "size (flight w)" arbitrary: b w)
  note B = flush_bench_parts [OF assms(1)]
  note L = life_contract_parts [OF B(1)] and M = status_memory_facts [OF B(3)] and U = uring_engine_facts [OF B(2)]
  {
    case 0
    obtain x w1 where p: "e_pop D w = (x, w1)" by (cases "e_pop D w")
    have "\<forall>c. x \<noteq> Inr (Some c)" using flight_pop [OF L(4), of w] p 0(1) by fastforce
    moreover from this have "completion_loop H D b w = Some (b, w1)"
      using p by (subst completion_loop.simps) (auto split: sum.splits option.splits)
    moreover have "q w1 = q w" "sq w1 = sq w" "status_at w1 = status_at w"
      using L(9) [of w] untouched_facts(9) [OF U(2), of w] untouched_facts(9) [OF M(1), of w] p by simp_all
    ultimately show ?case using flight_pop_none [OF L(4) p] 0 by (simp add: all_answered_def)
  next
    case (Suc s)
    then have "flight w \<noteq> {#}" by auto
    then obtain pend x w1 where p: "e_pop D w = (Inr (Some (pend, Inr x)), w1)" using U(5) by (metis prod.collapse)
    have fl: "flight w = add_mset pend (flight w1)" by (rule flight_pop [OF L(4) p])
    obtain k where k: "k < 32768" "pend = flush_pending status_addr k" using Suc(3) fl by (auto simp: flushes_in_flight_def)
    obtain f m w2 where f: "finish H pend (Ok x) (metrics b) w1 = (f, m, w2)" by (cases "finish H pend (Ok x) (metrics b) w1")
    define w3 where "w3 = snd (q_add_used D (f_desc_idx f) (num_bytes_to_mem f) w2)"
    have st: "w2 = snd (g_write_status H VIRTIO_BLK_S_OK (p_status_addr pend) w1)" "num_bytes_to_mem f = 1"
      "f_desc_idx f = p_desc_idx pend"
      using f M(8) [of VIRTIO_BLK_S_OK "p_status_addr pend" w1] k
      by (auto simp: finish_def write_status_and_finish_def status_reply_def flush_pending_def Let_def is_ok_iff split: prod.splits)
    have "q_add_used D (f_desc_idx f) (num_bytes_to_mem f) w2 = (True, w3)"
      unfolding w3_def using L(11) by (metis prod.collapse)
    from add_used [OF L(1) this] have q3: "q w3 = (q w2)\<lparr>qv_used := qv_used (q w2) @ [(p_desc_idx pend, 1)]\<rparr>" using st by simp
    have "engine_framed H q" using L(2) by (simp add: queue_framed_def)
    then have "q w2 = q w1" by (simp add: engine_framed_def st(1))
    moreover have "q w1 = q w" "sq w1 = sq w" "status_at w1 = status_at w"
      using L(9) [of w] untouched_facts(9) [OF U(2), of w] untouched_facts(9) [OF M(1), of w] p by simp_all
    moreover have "sq w2 = sq w1" using U(1) by (simp add: host_framed_def st(1))
    moreover have "flight w2 = flight w1" using L(5) by (simp add: host_framed_def st(1))
    moreover have "status_at w2 = (status_at w1)(p_status_addr pend := VIRTIO_BLK_S_OK)" unfolding st(1) by (rule M(9))
    moreover have "sq w3 = sq w2" "status_at w3 = status_at w2" "flight w3 = flight w2"
      using untouched_facts(3) [OF U(2)] untouched_facts(3) [OF M(1)] L(14) by (simp_all only: w3_def)
    ultimately have w3: "sq w3 = sq w" "flight w3 = flight w1" "qv_avail (q w3) = qv_avail (q w)"
      "qv_used (q w3) = qv_used (q w) @ [(p_desc_idx pend, 1)]"
      "status_at w3 = (status_at w)(p_status_addr pend := VIRTIO_BLK_S_OK)"
      using q3 by simp_all
    have "all_answered q status_at status_addr w3"
      using Suc(4) w3 k status_word_pending [OF k(1), of status_addr]
      by (auto simp: all_answered_def list_all_iff)
    moreover have "flushes_in_flight flight status_addr w3" "s = size (flight w3)"
      using Suc(2,3) fl w3(2) by (auto simp: flushes_in_flight_def)
    moreover have "completion_loop H D b w = completion_loop H D (b\<lparr>metrics := m\<rparr>) w3"
      using p f by (subst completion_loop.simps) (simp add: w3_def)
    ultimately show ?case using Suc(1) [of w3 "b\<lparr>metrics := m\<rparr>"] w3 fl by simp
  }
qed

section \<open>The steps of the scenarios\<close>

text \<open>
  Where a scenario stands between two of its steps: the requests still in the queue, the flag, and how many
  requests are answered and in flight. The submission queue is empty, since the device kicks it.
\<close>

definition bench_at ::
  "('w \<Rightarrow> queue_view) \<Rightarrow> ('w \<Rightarrow> pending_request multiset) \<Rightarrow> ('w \<Rightarrow> nat) \<Rightarrow> ('w \<Rightarrow> u64 \<Rightarrow> u8) \<Rightarrow> u64 \<Rightarrow> u64 \<Rightarrow>
     nat list \<Rightarrow> bool \<Rightarrow> nat \<Rightarrow> nat \<Rightarrow> virtio_block \<times> 'w \<Rightarrow> bool" where
  "bench_at q flight sq status_at hdr_addr status_addr ks t answered inflight s \<longleftrightarrow>
     (case s of (b, w) \<Rightarrow>
        activated b \<and> file_engine (disk b) = Async \<and> is_io_engine_throttled b = t \<and>
        qv_avail (q w) = map (flush_chain hdr_addr status_addr) ks \<and> (\<forall>k\<in>set ks. k < 32768) \<and>
        length (qv_used (q w)) = answered \<and> all_answered q status_at status_addr w \<and>
        size (flight w) = inflight \<and> flushes_in_flight flight status_addr w \<and> sq w = 0)"

lemma core_same:
  "core b' = core b \<Longrightarrow> activated b' = activated b \<and> disk b' = disk b"
  unfolding core_def by (drule arg_cong [of _ _ "\<lambda>c. (activated c, disk c)"]) simp

lemma add_flush_step:
  assumes "flush_bench H D q flight sq status_at set_queue hdr_addr n" "unat cnt \<le> 32768"
    and "bench_at q flight sq status_at hdr_addr status_addr ks t answered inflight (b, w)"
  shows "bench_at q flight sq status_at hdr_addr status_addr [0..<unat cnt] t 0 inflight
     (b, add_flush_requests_batch set_queue hdr_addr status_addr cnt w)"
proof -
  note B = flush_bench_parts [OF assms(1)]
  show ?thesis
    using assms(2,3) B(8-11) by (auto simp: bench_at_def add_flush_requests_batch_def all_answered_def flushes_in_flight_def)
qed

lemma queue_step:
  assumes "flush_bench H D q flight sq status_at set_queue hdr_addr n"
    and "bench_at q flight sq status_at hdr_addr status_addr ks False answered inflight (b, w)"
  defines "m \<equiv> accepted n 0 inflight (length ks)"
  shows "\<exists>b' w'. process_queue H D b w = Some (Some (Ok ()), b', w') \<and>
    bench_at q flight sq status_at hdr_addr status_addr (drop m ks) (m < length ks) answered (inflight + m) (b', w')"
proof -
  note B = flush_bench_parts [OF assms(1)]
  note L = life_contract_parts [OF B(1)] and M = status_memory_facts [OF B(3)] and U = uring_engine_facts [OF B(2)]
  note S = assms(2) [unfolded bench_at_def prod.case]
  obtain b1 w1 where l: "chain_loop H D False b w = Some (Ok False, b1, w1)" "core b1 = core b"
    "is_io_engine_throttled b1 = (m < length ks)" "qv_avail (q w1) = map (flush_chain hdr_addr status_addr) (drop m ks)"
    "qv_used (q w1) = qv_used (q w)" "status_at w1 = status_at w"
    "flight w1 = flight w + mset (map (flush_pending status_addr) (take m ks))"
    using flush_loop [OF assms(1), of w status_addr ks False b] S unfolding m_def by auto
  obtain b2 w2 where f: "finish_queue D False b1 w1 = (b2, w2)" by (cases "finish_queue D False b1 w1")
  have async: "file_engine (disk b1) = Async" "activated b" using core_same [OF l(2)] S by simp_all
  then have w2: "w2 = e_kick_submission_queue D (q_advance_used_ring_idx D w1)"
    using f by (auto simp: finish_queue_def Let_def)
  have same: "q w2 = q w1" "flight w2 = flight w1" "status_at w2 = status_at w1" "sq w2 = 0"
    using L(7,8) M(2) untouched_facts(4) [OF M(1)] U(3) by (simp_all add: w2 kick_framed_def)
  have core: "activated b2 = activated b \<and> disk b2 = disk b"
    using core_same [OF core_finish_queue [OF f]] core_same [OF l(2)] by simp
  have "size (flight w1) = inflight + m" using S l(7) by (simp add: m_def accepted_def)
  moreover have "flushes_in_flight flight status_addr w2"
    using S l(7) same(2) by (auto simp: flushes_in_flight_def dest: in_set_takeD)
  moreover have "\<forall>k\<in>set (drop m ks). k < 32768" using S by (auto dest: in_set_dropD)
  moreover have "process_queue H D b w = Some (Some (Ok ()), b2, w2)"
    using l(1) f async by (simp add: process_queue_def)
  ultimately show ?thesis
    using S l same core finish_queue_flag [OF f] by (simp add: bench_at_def all_answered_def)
qed

lemma queue_event_step:
  assumes "flush_bench H D q flight sq status_at set_queue hdr_addr n"
    and "bench_at q flight sq status_at hdr_addr status_addr ks False answered inflight (b, w)"
  defines "m \<equiv> accepted n 0 inflight (length ks)"
  shows "\<exists>b' w'. block_step H D QueueEvent (b, w) = Some (b', w') \<and>
    bench_at q flight sq status_at hdr_addr status_addr (drop m ks) (m < length ks) answered (inflight + m) (b', w')"
proof -
  note B = flush_bench_parts [OF assms(1)]
  note L = life_contract_parts [OF B(1)] and M = status_memory_facts [OF B(3)] and U = uring_engine_facts [OF B(2)]
  obtain w1 where r: "ev_queue_read D w = (True, w1)" using B(6) by (metis prod.collapse)
  have same: "q w1 = q w" "flight w1 = flight w" "status_at w1 = status_at w" "sq w1 = sq w"
    using L(3,6) untouched_facts(7) [OF M(1), of w] untouched_facts(7) [OF U(2), of w] r
    unfolding device_framed_def by (metis snd_conv)+
  define b1 where "b1 = b\<lparr>metrics := (metrics b)\<lparr>queue_event_count := queue_event_count (metrics b) + 1\<rparr>\<rparr>"
  have "bench_at q flight sq status_at hdr_addr status_addr ks False answered inflight (b1, w1)"
    using assms(2) same by (simp add: bench_at_def b1_def all_answered_def flushes_in_flight_def)
  from queue_step [OF assms(1) this] obtain b' w' where "process_queue H D b1 w1 = Some (Some (Ok ()), b', w')"
    "bench_at q flight sq status_at hdr_addr status_addr (drop m ks) (m < length ks) answered (inflight + m) (b', w')"
    unfolding m_def by blast
  moreover have "\<not> is_io_engine_throttled b1" "\<not> rl_is_blocked D w1"
    using assms(2) B(4) by (simp_all add: bench_at_def b1_def unobstructed_def)
  ultimately show ?thesis
    using r by (simp add: process_queue_event_def process_virtio_queues_def b1_def Let_def)
qed

lemma completions_step:
  assumes "flush_bench H D q flight sq status_at set_queue hdr_addr n"
    and "bench_at q flight sq status_at hdr_addr status_addr ks t answered inflight (b, w)"
  shows "\<exists>b' w'. process_async_completion_queue H D b w = Some (Some (), b', w') \<and>
    bench_at q flight sq status_at hdr_addr status_addr ks t (answered + inflight) 0 (b', w')"
proof -
  note B = flush_bench_parts [OF assms(1)]
  note L = life_contract_parts [OF B(1)] and M = status_memory_facts [OF B(3)] and U = uring_engine_facts [OF B(2)]
  note S = assms(2) [unfolded bench_at_def prod.case]
  obtain b1 w1 where l: "completion_loop H D b w = Some (b1, w1)" "core b1 = core b"
    "is_io_engine_throttled b1 = is_io_engine_throttled b" "qv_avail (q w1) = qv_avail (q w)"
    "length (qv_used (q w1)) = length (qv_used (q w)) + size (flight w)" "all_answered q status_at status_addr w1"
    "sq w1 = sq w" "flight w1 = {#}"
    using flush_completions [OF assms(1), of status_addr w b] S by blast
  obtain b2 w2 where k: "kick_guest D b1 (q_advance_used_ring_idx D w1) = (b2, w2)"
    by (cases "kick_guest D b1 (q_advance_used_ring_idx D w1)")
  have same: "view w2 = view w1"
    if "\<forall>v. view (q_advance_used_ring_idx D v) = view v" "\<forall>v. view (snd (q_prepare_kick D v)) = view v"
      "\<forall>v. view (snd (i_trigger_queue D v)) = view v" for view :: "_ \<Rightarrow> 'z"
    using k that by (auto simp: kick_guest_def split: prod.splits bool.splits) (metis snd_conv)+
  have "q w2 = q w1" "flight w2 = flight w1"
    using L(7,8) unfolding kick_framed_def by (intro same; blast)+
  moreover have "status_at w2 = status_at w1" by (intro same allI untouched_facts(4-6) [OF M(1)])
  moreover have "sq w2 = sq w1" by (intro same allI untouched_facts(4-6) [OF U(2)])
  moreover have "activated b2 = activated b \<and> disk b2 = disk b"
    using core_same [OF core_kick_guest [OF k]] core_same [OF l(2)] by simp
  moreover have "process_async_completion_queue H D b w = Some (Some (), b2, w2)"
    using S l(1) k by (simp add: process_async_completion_queue_def)
  ultimately show ?thesis
    using S l kick_guest_flag [OF k] by (simp add: bench_at_def all_answered_def flushes_in_flight_def)
qed

lemma completion_event_step:
  assumes "flush_bench H D q flight sq status_at set_queue hdr_addr n"
    and "bench_at q flight sq status_at hdr_addr status_addr ks t answered inflight (b, w)"
  defines "m \<equiv> if t then accepted n 0 0 (length ks) else 0"
  shows "\<exists>b' w'. block_step H D CompletionEvent (b, w) = Some (b', w') \<and>
    bench_at q flight sq status_at hdr_addr status_addr (drop m ks) (t \<and> m < length ks) (answered + inflight) m (b', w')"
proof -
  note B = flush_bench_parts [OF assms(1)]
  note L = life_contract_parts [OF B(1)] and M = status_memory_facts [OF B(3)] and U = uring_engine_facts [OF B(2)]
  obtain w1 where r: "ev_completion_read D w = (True, w1)" using B(7) by (metis prod.collapse)
  have same: "q w1 = q w" "flight w1 = flight w" "status_at w1 = status_at w" "sq w1 = sq w"
    using L(3,6) untouched_facts(8) [OF M(1), of w] untouched_facts(8) [OF U(2), of w] r
    unfolding device_framed_def by (metis snd_conv)+
  have async: "file_engine (disk b) \<noteq> Sync" using assms(2) by (simp add: bench_at_def)
  have "bench_at q flight sq status_at hdr_addr status_addr ks t answered inflight (b, w1)"
    using assms(2) same by (simp add: bench_at_def all_answered_def flushes_in_flight_def)
  from completions_step [OF assms(1) this] obtain b2 w2 where
    c: "process_async_completion_queue H D b w1 = Some (Some (), b2, w2)" and
    s: "bench_at q flight sq status_at hdr_addr status_addr ks t (answered + inflight) 0 (b2, w2)" by blast
  show ?thesis
  proof (cases t)
    case True
    have "bench_at q flight sq status_at hdr_addr status_addr ks False (answered + inflight) 0
      (b2\<lparr>is_io_engine_throttled := False\<rparr>, w2)" using s by (simp add: bench_at_def)
    from queue_step [OF assms(1) this] obtain b' w' where
      "process_queue H D (b2\<lparr>is_io_engine_throttled := False\<rparr>) w2 = Some (Some (Ok ()), b', w')"
      "bench_at q flight sq status_at hdr_addr status_addr (drop m ks) (m < length ks) (answered + inflight) m (b', w')"
      using True unfolding m_def by auto
    moreover have "is_io_engine_throttled b2" using s True by (simp add: bench_at_def)
    ultimately show ?thesis using r c async True by (simp add: process_async_completion_event_def)
  next
    case False
    moreover have "\<not> is_io_engine_throttled b2" using s False by (simp add: bench_at_def)
    ultimately show ?thesis using r c s async by (simp add: process_async_completion_event_def m_def)
  qed
qed

lemma prepare_save_step:
  assumes "flush_bench H D q flight sq status_at set_queue hdr_addr n"
    and "bench_at q flight sq status_at hdr_addr status_addr ks t answered inflight (b, w)"
  shows "\<exists>b' w'. block_step H D PrepareSave (b, w) = Some (b', w') \<and>
    bench_at q flight sq status_at hdr_addr status_addr ks t (answered + inflight) 0 (b', w')"
proof -
  note B = flush_bench_parts [OF assms(1)]
  note L = life_contract_parts [OF B(1)] and M = status_memory_facts [OF B(3)] and U = uring_engine_facts [OF B(2)]
  let ?w = "e_drain_and_flush D False w"
  have "q ?w = q w" "flight ?w = flight w" "status_at ?w = status_at w" "sq ?w = sq w"
    using L(3,6) untouched_facts(10) [OF M(1)] untouched_facts(10) [OF U(2)] by (simp_all add: device_framed_def)
  then have "bench_at q flight sq status_at hdr_addr status_addr ks t answered inflight (b, ?w)"
    using assms(2) by (simp add: bench_at_def all_answered_def flushes_in_flight_def)
  from completions_step [OF assms(1) this] assms(2) show ?thesis
    by (auto simp: prepare_save_def drain_and_flush_def bench_at_def)
qed

section \<open>The scenarios on counters\<close>

text \<open>
  What a scenario is about: the requests of the batch that are still in the queue (from one number up to
  another), the flag, and the numbers of answered requests and of requests in flight. A step that no
  scenario takes has no counterpart.
\<close>

fun counter_step :: "nat \<Rightarrow> test_step \<Rightarrow> nat \<times> nat \<times> bool \<times> nat \<times> nat \<Rightarrow> (nat \<times> nat \<times> bool \<times> nat \<times> nat) option" where
  "counter_step n (AddFlush cnt) (i, j, t, a, f) = (if unat cnt \<le> 32768 then Some (0, unat cnt, t, 0, f) else None)"
| "counter_step n (Handle QueueEvent) (i, j, t, a, f) =
     (let m = accepted n 0 f (j - i) in if t then None else Some (i + m, j, m < j - i, a, f + m))"
| "counter_step n (Handle CompletionEvent) (i, j, t, a, f) =
     (let m = if t then accepted n 0 0 (j - i) else 0 in Some (i + m, j, t \<and> m < j - i, a + f, m))"
| "counter_step n (Handle PrepareSave) (i, j, t, a, f) = Some (i, j, t, a + f, 0)"
| "counter_step n (Handle ev) (i, j, t, a, f) = None"
| "counter_step n (AssertThrottled t') (i, j, t, a, f) = (if t = t' then Some (i, j, t, a, f) else None)"
| "counter_step n (CheckFlush cnt) (i, j, t, a, f) = (if unat cnt = a then Some (i, j, t, a, f) else None)"

fun bench_counts ::
  "('w \<Rightarrow> queue_view) \<Rightarrow> ('w \<Rightarrow> pending_request multiset) \<Rightarrow> ('w \<Rightarrow> nat) \<Rightarrow> ('w \<Rightarrow> u64 \<Rightarrow> u8) \<Rightarrow> u64 \<Rightarrow> u64 \<Rightarrow>
     virtio_block \<times> 'w \<Rightarrow> nat \<times> nat \<times> bool \<times> nat \<times> nat \<Rightarrow> bool" where
  "bench_counts q flight sq status_at hdr_addr status_addr s (i, j, t, a, f) =
     bench_at q flight sq status_at hdr_addr status_addr [i..<j] t a f s"

lemma counter_step_simulated:
  assumes "flush_bench H D q flight sq status_at set_queue hdr_addr n"
    and "bench_counts q flight sq status_at hdr_addr status_addr s x" "counter_step n act x = Some y"
  shows "\<exists>s'. scenario_step H D q status_at set_queue hdr_addr status_addr act s = Some s' \<and>
    bench_counts q flight sq status_at hdr_addr status_addr s' y"
proof -
  obtain i j t a f b w where x: "x = (i, j, t, a, f)" and s: "s = (b, w)" by (cases x; cases s)
  note at = assms(2) [unfolded x s bench_counts.simps]
  show ?thesis
  proof (cases act)
    case (AddFlush cnt)
    with assms(3) x add_flush_step [OF assms(1) _ at] show ?thesis by (auto simp: s split: if_splits)
  next
    case (Handle ev)
    with assms(3) x consider "ev = QueueEvent" "\<not> t" | "ev = CompletionEvent" | "ev = PrepareSave"
      by (cases ev) (auto simp: Let_def split: if_splits)
    then show ?thesis
    proof cases
      case 1
      with queue_event_step [OF assms(1), of status_addr "[i..<j]" a f b w] at assms(3) Handle show ?thesis
        by (auto simp: x s Let_def simp del: block_step.simps)
    next
      case 2
      with completion_event_step [OF assms(1) at] assms(3) Handle show ?thesis
        by (auto simp: x s Let_def simp del: block_step.simps)
    next
      case 3
      with prepare_save_step [OF assms(1) at] assms(3) Handle show ?thesis
        by (auto simp: x s simp del: block_step.simps)
    qed
  next
    case (AssertThrottled t')
    with assms(3) at show ?thesis by (auto simp: x s bench_at_def split: if_splits)
  next
    case (CheckFlush cnt)
    with assms(3) at show ?thesis
      by (auto simp: x s bench_at_def check_flush_requests_batch_def all_answered_def split: if_splits)
  qed
qed

interpretation counters:
  machine_simulation "scenario_step H D q status_at set_queue hdr_addr status_addr" "counter_step n"
    "\<lambda>s x. flush_bench H D q flight sq status_at set_queue hdr_addr n \<and>
       bench_counts q flight sq status_at hdr_addr status_addr s x"
    for H D q status_at set_queue hdr_addr status_addr n flight sq
  by unfold_locales (blast dest: counter_step_simulated)

text \<open>A test starts with an activated device and nothing in the queue or in flight.\<close>

definition bench_start ::
  "('w \<Rightarrow> queue_view) \<Rightarrow> ('w \<Rightarrow> pending_request multiset) \<Rightarrow> ('w \<Rightarrow> nat) \<Rightarrow> virtio_block \<Rightarrow> 'w \<Rightarrow> bool" where
  "bench_start q flight sq b w \<longleftrightarrow>
     activated b \<and> file_engine (disk b) = Async \<and> \<not> is_io_engine_throttled b \<and>
     qv_avail (q w) = [] \<and> qv_used (q w) = [] \<and> flight w = {#} \<and> sq w = 0"

section \<open>Properties\<close>

text \<open>
  C15: flush batches behave as their counters say. Take any sequence of batches, queue and completion events, snapshots and
  assertions on the flag and the answers, and any size n of the submission queue. If the sequence succeeds on
  the counters, where a batch is accepted up to n requests at a time and 2n in flight, it succeeds on an
  asynchronous device: no event fails, every assertion holds, every answered request has status OK
  and a length of one byte.
\<close>

theorem flush_scenario_refines:
  assumes "flush_bench H D q flight sq status_at set_queue hdr_addr n" "bench_start q flight sq b w"
    and "exec_all (counter_step n) steps (0, 0, False, 0, 0) = Some (i, j, t, answered, inflight)"
  shows "\<exists>b' w'. exec_all (scenario_step H D q status_at set_queue hdr_addr status_addr) steps (b, w) = Some (b', w') \<and>
    is_io_engine_throttled b' = t \<and> map d_index (qv_avail (q w')) = map (\<lambda>k. of_nat (2 * k)) [i..<j] \<and>
    length (qv_used (q w')) = answered \<and> size (flight w') = inflight"
proof -
  have "bench_counts q flight sq status_at hdr_addr status_addr (b, w) (0, 0, False, 0, 0)"
    using assms(2) by (simp add: bench_start_def bench_at_def all_answered_def flushes_in_flight_def)
  with counters.simulates_run [OF _ assms(3)] assms(1) obtain s where
    s: "exec_all (scenario_step H D q status_at set_queue hdr_addr status_addr) steps (b, w) = Some s"
    "bench_counts q flight sq status_at hdr_addr status_addr s (i, j, t, answered, inflight)" by blast
  then show ?thesis by (cases s) (auto simp: bench_at_def flush_chain_def Let_def)
qed

text \<open>The scenarios of the unit tests succeed on the counters.\<close>

lemma scenarios_counted:
  "exec_all (counter_step 128) test_full_sq (0, 0, False, 0, 0) = Some (138, 138, False, 138, 0)"
  "exec_all (counter_step 128) test_full_cq (0, 0, False, 0, 0) = Some (1, 1, False, 256, 1)"
  "exec_all (counter_step 128) test_prepare_save (0, 0, False, 0, 0) = Some (5, 5, False, 5, 0)"
  by (simp_all add: test_full_sq_def test_full_cq_def test_prepare_save_def IO_URING_NUM_ENTRIES_def accepted_def Let_def)

text \<open>
  the scenarios of \<open>test_io_engine_throttling\<close> and \<open>test_prepare_save\<close> succeed on an asynchronous device
  with a submission queue of \<open>IO_URING_NUM_ENTRIES\<close>: a batch of that size goes through, a larger one
  throttles the device until the next completions, and so does a full completion queue; a
  snapshot waits for the requests in flight.
\<close>

theorem io_engine_tests_pass:
  assumes "flush_bench H D q flight sq status_at set_queue hdr_addr (unat IO_URING_NUM_ENTRIES)"
    and "bench_start q flight sq b w" "test = test_full_sq \<or> test = test_full_cq \<or> test = test_prepare_save"
  shows "\<exists>b' w'. exec_all (scenario_step H D q status_at set_queue hdr_addr status_addr) test (b, w) = Some (b', w')"
proof -
  have "\<exists>y. exec_all (counter_step (unat IO_URING_NUM_ENTRIES)) test (0, 0, False, 0, 0) = Some y"
    using assms(3) scenarios_counted by (auto simp: IO_URING_NUM_ENTRIES_def)
  moreover have "bench_counts q flight sq status_at hdr_addr status_addr (b, w) (0, 0, False, 0, 0)"
    using assms(2) by (simp add: bench_start_def bench_at_def all_answered_def flushes_in_flight_def)
  ultimately obtain s where
    "exec_all (scenario_step H D q status_at set_queue hdr_addr status_addr) test (b, w) = Some s"
    using counters.simulates_run assms(1) by blast
  then show ?thesis by (cases s) blast
qed

text \<open>
  the tests of configuration, configuration space and backing file succeed: a configuration is accepted
  exactly with a path and without a socket; the space reads as the capacity and as what was written to it,
  byte by byte or at once, and an access outside of it changes nothing; the number of sectors and
  the identifier of the disk are those of the file.
\<close>

theorem device_config_tests_pass:
  assumes "file_at D path 1024 mdata" "no_file_at D ''invalid-disk-path''" "\<forall>v. fst (i_trigger_config D v)"
    and "capacity block = 8"
  shows "test_from_config \<and> test_disk_backing_file_helper D path engine w \<noteq> None \<and>
    test_virtio_read_config block \<and> test_virtio_write_config block \<and>
    test_update_disk_image D path mdata block w \<noteq> None"
  using from_config_test backing_file_test [OF assms(1,2)] read_config_test [OF assms(4)] write_config_test
    update_disk_image_test [OF assms(1,3)] by blast

section \<open>A concrete engine\<close>

text \<open>The engine with requests in flight, with a count of the entries submitted since the last kick and the status words.\<close>

type_synonym uring_world = "async_world \<times> nat \<times> (u64 \<Rightarrow> u8)"

definition uring_dev :: "(uring_world, unit, unit) dev_host" where
  "uring_dev = idle_dev
     \<lparr> q_pop := \<lambda>(a, e). (case q_pop async_dev a of (r, a') \<Rightarrow> (r, a', e)),
       q_undo_pop := \<lambda>(a, e). (q_undo_pop async_dev a, e),
       q_add_used := \<lambda>i n (a, e). (case q_add_used async_dev i n a of (r, a') \<Rightarrow> (r, a', e)),
       e_pop := \<lambda>(a, e). (case e_pop async_dev a of (r, a') \<Rightarrow> (r, a', e)),
       e_kick_submission_queue := \<lambda>(a, _, m). (a, 0, m) \<rparr>"

definition uring_host :: "nat \<Rightarrow> uring_world block_host" where
  "uring_host n = (queue_guest False)
     \<lparr> g_read_header := \<lambda>_ _. Ok (new_header VIRTIO_BLK_T_FLUSH 0),
       g_write_status := \<lambda>v addr (a, sq, m). (Ok (), a, sq, m(addr := v)),
       e_flush := \<lambda>p ((v, fl), sq, m). if sq < n \<and> length fl < 2 * n then (EngineSubmitted, (v, fl @ [p]), sq + 1, m)
         else (EngineErr ''full'' p, (v, fl), sq, m),
       e_is_throttling_err := \<lambda>_. True \<rparr>"

definition uring_refill :: "desc_chain list \<Rightarrow> uring_world \<Rightarrow> uring_world" where
  "uring_refill ds = (\<lambda>((v, fl), e). ((\<lparr>qv_avail = ds, qv_used = [], qv_popped = None\<rparr>, fl), e))"

definition uring_start :: uring_world where
  "uring_start = ((\<lparr>qv_avail = [], qv_used = [], qv_popped = None\<rparr>, []), 0, \<lambda>_. 0xFF)"

lemmas uring_defs = uring_dev_def uring_host_def uring_refill_def async_defs

lemma uring_bench:
  "flush_bench (uring_host n) uring_dev (fst \<circ> fst) (\<lambda>w. mset (snd (fst w))) (fst \<circ> snd) (snd \<circ> snd) uring_refill hdr_addr n"
proof -
  have "queue_contract uring_dev (fst \<circ> fst)"
    by (auto simp: queue_contract_def uring_defs Let_def split: list.splits prod.splits)
  moreover have "flight_contract (uring_host n) uring_dev (\<lambda>w. mset (snd (fst w)))"
    by (auto simp: flight_contract_def uring_defs Let_def split: list.splits prod.splits if_splits)
  ultimately have "life_contract (uring_host n) uring_dev (fst \<circ> fst) (\<lambda>w. mset (snd (fst w)))"
    by (simp add: life_contract_def queue_framed_def engine_framed_def device_framed_def kick_framed_def
        host_framed_def uring_defs Let_def split_beta split: list.split)
  moreover have "untouched uring_dev (fst \<circ> snd)" "untouched uring_dev (snd \<circ> snd)"
    by (simp_all add: untouched_def uring_defs Let_def split_beta split: list.split)
  moreover have "uring_engine (uring_host n) uring_dev (\<lambda>w. mset (snd (fst w))) (fst \<circ> snd) n"
    unfolding uring_engine_def using calculation(2)
    by (auto simp: host_framed_def uring_defs Let_def split_beta split: list.split if_splits)
  moreover have "status_memory (uring_host n) uring_dev (snd \<circ> snd) hdr_addr"
    unfolding status_memory_def using calculation(3)
    by (simp add: uring_defs Let_def split_beta)
  moreover have "unobstructed uring_dev"
    by (simp add: unobstructed_def uring_defs split_beta split: list.split)
  ultimately show ?thesis
    by (simp add: flush_bench_def uring_defs Let_def split_beta)
qed

lemma uring_begin: "bench_start (fst \<circ> fst) (\<lambda>w. mset (snd (fst w))) (fst \<circ> snd) async_block uring_start"
  by (simp add: bench_start_def async_block_def demo_block_def uring_start_def)

theorem flush_scenario_refines_witness:
  "\<exists>b' w'. exec_all (scenario_step (uring_host 2) uring_dev (fst \<circ> fst) (snd \<circ> snd) uring_refill 0x1000 0x2000)
      [AddFlush 3, Handle QueueEvent] (async_block, uring_start) = Some (b', w') \<and>
    is_io_engine_throttled b' \<and> map d_index (qv_avail (fst (fst w'))) = [4] \<and> length (snd (fst w')) = 2"
proof -
  have "exec_all (counter_step 2) [AddFlush 3, Handle QueueEvent] (0, 0, False, 0, 0) = Some (2, 3, True, 0, 2)"
    by (simp add: accepted_def Let_def)
  from flush_scenario_refines [OF uring_bench [where hdr_addr = "0x1000"] uring_begin this, where status_addr = "0x2000"] obtain b' w' where
    "exec_all (scenario_step (uring_host 2) uring_dev (fst \<circ> fst) (snd \<circ> snd) uring_refill 0x1000 0x2000)
      [AddFlush 3, Handle QueueEvent] (async_block, uring_start) = Some (b', w')"
    "is_io_engine_throttled b'" "map d_index (qv_avail (fst (fst w'))) = [4]" "length (snd (fst w')) = 2"
    by (auto simp: upt_rec simp del: exec_all.simps)
  then show ?thesis by (intro exI [of _ b'] exI [of _ w'] conjI)
qed

theorem io_engine_tests_pass_witness:
  "\<exists>b' w'. exec_all (scenario_step (uring_host (unat IO_URING_NUM_ENTRIES)) uring_dev (fst \<circ> fst) (snd \<circ> snd) uring_refill
     0x1000 0x2000) test_full_sq (async_block, uring_start) = Some (b', w')"
  by (rule io_engine_tests_pass [OF uring_bench uring_begin]) simp

definition two_sectors :: "(unit, unit, unit) dev_host" where
  "two_sectors = idle_dev
     \<lparr> f_open := \<lambda>path _ w. if path = ''disk'' then (Ok 3, w) else (Err ''ENOENT'', w), f_seek_end := \<lambda>_ w. (Ok 1024, w),
       e_update_file_path := \<lambda>_ w. (Ok (), w) \<rparr>"

theorem device_config_tests_pass_witness:
  "test_disk_backing_file_helper two_sectors ''disk'' Sync () \<noteq> None \<and>
   test_update_disk_image two_sectors ''disk'' (1, 0, 42) demo_block () \<noteq> None"
proof -
  have "file_at two_sectors ''disk'' 1024 (1, 0, 42)" "no_file_at two_sectors ''invalid-disk-path''"
    "\<forall>v. fst (i_trigger_config two_sectors v)" "capacity demo_block = 8"
    by (simp_all add: file_at_def no_file_at_def two_sectors_def idle_dev_def demo_block_def)
  from device_config_tests_pass [OF this] show ?thesis by blast
qed

end
