(* ===== verification/Spec2Isabelle.thy ===== *)
theory Spec2Isabelle
  imports Prelude Bench_Ops Bench_Runner Bench_Runner_Props Bench_External Netns Netns_Props Netns_Step Bench_Main Vmm Vmm_Props Vmm_Devices Vm_Restore Vm_Restore_Netns Vm_Restore_Props Vm_Restore_Aarch64 Create_Firecracker Bench_Dispatch Bench_System Uffd Uffd_Props Uffd_Runtime Uffd_Remote Uffd_Remote_Props Uffd_Main Block_Request Block_Request_Props Block_Request_Spec Block_Device Block_Queue_Props Block_Device_Props Block_Storage Block_Lifecycle Block_Wakeup Block_Drain Block_Device_Spec
begin

text \<open>
  \<^bold>\<open>What this library verifies.\<close> The repository measures how fast a Firecracker virtual machine is
  restored from a snapshot. Its Rust code has three parts that meet at the snapshot:

  \<^item> the benchmark program, src/restore-motivation/src: a registry of measured operations, two
    concurrent drivers that run an operation on many threads, and the operations (starting
    Firecracker, building network namespaces, and the single steps of restoring a machine);
  \<^item> the changes to the monitor, src/firecracker-build/fc-change-set/src/vmm/src: the protocol of the
    monitor with its vCPU threads, the restore of single device families that the benchmark calls,
    and the virtio block device with a trace of its requests;
  \<^item> the page fault handlers, src/firecracker-build/fc-change-set/src/firecracker/examples/uffd: two
    processes that serve the memory of a restored machine from a local file or from a remote blob.

  \<^bold>\<open>Conventions.\<close> An outcome \<open>Result<T, String>\<close> is a sum whose left side is the error text; other
  error enumerations are datatypes with the constructors of the source. A panic is \<open>None\<close>, or an
  outcome of its own where the program reacts to it. Code of other crates, the kernel and started
  programs are fields of records of functions over a world \<open>'w\<close> that is passed on explicitly
  (\<open>bench_env\<close>, \<open>main_env\<close>, \<open>netns_host\<close>, \<open>proc_host\<close>, \<open>vm_api\<close>, \<open>vmm_env\<close>, \<open>uffd_host\<close>,
  \<open>poll_host\<close>, \<open>os_host\<close>, \<open>net_host\<close>, \<open>block_host\<close>, \<open>dev_host\<close>); what a theorem needs of them is a named hypothesis that a witness
  instantiates. Guest-visible integers are words of their width; counters of the benchmark are
  natural numbers, with \<open>saturating_add\<close>, casts and division by zero written out. Threads are step
  functions: one step is a critical section together with the code before it, the scheduler picks any
  enabled step, and spurious wake-ups are steps too.

  \<^bold>\<open>Theories and sources.\<close>

  \<^item> \<open>Prelude\<close>: results, the input/output type \<open>io\<close>, decimal texts, machines and their reachable
    states. The locales \<open>machine_invariant\<close> (an invariant that every step keeps),
    \<open>ranked_machine\<close> (a measure that every counted step decreases), \<open>machine_projection\<close> (a
    component whose steps are steps of a machine of its own) and \<open>machine_simulation\<close> (a machine that can
    do whatever its specification does) are the interface between a step function and its clients; the two drivers, the lock-step batch, the composed machine and the block
    device (for its identity, for the account of its chains and for its wake-ups) interpret the first,
    the drivers and the batch also the second, the composed machine the third, and the test scenarios of
    the block device the fourth.
  \<^item> \<open>Bench_Ops\<close> (ops/mod.rs): usage snapshots, \<open>measure_operation\<close>, the registry \<open>get_op\<close>,
    \<open>iteration_count\<close> and \<open>iteration_offset\<close>. The shares of the workers differ by at most one and
    tile the instances; the names of the registry are complete and distinct.
  \<^item> \<open>Bench_Runner\<close>, \<open>Bench_Runner_Props\<close> (\<open>run_external_with_prepare\<close>): the driver with a start
    and a finish gate. Barrier, no lost wake-up, one measurement per instance, freedom from deadlock
    while no measured operation fails, a bound on the steps; and the hang when one does fail.
  \<^item> \<open>Bench_External\<close> (\<open>run_external\<close>): the driver without preparation. It returns after a bounded
    number of steps whatever the operations do, reports failures, and otherwise every instance.
  \<^item> \<open>Bench_Dispatch\<close> (the public preparation functions, \<open>PreparedRunner\<close>, noop.rs, hash_cpu.rs):
    from a registered name to the closure the worker calls. For every operation and every share a
    prepared closure has a context for each measured call, and network devices are restored inside a
    namespace only.
  \<^item> \<open>Bench_System\<close> (\<open>run_external_with_prepare\<close> with the closures of \<open>Bench_Dispatch\<close>): the driver
    composed with the operation it runs, where each step computes the outcome that \<open>Bench_Runner\<close>
    takes as an argument. In every interleaving a worker about to measure holds exactly the contexts
    it still needs, and a run that returns a report has used up all of them.
  \<^item> \<open>Bench_Main\<close> (main.rs): the command line, the choice of the driver and the CSV file. Accepted
    arguments are in range, arguments and rows are read back.
  \<^item> \<open>Netns\<close>, \<open>Netns_Props\<close>, \<open>Netns_Step\<close> (ops/netns): names and subnets of an instance, command
    lines, set-up and clean-up, the namespace of a machine, and the operation that runs all threads
    through the stages in lock step. Names are unique, subnets disjoint up to 16384 instances,
    everything set up is cleaned up on every path.
  \<^item> \<open>Vm_Restore\<close>, \<open>Vm_Restore_Netns\<close>, \<open>Vm_Restore_Props\<close> (ops/vm_restore, snapshot_load.rs,
    guest_memory.rs): the steps of a restore. The locale \<open>prepared_runner\<close> states the contract of a
    preparation with its closure; ten operations and \<open>create_firecracker\<close> interpret it.
  \<^item> \<open>Vm_Restore_Aarch64\<close> (the variants of the vCPU and VM state restore for that architecture): the preparation keeps the contract, and a context is built as on x86_64,
    with the affinity values that the monitor computes.
  \<^item> \<open>Create_Firecracker\<close> (create_firecracker.rs): starting the process and waiting for its socket.
    No child process is left behind on any path, and the wait is decided by the first attempt that
    decides.
  \<^item> \<open>Vmm\<close>, \<open>Vmm_Props\<close>, \<open>Vmm_Devices\<close> (vmm/src/lib.rs): start, pause, resume, save, dump and exit
    of the vCPUs, device updates, the configuration read back, the filter of the device state.
  \<^item> \<open>Uffd\<close>, \<open>Uffd_Props\<close> (uffd_utils.rs, on_demand_handler.rs): mappings, one page fault, one
    round of events. A fault is served from the offset of its page; a round loses no fault. The locale
    \<open>page_server\<close> states what a round needs of the service of one fault; the local and the remote
    service interpret it.
  \<^item> \<open>Uffd_Runtime\<close> (\<open>Runtime::run\<close>): the poll loop. It does not panic under the stated contract of
    the peer, and serves the ready descriptors as a loop over all of them would.
  \<^item> \<open>Uffd_Remote\<close>, \<open>Uffd_Remote_Props\<close> (remote_range_handler.rs): URL, HTTP range requests, the
    cache of chunks. The abstract specification is the blob as a function from offsets to bytes: every
    page served, from the cache or from the network, is the one of the blob.
  \<^item> \<open>Uffd_Main\<close> (both programs): arguments, panic hook, output.
  \<^item> \<open>Block_Request\<close>, \<open>Block_Request_Props\<close> (request.rs, mod.rs, trace.rs): parsing of a descriptor
    chain, rate limiting, completion, the trace. An accepted transfer lies within the disk and uses
    its descriptors in the allowed direction.
  \<^item> \<open>Block_Request_Spec\<close> (the tests in request.rs): the generator and the oracle of the property-based
    test of the parser, and its unit tests, as a specification. The parser agrees with the oracle on
    every generated chain, not only on the sampled ones.
  \<^item> \<open>Block_Device\<close>, \<open>Block_Queue_Props\<close>, \<open>Block_Device_Props\<close> (device.rs): queue processing,
    asynchronous completions, configuration space, activation. Every chain taken from the queue is
    answered, submitted or put back, in order; every completion is answered.
  \<^item> \<open>Block_Storage\<close> (the same functions, with what they do to data): the abstract specification is a
    disk of bytes and the guest's memory. Under a contract for an engine that completes requests at
    once, processing the queue serves the chains in order; so no byte outside the disk or outside
    the writable descriptors changes, and a read returns what was written.
  \<^item> \<open>Block_Lifecycle\<close> (the events of the device, with an engine that completes requests later): the
    machine of all events keeps the account of the chains. Each is in the queue, in flight or answered,
    and no chain is answered twice.
  \<^item> \<open>Block_Wakeup\<close> (the same events with the guest and the event descriptors): a device that stops in the
    middle of its queue, rate limited or throttled, always has an event to come that takes it up again.
    A change of the backing file is left out, since the engine may then drop what the device waits for.
  \<^item> \<open>Block_Drain\<close> (the completion events of a throttled device): if the engine completes at least one request
    before each of them and no limiter is in the way, as many events as chains are queued or in flight
    empty the queue.
  \<^item> \<open>Block_Device_Spec\<close> (unit tests of device.rs): the tests of configuration, configuration space and
    backing file, and the scenarios that fill the queues of the asynchronous engine. A machine of five
    numbers is the abstract specification of any sequence of flush batches, events and assertions; the
    device simulates it, for every size of the submission queue.

  \<^bold>\<open>The whole program.\<close> This theory joins them: \<open>completed_run_writes_every_instance\<close> goes from the
  command line through the registry and either driver to the rows of the CSV file.

  \<^bold>\<open>Loops.\<close> Loops over a range or a list are structural recursions. The loops of the source that
  depend on what the outside world delivers need not end: the header loop of the HTTP client, the poll
  loop and the event loops of the handlers, the two queue loops of the block device, and the batches
  of \<open>netns_step_shell\<close>. They are \<open>partial_function\<close>s into \<open>option\<close>, where \<open>None\<close> is a loop that
  does not return; theorems state that a value is returned (\<open>process_queue_loses_no_request\<close> and
  \<open>completions_answered\<close> for a finite queue, \<open>step_shell_returns_iff\<close>), or that none is
  (\<open>truncated_headers_hang\<close>). The wait for the API socket has the bound of the source on its
  attempts. There is no fuel.

  \<^bold>\<open>What the proofs showed.\<close> A measured operation that fails in the driver with preparation
  makes the whole run hang (\<open>failed_operation_hangs\<close>), where the driver without preparation reports
  it (\<open>external_failure_reported\<close>). A resume that fails leaves acknowledgements in the channels, so
  that the next pause fails (\<open>failed_resume_desynchronises\<close>). A connection that closes within the
  response headers makes the remote handler loop for ever. A request that the engine throttles has
  been charged to the rate limiter and is charged again (\<open>throttled_request_charged\<close>); an
  identification request with a buffer of more than 20 bytes is reported as failed
  (\<open>get_id_needs_exact_buffer\<close>); regions whose pages are larger than a chunk are never served
  (\<open>large_page_never_served\<close>). The helper \<open>check_parse_err\<close> of the parser's tests accepts any error
  where a test names one, and the generator of the property-based test overflows for the last sectors.

  \<^bold>\<open>Not modelled.\<close> Log messages, latencies in the metrics, and texts printed for the user; accessors
  of the device trait that return a field; the unit tests other than those of the request parser and the ones in
  \<open>Block_Device_Spec\<close>: they run over the guest memory and the token buckets of other crates. Outside the
  Rust code: the Python experiments and plots, the shell scripts, the C workloads that run in the guest,
  and the comparisons with other systems, which start programs, move files and draw figures.
\<close>

section \<open>From the command line to the result file\<close>

text \<open>
  What a driver may return: the value with which the main thread of its machine returns in some
  run. The operation with a driver of its own has its theorems in theory \<open>Netns_Step\<close>.
\<close>

fun driver_outcome :: "run_config \<Rightarrow> op \<Rightarrow> run_output res \<Rightarrow> bool" where
  "driver_outcome cfg (External f) r = (\<exists>s. reaches (e_step cfg) e_init s \<and> e_main s = EMReturned r)"
| "driver_outcome cfg (ExternalWithPrepare f) r = (\<exists>s. reachable cfg s \<and> main_pc s = MReturned r)"
| "driver_outcome cfg (Internal f) r = False"

lemma driver_outcome_ids:
  assumes "driver_outcome cfg p (Ok out)" "0 < worker_count cfg" "total cfg \<le> u64_max"
  shows "map instance_id (measurements out) = [0..<total cfg]"
proof (cases p)
  case (External f)
  with assms(1) obtain s where "e_inv cfg s" "e_main s = EMReturned (Ok out)"
    by (auto dest: e_reachable_inv)
  with joined_ids_all [OF assms(2,3)] show ?thesis by (simp add: e_inv_def)
next
  case (ExternalWithPrepare f)
  with assms(1) obtain s where "run_inv cfg s" "main_pc s = MReturned (Ok out)"
    by (auto dest: reachable_inv)
  with joined_ids_all [OF assms(2,3)] show ?thesis by (simp add: run_inv_def)
qed (use assms(1) in simp)

lemma bench_main_completed:
  assumes "bench_main E args = Completed_run path lines summary"
    and "parse_args args = Parsed (name, t, c, per_op)" "get_op name = Some p"
  shows "\<exists>out. run_op E p \<lparr>total = t, concurrency = c, measure_per_op_usage = per_op\<rparr> = Ok out \<and>
           path = ''results/'' @ name @ ''.csv'' \<and> lines = csv_header # map csv_row (measurements out)"
  using assms by (auto simp: bench_main_def csv_file_def Let_def split: sum.splits if_splits)


definition file_env :: "run_output \<Rightarrow> main_env" where
  "file_env out =
     \<lparr>me_external = (\<lambda>_ _. Ok out), me_with_prepare = (\<lambda>_ _. Err []), me_internal = (\<lambda>_ _. Err []),
      me_create_dir = (\<lambda>_. True), me_create_file = (\<lambda>_. True), me_write = (\<lambda>_. True)\<rparr>"

lemma file_env_completes:
  assumes "parse_args args = Parsed (name, t, c, per_op)" "get_op name = Some (External f)"
  shows "\<exists>path lines summary. bench_main (file_env out) args = Completed_run path lines summary"
  using assms by (simp add: bench_main_def run_op_def file_env_def Let_def list_all_iff)


end
